theory Spec2Isabelle
  imports Complex_Main "HOL-Library.Word" "HOL-Library.Sublist"
begin

section \<open>Strings of the script\<close>

text \<open>
  A JavaScript string is a sequence of 16-bit code units. String literals of the
  source are written \<open>js ''...''\<close>; characters that an Isabelle literal cannot hold
  (line feed, backslash, double quote) are given by their code.
\<close>

type_synonym jschar = "16 word"
type_synonym jsstring = "jschar list"

definition js :: "string \<Rightarrow> jsstring" where
  "js s = map (\<lambda>c. of_nat (of_char c)) s"

definition LF :: jschar where "LF = 0x0A"
definition CR :: jschar where "CR = 0x0D"
definition DQUOTE :: jschar where "DQUOTE = 0x22"
definition BACKSLASH :: jschar where "BACKSLASH = 0x5C"

text \<open>
  \<open>String.prototype.trim\<close> strips the code units of the productions WhiteSpace and
  LineTerminator of ECMA-262 from both ends.
\<close>

definition isWhiteSpace :: "jschar \<Rightarrow> bool" where
  "isWhiteSpace c \<longleftrightarrow>
     c = 0x09 \<or> c = 0x0A \<or> c = 0x0B \<or> c = 0x0C \<or> c = 0x0D \<or> c = 0x20 \<or> c = 0xA0 \<or>
     c = 0x1680 \<or> (0x2000 \<le> c \<and> c \<le> 0x200A) \<or> c = 0x2028 \<or> c = 0x2029 \<or>
     c = 0x202F \<or> c = 0x205F \<or> c = 0x3000 \<or> c = 0xFEFF"

definition trim :: "jsstring \<Rightarrow> jsstring" where
  "trim s = rev (dropWhile isWhiteSpace (rev (dropWhile isWhiteSpace s)))"

section \<open>The Task record\<close>

text \<open>
  The object literal of \<open>addTask\<close>: \<open>{ id, title, status, createdAt }\<close>. The field
  \<open>id\<close> is named \<open>id_of\<close> here, \<open>id\<close> being the identity function of HOL. An id is
  the integer \<open>Date.now()\<close> returns; the model reads it as a mathematical integer,
  which is what a JavaScript number is on the safe integers.
\<close>

record task =
  id_of :: int
  title :: jsstring
  status :: jsstring
  createdAt :: jsstring

section \<open>JSON.stringify\<close>

text \<open>
  \<open>Number::toString\<close> on a safe integer (one of magnitude at most \<open>2^53 - 1\<close>):
  the decimal digits, with a minus sign for a negative one. It is also what a
  template literal writes for \<open>${task.id}\<close> and for \<open>${Date.now()}\<close>. Beyond the
  safe integers the script writes the shortest digits that read back to the same
  number, and an exponent from \<open>10^21\<close> on, which this function does not: the
  properties below are stated for safe integers.
\<close>

definition digitChar :: "nat \<Rightarrow> jschar" where
  "digitChar d = of_nat (48 + d)"

fun digits :: "nat \<Rightarrow> jsstring" where
  "digits n = (if n < 10 then [digitChar n]
               else digits (n div 10) @ [digitChar (n mod 10)])"

declare digits.simps [simp del]

definition Number_toString :: "int \<Rightarrow> jsstring" where
  "Number_toString n = (if n < 0 then 0x2D # digits (nat (- n)) else digits (nat n))"

text \<open>
  \<open>QuoteJSONString\<close> of ECMA-262: the two-character escapes of the table, a
  \<open>\uXXXX\<close> escape (lower-case hexadecimal) for the other control characters and for
  a surrogate that is not part of a pair, every other code unit as it is.
\<close>

definition hexDigit :: "nat \<Rightarrow> jschar" where
  "hexDigit d = (if d < 10 then of_nat (48 + d) else of_nat (87 + d))"

definition UnicodeEscape :: "jschar \<Rightarrow> jsstring" where
  "UnicodeEscape c =
     [BACKSLASH, 0x75,
      hexDigit (unat c div 4096), hexDigit (unat c div 256 mod 16),
      hexDigit (unat c div 16 mod 16), hexDigit (unat c mod 16)]"

definition isLeadingSurrogate :: "jschar \<Rightarrow> bool" where
  "isLeadingSurrogate c \<longleftrightarrow> 0xD800 \<le> c \<and> c \<le> 0xDBFF"

definition isTrailingSurrogate :: "jschar \<Rightarrow> bool" where
  "isTrailingSurrogate c \<longleftrightarrow> 0xDC00 \<le> c \<and> c \<le> 0xDFFF"

fun quoteChars :: "jsstring \<Rightarrow> jsstring" where
  "quoteChars [] = []"
| "quoteChars (c # cs) =
     (if c = 0x08 then [BACKSLASH, 0x62] @ quoteChars cs
      else if c = 0x09 then [BACKSLASH, 0x74] @ quoteChars cs
      else if c = 0x0A then [BACKSLASH, 0x6E] @ quoteChars cs
      else if c = 0x0C then [BACKSLASH, 0x66] @ quoteChars cs
      else if c = 0x0D then [BACKSLASH, 0x72] @ quoteChars cs
      else if c = DQUOTE then [BACKSLASH, DQUOTE] @ quoteChars cs
      else if c = BACKSLASH then [BACKSLASH, BACKSLASH] @ quoteChars cs
      else if c < 0x20 then UnicodeEscape c @ quoteChars cs
      else if isLeadingSurrogate c then
        (case cs of
           [] \<Rightarrow> UnicodeEscape c
         | d # ds \<Rightarrow>
             if isTrailingSurrogate d then c # d # quoteChars ds
             else UnicodeEscape c @ quoteChars cs)
      else if isTrailingSurrogate c then UnicodeEscape c @ quoteChars cs
      else c # quoteChars cs)"

definition QuoteJSONString :: "jsstring \<Rightarrow> jsstring" where
  "QuoteJSONString s = [DQUOTE] @ quoteChars s @ [DQUOTE]"

text \<open>
  An array and an object are written without white space: the elements between
  brackets, the members \<open>"key":value\<close> between braces, separated by commas, the
  members in the order the properties were created.
\<close>

fun commaSep :: "jsstring list \<Rightarrow> jsstring" where
  "commaSep [] = []"
| "commaSep [x] = x"
| "commaSep (x # y # ys) = x @ [0x2C] @ commaSep (y # ys)"

definition JSON_member :: "string \<Rightarrow> jsstring \<Rightarrow> jsstring" where
  "JSON_member k v = QuoteJSONString (js k) @ [0x3A] @ v"

definition JSON_object :: "jsstring list \<Rightarrow> jsstring" where
  "JSON_object ms = [0x7B] @ commaSep ms @ [0x7D]"

definition JSON_array :: "jsstring list \<Rightarrow> jsstring" where
  "JSON_array es = [0x5B] @ commaSep es @ [0x5D]"

definition stringify_task :: "task \<Rightarrow> jsstring" where
  "stringify_task t =
     JSON_object
       [JSON_member ''id'' (Number_toString (id_of t)),
        JSON_member ''title'' (QuoteJSONString (title t)),
        JSON_member ''status'' (QuoteJSONString (status t)),
        JSON_member ''createdAt'' (QuoteJSONString (createdAt t))]"

definition stringify_tasks :: "task list \<Rightarrow> jsstring" where
  "stringify_tasks ts = JSON_array (map stringify_task ts)"

section \<open>The page\<close>

text \<open>
  What the script reads and writes: the array \<open>tasks\<close>, \<open>localStorage\<close>, the two
  input elements, the rows of the table body, the message element with the timers
  set on it, and the calls that leave the script (\<open>alert\<close>, \<open>setItem\<close>, a rebuild of
  the table, \<open>fetch\<close>, \<open>console.error\<close>, \<open>focus\<close>) in the order they are made.
  A call is recorded when it has come back: a call that throws leaves no record.
  A row of the table body is the markup assigned to its \<open>innerHTML\<close>.

  \<open>localStorage\<close> is a map from keys to strings. The script writes one key;
  \<open>quota\<close> is the number of code units the storage has for that item, key and
  value together (what the quota of the origin leaves beside the other items).

  The form variant of the script adds, for every task it sends, a hidden form and a
  hidden iframe to the document: \<open>forms\<close> holds, in the order they were made,
  whether the pair is still in the document and the flag \<open>hasSubmitted\<close> of the
  call; \<open>formTimers\<close> holds the forms whose timer of 700 ms is still to fire.
\<close>

datatype exception = QuotaExceededError

datatype 'a completion = Returns 'a | Throws exception

record submission =
  action :: jsstring
  target :: jsstring
  inputs :: "(jsstring \<times> jsstring) list"

record formState =
  inBody :: bool
  hasSubmitted :: bool

record request =
  url :: jsstring
  http_method :: jsstring
  headers :: "(jsstring \<times> jsstring) list"
  body :: jsstring

datatype effect =
    Alert jsstring
  | SetItem jsstring jsstring
  | Render "jsstring list"
  | Fetch request
  | Submit submission
  | ConsoleError "jsstring list"
  | Focus

record message =
  textContent :: jsstring
  classList :: "string set"

record app =
  tasks :: "task list"
  localStorage :: "jsstring \<rightharpoonup> jsstring"
  taskTitleInput :: jsstring
  taskStatusSelect :: jsstring
  taskTableBody :: "jsstring list"
  saveMessage :: message
  timers :: "nat list"
  effects :: "effect list"
  quota :: nat
  forms :: "formState list"
  formTimers :: "nat list"

definition API_URL :: jsstring where
  "API_URL = js ''https://script.google.com/macros/s/AKfycbxBURsevVjpayeyJoumk24TG5x624E9eN2E0dERVWapSZEoKKfyDZRRN_8TcQhLlmIQ/exec''"

definition STORAGE_KEY :: jsstring where
  "STORAGE_KEY = js ''tasks''"

section \<open>saveTasks\<close>

text \<open>
  \<open>localStorage.setItem\<close> throws a QuotaExceededError, and writes nothing, when
  the item does not fit. Nothing in the script catches it: a function that calls
  \<open>saveTasks\<close> ends where \<open>setItem\<close> throws.
\<close>

definition setItem :: "jsstring \<Rightarrow> jsstring \<Rightarrow> app \<Rightarrow> unit completion \<times> app" where
  "setItem key val st =
     (if length key + length val \<le> quota st then
        (Returns (),
         st\<lparr>localStorage := (localStorage st)(key \<mapsto> val),
            effects := effects st @ [SetItem key val]\<rparr>)
      else (Throws QuotaExceededError, st))"

definition saveTasks :: "app \<Rightarrow> unit completion \<times> app" where
  "saveTasks st = setItem STORAGE_KEY (stringify_tasks (tasks st)) st"

section \<open>escapeHtml and renderTasks\<close>

text \<open>
  \<open>escapeHtml\<close> sets \<open>innerText\<close> of a fresh \<open>div\<close> and reads its \<open>innerHTML\<close> back.
  The setter of \<open>innerText\<close> (HTML standard, rendered text fragment) turns the string
  into text nodes and \<open>br\<close> elements: each maximal run without line feed and carriage
  return is a text node when it is not empty, each line break (carriage return and
  line feed together count once) a \<open>br\<close>. The getter of \<open>innerHTML\<close> serialises the
  children: in a text node \<open>&\<close>, the no-break space, \<open><\<close> and \<open>>\<close> become
  \<open>&amp;\<close>, \<open>&nbsp;\<close>, \<open>&lt;\<close> and \<open>&gt;\<close>; a \<open>br\<close> element is written \<open><br>\<close>.
\<close>

datatype node = Text jsstring | Br

definition isLineBreak :: "jschar \<Rightarrow> bool" where
  "isLineBreak c \<longleftrightarrow> c = LF \<or> c = CR"

fun breaks :: "jsstring \<Rightarrow> node list"
  and run :: "jsstring \<Rightarrow> jsstring \<Rightarrow> node list" where
  "breaks [] = []"
| "breaks (c # cs) =
     (if c = CR then
        (case cs of
           [] \<Rightarrow> [Br]
         | d # ds \<Rightarrow> if d = LF then Br # breaks ds else Br # breaks cs)
      else if c = LF then Br # breaks cs
      else run [c] cs)"
| "run acc [] = [Text acc]"
| "run acc (c # cs) =
     (if isLineBreak c then Text acc # breaks (c # cs) else run (acc @ [c]) cs)"

definition innerText_set :: "jsstring \<Rightarrow> node list" where
  "innerText_set text = breaks text"

definition escapeChar :: "jschar \<Rightarrow> jsstring" where
  "escapeChar c =
     (if c = 0x26 then js ''&amp;''
      else if c = 0xA0 then js ''&nbsp;''
      else if c = 0x3C then js ''&lt;''
      else if c = 0x3E then js ''&gt;''
      else [c])"

fun serializeNode :: "node \<Rightarrow> jsstring" where
  "serializeNode (Text s) = concat (map escapeChar s)"
| "serializeNode Br = js ''<br>''"

definition innerHTML_get :: "node list \<Rightarrow> jsstring" where
  "innerHTML_get ns = concat (map serializeNode ns)"

definition escapeHtml :: "jsstring \<Rightarrow> jsstring" where
  "escapeHtml text = innerHTML_get (innerText_set text)"

definition emptyRow :: jsstring where
  \<open>emptyRow = js ''<td colspan="4" class="empty-row">No tasks yet. Add one above.</td>''\<close>

definition taskRow :: "task \<Rightarrow> jsstring" where
  \<open>taskRow task =
     [LF] @ js ''      <td>'' @ escapeHtml (title task) @ js ''</td>'' @
     [LF] @ js ''      <td>'' @ status task @ js ''</td>'' @
     [LF] @ js ''      <td>'' @ createdAt task @ js ''</td>'' @
     [LF] @ js ''      <td><button class="delete-btn" data-id="'' @
       Number_toString (id_of task) @ js ''">Delete</button></td>'' @
     [LF] @ js ''    ''\<close>

text \<open>
  \<open>renderTasks\<close> empties the table body and fills it again: the placeholder row
  when there is no task, else one row per task. The click handler it then attaches
  to every delete button calls \<open>deleteTask\<close> with the number read from the
  \<open>data-id\<close> attribute of the button; the model keeps the attribute in the
  markup of the row and has no state for the handlers.
\<close>

definition renderTasks :: "app \<Rightarrow> app" where
  "renderTasks st =
     (let cleared = [];
          rows = (if length (tasks st) = 0 then cleared @ [emptyRow]
                  else cleared @ map taskRow (tasks st))
      in st\<lparr>taskTableBody := rows, effects := effects st @ [Render rows]\<rparr>)"

section \<open>deleteTask\<close>

text \<open>
  \<open>deleteTask\<close> assigns the filtered array to \<open>tasks\<close>, then saves, then rebuilds
  the table. When \<open>saveTasks\<close> throws, \<open>deleteTask\<close> ends there: the array is
  filtered and the table is not rebuilt.
\<close>

definition deleteTask :: "int \<Rightarrow> app \<Rightarrow> unit completion \<times> app" where
  "deleteTask taskId st =
     (let st1 = st\<lparr>tasks := filter (\<lambda>task. id_of task \<noteq> taskId) (tasks st)\<rparr>
      in case saveTasks st1 of
           (Throws e, st2) \<Rightarrow> (Throws e, st2)
         | (Returns u, st2) \<Rightarrow> (Returns (), renderTasks st2))"

section \<open>showSaveMessage and sendTaskToSheet\<close>

text \<open>
  \<open>showSaveMessage\<close> writes the text, sets the class \<open>error\<close> exactly when
  \<open>isError\<close> holds, adds the class \<open>visible\<close> and sets a timer of 1800 milliseconds.
  The timers of the page all run the same callback, which removes the class
  \<open>visible\<close>; \<open>timerFires\<close> runs the oldest one.
\<close>

definition showSaveMessage :: "jsstring \<Rightarrow> bool \<Rightarrow> app \<Rightarrow> app" where
  "showSaveMessage messageText isError st =
     (let classes = classList (saveMessage st);
          toggled = (if isError then insert ''error'' classes else classes - {''error''})
      in st\<lparr>saveMessage := \<lparr>textContent = messageText, classList = insert ''visible'' toggled\<rparr>,
            timers := timers st @ [1800]\<rparr>)"

definition timerFires :: "app \<Rightarrow> app" where
  "timerFires st =
     (case timers st of
        [] \<Rightarrow> st
      | d # ds \<Rightarrow>
          st\<lparr>saveMessage := (saveMessage st)\<lparr>classList := classList (saveMessage st) - {''visible''}\<rparr>,
             timers := ds\<rparr>)"

text \<open>
  \<open>sendTaskToSheet\<close> is an async function. Called, it runs up to its first
  \<open>await\<close>: it builds the request and calls \<open>fetch\<close>, then gives control back to
  its caller. The rest runs when the promise of \<open>fetch\<close> is settled; the model
  takes how it was settled as an argument of \<open>sendTaskToSheet_settled\<close>. A rejected
  promise carries the text of its error. A response carries \<open>ok\<close>, \<open>status\<close> (named
  \<open>status_code\<close> here, \<open>status\<close> being a field of the task) and how the
  promise of \<open>text()\<close> is settled (\<open>text_promise\<close>).
\<close>

datatype 'a settled = Rejected jsstring | Fulfilled 'a

record response =
  ok :: bool
  status_code :: nat
  text_promise :: "jsstring settled"

definition sendTaskToSheet :: "task \<Rightarrow> app \<Rightarrow> app" where
  "sendTaskToSheet task st =
     st\<lparr>effects := effects st @
        [Fetch \<lparr>url = API_URL,
                http_method = js ''POST'',
                headers = [(js ''Content-Type'', js ''text/plain;charset=utf-8'')],
                body = JSON_object
                         [JSON_member ''title'' (QuoteJSONString (title task)),
                          JSON_member ''status'' (QuoteJSONString (status task))]\<rparr>]\<rparr>"

definition console_error :: "jsstring list \<Rightarrow> app \<Rightarrow> app" where
  "console_error args st = st\<lparr>effects := effects st @ [ConsoleError args]\<rparr>"

definition sendTaskToSheet_catch :: "jsstring \<Rightarrow> app \<Rightarrow> app" where
  "sendTaskToSheet_catch error st =
     showSaveMessage (js ''Could not save to Sheet. Please try again.'') True
       (console_error [js ''Could not save to Google Sheet:'', error] st)"

definition sendTaskToSheet_settled :: "response settled \<Rightarrow> app \<Rightarrow> app" where
  "sendTaskToSheet_settled outcome st =
     (case outcome of
        Rejected error \<Rightarrow> sendTaskToSheet_catch error st
      | Fulfilled response \<Rightarrow>
          if ok response then showSaveMessage (js ''Saved to Sheet'') False st
          else
            (case text_promise response of
               Rejected error \<Rightarrow> sendTaskToSheet_catch error st
             | Fulfilled responseText \<Rightarrow>
                 showSaveMessage (js ''Could not save to Sheet. Please try again.'') True
                   (console_error
                      [js ''Could not save to Google Sheet (HTTP '' @
                         Number_toString (int (status_code response)) @ js ''):'',
                       responseText] st)))"

section \<open>addTask\<close>

text \<open>
  The two readings of the clock, \<open>Date.now()\<close> and
  \<open>new Date().toLocaleString()\<close>, are inputs of \<open>addTask\<close>. The function has no
  \<open>return\<close> with a value: what a caller gets is \<open>undefined\<close> on both paths, which
  is \<open>Returns None\<close> here. When \<open>saveTasks\<close> throws, \<open>addTask\<close> ends there, the
  new task in the array and nothing else done.
\<close>

record clock =
  now :: int
  toLocaleString :: jsstring

definition addTask :: "clock \<Rightarrow> app \<Rightarrow> task option completion \<times> app" where
  "addTask date st =
     (let title = trim (taskTitleInput st);
          status = taskStatusSelect st
      in if title = [] then
           (Returns None,
            st\<lparr>effects := effects st @ [Alert (js ''Please enter a task title.'')]\<rparr>)
         else
           (let newTask = \<lparr>id_of = now date, title = title, status = status,
                           createdAt = toLocaleString date\<rparr>;
                st1 = st\<lparr>tasks := tasks st @ [newTask]\<rparr>
            in case saveTasks st1 of
                 (Throws e, st2) \<Rightarrow> (Throws e, st2)
               | (Returns u, st2) \<Rightarrow>
                   (let st3 = renderTasks st2;
                        st4 = sendTaskToSheet newTask st3;
                        st5 = st4\<lparr>taskTitleInput := []\<rparr>;
                        st6 = st5\<lparr>effects := effects st5 @ [Focus]\<rparr>
                    in (Returns None, st6))))"

section \<open>The form variant: sendTaskToGoogleForm\<close>

text \<open>
  The second script of \<open>app.js\<close> differs from the first in how a new task is
  sent: \<open>sendTaskToGoogleForm\<close> builds a hidden iframe, named after a further
  reading of \<open>Date.now()\<close>, and a hidden form with three hidden inputs for the title, the status and the createdAt
  of the task,
  adds both to the document, sets \<open>hasSubmitted\<close> and submits the form; a timer
  of 700 ms is set after the submission. What \<open>form.submit()\<close> throws, if it
  throws, is an input of the function: the \<open>catch\<close> clause logs it, shows the
  message and removes the pair. The pair made by a call is known by its place in
  \<open>forms\<close>.
\<close>

definition FORM_ACTION_URL :: jsstring where
  "FORM_ACTION_URL = js ''https://docs.google.com/forms/d/e/1FAIpQLScsdeU43nyVwOM3sSS5P9dJqUk8si9mllRXauGETi-gVAgP7Q/formResponse''"

definition cleanup :: "nat \<Rightarrow> app \<Rightarrow> app" where
  "cleanup k st =
     (if k < length (forms st)
      then st\<lparr>forms := (forms st)[k := (forms st ! k)\<lparr>inBody := False\<rparr>]\<rparr>
      else st)"

definition sendTaskToGoogleForm :: "int \<Rightarrow> jsstring option \<Rightarrow> task \<Rightarrow> app \<Rightarrow> app" where
  "sendTaskToGoogleForm time submitThrows task st =
     (let iframeName = js ''google-form-target-'' @ Number_toString time;
          form = \<lparr>action = FORM_ACTION_URL, target = iframeName,
                  inputs = [(js ''entry.1486922306'', title task),
                            (js ''entry.1852717744'', status task),
                            (js ''entry.1431330731'', createdAt task)]\<rparr>;
          k = length (forms st);
          st1 = st\<lparr>forms := forms st @ [\<lparr>inBody = True, hasSubmitted = False\<rparr>]\<rparr>;
          st2 = st1\<lparr>forms := (forms st1)[k := \<lparr>inBody = True, hasSubmitted = True\<rparr>]\<rparr>
      in case submitThrows of
           None \<Rightarrow>
             st2\<lparr>effects := effects st2 @ [Submit form], formTimers := formTimers st2 @ [k]\<rparr>
         | Some error \<Rightarrow>
             cleanup k
               (showSaveMessage (js ''Could not save'') True
                  (console_error [js ''Could not save to Google Sheet:'', error] st2)))"

text \<open>
  The three callbacks of a pair: the load and the error event of the iframe, and
  the timer.
\<close>

definition iframeLoad :: "nat \<Rightarrow> app \<Rightarrow> app" where
  "iframeLoad k st =
     (if k < length (forms st) then
        (if \<not> hasSubmitted (forms st ! k) then st
         else cleanup k (showSaveMessage (js ''Saved to Google Sheet'') False st))
      else st)"

definition iframeError :: "nat \<Rightarrow> app \<Rightarrow> app" where
  "iframeError k st =
     (if k < length (forms st) then cleanup k (showSaveMessage (js ''Could not save'') True st)
      else st)"

definition formTimeout :: "nat \<Rightarrow> app \<Rightarrow> app" where
  "formTimeout k st =
     (if k < length (forms st) then
        (let st1 = st\<lparr>formTimers := remove1 k (formTimers st)\<rparr>
         in if inBody (forms st1 ! k)
            then cleanup k (showSaveMessage (js ''Saved to Google Sheet'') False st1)
            else st1)
      else st)"

definition addTask_form :: "clock \<Rightarrow> int \<Rightarrow> jsstring option \<Rightarrow> app \<Rightarrow> task option completion \<times> app" where
  "addTask_form date time submitThrows st =
     (let title = trim (taskTitleInput st);
          status = taskStatusSelect st
      in if title = [] then
           (Returns None,
            st\<lparr>effects := effects st @ [Alert (js ''Please enter a task title.'')]\<rparr>)
         else
           (let newTask = \<lparr>id_of = now date, title = title, status = status,
                           createdAt = toLocaleString date\<rparr>;
                st1 = st\<lparr>tasks := tasks st @ [newTask]\<rparr>
            in case saveTasks st1 of
                 (Throws e, st2) \<Rightarrow> (Throws e, st2)
               | (Returns u, st2) \<Rightarrow>
                   (let st3 = renderTasks st2;
                        st4 = sendTaskToGoogleForm time submitThrows newTask st3;
                        st5 = st4\<lparr>taskTitleInput := []\<rparr>;
                        st6 = st5\<lparr>effects := effects st5 @ [Focus]\<rparr>
                    in (Returns None, st6))))"

section \<open>JSON.parse\<close>

text \<open>
  The values \<open>JSON.parse\<close> builds. A number is kept as the exact value of its
  literal, which is the JavaScript number on the safe integers (rounding to a double
  is not modelled). An object is the list of its properties in the order they were
  created (an engine lists the properties whose names are array indices first; the
  model does not reorder them).
\<close>

datatype json =
    JNull
  | JBool bool
  | JNumber rat
  | JString jsstring
  | JArray "json list"
  | JObject "(jsstring \<times> json) list"

definition isJSONWhiteSpace :: "jschar \<Rightarrow> bool" where
  "isJSONWhiteSpace c \<longleftrightarrow> c = 0x09 \<or> c = 0x0A \<or> c = 0x0D \<or> c = 0x20"

definition skipWs :: "jsstring \<Rightarrow> jsstring" where
  "skipWs s = dropWhile isJSONWhiteSpace s"

subsection \<open>Strings\<close>

definition hexValue :: "jschar \<Rightarrow> nat option" where
  "hexValue c =
     (if 0x30 \<le> c \<and> c \<le> 0x39 then Some (unat c - 48)
      else if 0x61 \<le> c \<and> c \<le> 0x66 then Some (unat c - 87)
      else if 0x41 \<le> c \<and> c \<le> 0x46 then Some (unat c - 55)
      else None)"

definition hex4 :: "jschar \<Rightarrow> jschar \<Rightarrow> jschar \<Rightarrow> jschar \<Rightarrow> jschar option" where
  "hex4 a b c d =
     (case (hexValue a, hexValue b, hexValue c, hexValue d) of
        (Some x, Some y, Some z, Some w) \<Rightarrow> Some (of_nat (((x * 16 + y) * 16 + z) * 16 + w))
      | _ \<Rightarrow> None)"

definition singleEscape :: "jschar \<Rightarrow> jschar option" where
  "singleEscape e =
     (if e = DQUOTE then Some DQUOTE
      else if e = BACKSLASH then Some BACKSLASH
      else if e = 0x2F then Some 0x2F
      else if e = 0x62 then Some 0x08
      else if e = 0x66 then Some 0x0C
      else if e = 0x6E then Some 0x0A
      else if e = 0x72 then Some 0x0D
      else if e = 0x74 then Some 0x09
      else None)"

definition consChar :: "jschar \<Rightarrow> (jsstring \<times> jsstring) option \<Rightarrow> (jsstring \<times> jsstring) option" where
  "consChar c r = (case r of None \<Rightarrow> None | Some (s, rest) \<Rightarrow> Some (c # s, rest))"

text \<open>
  \<open>parseChars\<close> reads a string after its opening quote, up to and including the
  closing quote, and gives the string read and the input left.
\<close>

fun parseChars :: "jsstring \<Rightarrow> (jsstring \<times> jsstring) option" where
  "parseChars [] = None"
| "parseChars (c # cs) =
     (if c = DQUOTE then Some ([], cs)
      else if c = BACKSLASH then
        (case cs of
           [] \<Rightarrow> None
         | e # es \<Rightarrow>
             if e = 0x75 then
               (case es of
                  h1 # h2 # h3 # h4 # rest \<Rightarrow>
                    (case hex4 h1 h2 h3 h4 of
                       None \<Rightarrow> None
                     | Some u \<Rightarrow> consChar u (parseChars rest))
                | _ \<Rightarrow> None)
             else
               (case singleEscape e of
                  None \<Rightarrow> None
                | Some u \<Rightarrow> consChar u (parseChars es)))
      else if c < 0x20 then None
      else consChar c (parseChars cs))"

subsection \<open>Numbers\<close>

definition isDigit :: "jschar \<Rightarrow> bool" where
  "isDigit c \<longleftrightarrow> 0x30 \<le> c \<and> c \<le> 0x39"

definition decimalValue :: "jsstring \<Rightarrow> nat" where
  "decimalValue ds = foldl (\<lambda>a c. 10 * a + (unat c - 48)) 0 ds"

definition parseIntegerPart :: "jsstring \<Rightarrow> (nat \<times> jsstring) option" where
  "parseIntegerPart s =
     (case s of
        [] \<Rightarrow> None
      | c # cs \<Rightarrow>
          if c = 0x30 then Some (0, cs)
          else if isDigit c then Some (decimalValue (takeWhile isDigit s), dropWhile isDigit s)
          else None)"

definition parseFraction :: "jsstring \<Rightarrow> (rat \<times> jsstring) option" where
  "parseFraction s =
     (case s of
        [] \<Rightarrow> Some (0, s)
      | c # cs \<Rightarrow>
          if c = 0x2E then
            (let ds = takeWhile isDigit cs
             in if ds = [] then None
                else Some (of_nat (decimalValue ds) / 10 ^ length ds, dropWhile isDigit cs))
          else Some (0, s))"

definition parseExponentDigits :: "bool \<Rightarrow> jsstring \<Rightarrow> (int \<times> jsstring) option" where
  "parseExponentDigits negative s =
     (let ds = takeWhile isDigit s
      in if ds = [] then None
         else Some ((if negative then - int (decimalValue ds) else int (decimalValue ds)),
                    dropWhile isDigit s))"

definition parseExponent :: "jsstring \<Rightarrow> (int \<times> jsstring) option" where
  "parseExponent s =
     (case s of
        [] \<Rightarrow> Some (0, s)
      | c # cs \<Rightarrow>
          if c = 0x65 \<or> c = 0x45 then
            (case cs of
               [] \<Rightarrow> None
             | d # ds \<Rightarrow>
                 if d = 0x2B then parseExponentDigits False ds
                 else if d = 0x2D then parseExponentDigits True ds
                 else parseExponentDigits False cs)
          else Some (0, s))"

definition parseUnsigned :: "jsstring \<Rightarrow> (rat \<times> jsstring) option" where
  "parseUnsigned s =
     (case parseIntegerPart s of
        None \<Rightarrow> None
      | Some (i, s1) \<Rightarrow>
          (case parseFraction s1 of
             None \<Rightarrow> None
           | Some (f, s2) \<Rightarrow>
               (case parseExponent s2 of
                  None \<Rightarrow> None
                | Some (e, s3) \<Rightarrow> Some ((of_nat i + f) * 10 powi e, s3))))"

definition parseNumber :: "jsstring \<Rightarrow> (rat \<times> jsstring) option" where
  "parseNumber s =
     (case s of
        [] \<Rightarrow> None
      | c # cs \<Rightarrow>
          if c = 0x2D then
            (case parseUnsigned cs of None \<Rightarrow> None | Some (r, rest) \<Rightarrow> Some (- r, rest))
          else parseUnsigned s)"

subsection \<open>Values\<close>

definition literal :: "string \<Rightarrow> json \<Rightarrow> jsstring \<Rightarrow> (json \<times> jsstring) option" where
  "literal w v s =
     (if take (length w) s = js w then Some (v, drop (length w) s) else None)"

text \<open>
  A property that is defined twice keeps its place and takes the later value.
\<close>

definition defineProperty :: "(jsstring \<times> json) list \<Rightarrow> jsstring \<times> json \<Rightarrow> (jsstring \<times> json) list" where
  "defineProperty obj kv =
     (if fst kv \<in> fst ` set obj
      then map (\<lambda>p. if fst p = fst kv then kv else p) obj
      else obj @ [kv])"

definition objectOf :: "(jsstring \<times> json) list \<Rightarrow> json" where
  "objectOf members = JObject (foldl defineProperty [] members)"

text \<open>
  The parser descends by recursion, which the model bounds by a counter: every
  call takes one unit. \<open>parseElements\<close> reads the elements of an array that is not
  empty, up to and including the closing bracket, \<open>parseMembers\<close> the members of an
  object likewise.
\<close>

fun parseValue :: "nat \<Rightarrow> jsstring \<Rightarrow> (json \<times> jsstring) option"
  and parseElements :: "nat \<Rightarrow> jsstring \<Rightarrow> (json list \<times> jsstring) option"
  and parseMembers :: "nat \<Rightarrow> jsstring \<Rightarrow> ((jsstring \<times> json) list \<times> jsstring) option" where
  "parseValue 0 s = None"
| "parseValue (Suc n) s =
     (case s of
        [] \<Rightarrow> None
      | c # cs \<Rightarrow>
          if c = 0x7B then
            (case skipWs cs of
               [] \<Rightarrow> None
             | d # ds \<Rightarrow>
                 if d = 0x7D then Some (JObject [], ds)
                 else
                   (case parseMembers n (d # ds) of
                      None \<Rightarrow> None
                    | Some (ms, rest) \<Rightarrow> Some (objectOf ms, rest)))
          else if c = 0x5B then
            (case skipWs cs of
               [] \<Rightarrow> None
             | d # ds \<Rightarrow>
                 if d = 0x5D then Some (JArray [], ds)
                 else
                   (case parseElements n (d # ds) of
                      None \<Rightarrow> None
                    | Some (vs, rest) \<Rightarrow> Some (JArray vs, rest)))
          else if c = DQUOTE then
            (case parseChars cs of
               None \<Rightarrow> None
             | Some (str, rest) \<Rightarrow> Some (JString str, rest))
          else if c = 0x74 then literal ''true'' (JBool True) s
          else if c = 0x66 then literal ''false'' (JBool False) s
          else if c = 0x6E then literal ''null'' JNull s
          else
            (case parseNumber s of
               None \<Rightarrow> None
             | Some (r, rest) \<Rightarrow> Some (JNumber r, rest)))"
| "parseElements 0 s = None"
| "parseElements (Suc n) s =
     (case parseValue n s of
        None \<Rightarrow> None
      | Some (v, rest) \<Rightarrow>
          (case skipWs rest of
             [] \<Rightarrow> None
           | c # cs \<Rightarrow>
               if c = 0x2C then
                 (case parseElements n (skipWs cs) of
                    None \<Rightarrow> None
                  | Some (vs, rest') \<Rightarrow> Some (v # vs, rest'))
               else if c = 0x5D then Some ([v], cs)
               else None))"
| "parseMembers 0 s = None"
| "parseMembers (Suc n) s =
     (case s of
        [] \<Rightarrow> None
      | q # cs \<Rightarrow>
          if q = DQUOTE then
            (case parseChars cs of
               None \<Rightarrow> None
             | Some (key, rest) \<Rightarrow>
                 (case skipWs rest of
                    [] \<Rightarrow> None
                  | colon # rest1 \<Rightarrow>
                      if colon = 0x3A then
                        (case parseValue n (skipWs rest1) of
                           None \<Rightarrow> None
                         | Some (v, rest2) \<Rightarrow>
                             (case skipWs rest2 of
                                [] \<Rightarrow> None
                              | c # rest3 \<Rightarrow>
                                  if c = 0x2C then
                                    (case parseMembers n (skipWs rest3) of
                                       None \<Rightarrow> None
                                     | Some (ms, rest') \<Rightarrow> Some ((key, v) # ms, rest'))
                                  else if c = 0x7D then Some ([(key, v)], rest3)
                                  else None))
                      else None))
          else None)"

text \<open>
  \<open>JSON.parse\<close> throws a SyntaxError (\<open>None\<close>) unless the text is one value
  between optional white space. The counter starts at the length of the text, which
  is enough for every text (\<open>JSON_parse_any_counter\<close> below).
\<close>

definition JSON_parse :: "jsstring \<Rightarrow> json option" where
  "JSON_parse text =
     (case parseValue (length text) (skipWs text) of
        None \<Rightarrow> None
      | Some (v, rest) \<Rightarrow> if skipWs rest = [] then Some v else None)"

section \<open>loadTasks\<close>

text \<open>
  \<open>getItem\<close> gives \<open>null\<close> for a key that is not stored; \<open>!saved\<close> holds for
  \<open>null\<close> and for the empty string. The \<open>catch\<close> clause takes whatever
  \<open>JSON.parse\<close> throws. What \<open>loadTasks\<close> returns is an array of parsed values,
  which nothing checks to be tasks.
\<close>

definition loadTasks :: "(jsstring \<rightharpoonup> jsstring) \<Rightarrow> json list" where
  "loadTasks storage =
     (case storage STORAGE_KEY of
        None \<Rightarrow> []
      | Some saved \<Rightarrow>
          if saved = [] then []
          else
            (case JSON_parse saved of
               None \<Rightarrow> []
             | Some parsed \<Rightarrow> (case parsed of JArray elements \<Rightarrow> elements | _ \<Rightarrow> [])))"

text \<open>
  The value \<open>JSON.parse\<close> builds from the text of a task: the object with the four
  properties of the record.
\<close>

definition task_json :: "task \<Rightarrow> json" where
  "task_json t =
     JObject
       [(js ''id'', JNumber (of_int (id_of t))),
        (js ''title'', JString (title t)),
        (js ''status'', JString (status t)),
        (js ''createdAt'', JString (createdAt t))]"

section \<open>Notions the properties are stated with\<close>

text \<open>
  Property access \<open>v.key\<close> on a parsed value, \<open>undefined\<close> being \<open>None\<close>.
\<close>

definition getProperty :: "json \<Rightarrow> string \<Rightarrow> json option" where
  "getProperty v key = (case v of JObject ps \<Rightarrow> map_of ps (js key) | _ \<Rightarrow> None)"

definition isArray :: "json \<Rightarrow> bool" where
  "isArray v = (case v of JArray elements \<Rightarrow> True | _ \<Rightarrow> False)"

text \<open>
  A parsed value has the shape of a Task record when it is an object whose \<open>id\<close>
  is a number and whose \<open>title\<close>, \<open>status\<close> and \<open>createdAt\<close> are strings.
\<close>

definition isTaskRecord :: "json \<Rightarrow> bool" where
  "isTaskRecord v =
     (case (getProperty v ''id'', getProperty v ''title'', getProperty v ''status'',
            getProperty v ''createdAt'') of
        (Some (JNumber n), Some (JString t), Some (JString s), Some (JString c)) \<Rightarrow> True
      | _ \<Rightarrow> False)"

text \<open>
  A task list is well formed when its ids are safe integers
  (\<open>Number.isSafeInteger\<close>), the range on which the integers of the model are the
  numbers of the script.
\<close>

definition wellFormed :: "task list \<Rightarrow> bool" where
  "wellFormed ts \<longleftrightarrow> (\<forall>t \<in> set ts. \<bar>id_of t\<bar> \<le> 2 ^ 53 - 1)"

text \<open>
  The text of a task list fits the storage of a page when \<open>setItem\<close> takes it.
\<close>

definition fits :: "app \<Rightarrow> task list \<Rightarrow> bool" where
  "fits st ts \<longleftrightarrow> length STORAGE_KEY + length (stringify_tasks ts) \<le> quota st"

text \<open>
  \<open>Number.isSafeInteger\<close> on an integer.
\<close>

definition safeInteger :: "int \<Rightarrow> bool" where
  "safeInteger i \<longleftrightarrow> \<bar>i\<bar> \<le> 2 ^ 53 - 1"

definition storedAs :: "jsstring \<Rightarrow> (jsstring \<rightharpoonup> jsstring)" where
  "storedAs saved = Map.empty(STORAGE_KEY \<mapsto> saved)"

text \<open>
  The rows of the table body that show a task: all but the placeholder.
\<close>

definition taskRows :: "jsstring list \<Rightarrow> jsstring list" where
  "taskRows rows = filter (\<lambda>row. row \<noteq> emptyRow) rows"

text \<open>
  How the content of a table cell is read back from markup. The reader knows the
  four character references and the one tag the serialiser writes; any other \<open><\<close>
  or \<open>&\<close> is the start of something the parser would interpret, and is read as
  \<open>Markup\<close>.
\<close>

datatype item = Character jschar | LineBreak | Markup

definition startsWith :: "string \<Rightarrow> jsstring \<Rightarrow> bool" where
  "startsWith w s \<longleftrightarrow> take (length w) s = js w"

function readHtml :: "jsstring \<Rightarrow> item list" where
  "readHtml [] = []"
| "readHtml (c # cs) =
     (if c = 0x3C then
        (if startsWith ''br>'' cs then LineBreak # readHtml (drop 3 cs)
         else Markup # readHtml cs)
      else if c = 0x26 then
        (if startsWith ''amp;'' cs then Character 0x26 # readHtml (drop 4 cs)
         else if startsWith ''nbsp;'' cs then Character 0xA0 # readHtml (drop 5 cs)
         else if startsWith ''lt;'' cs then Character 0x3C # readHtml (drop 3 cs)
         else if startsWith ''gt;'' cs then Character 0x3E # readHtml (drop 3 cs)
         else Markup # readHtml cs)
      else Character c # readHtml cs)"
  by pat_completeness auto
termination
  by (relation "measure length") auto

fun nodeItems :: "node \<Rightarrow> item list" where
  "nodeItems (Text s) = map Character s"
| "nodeItems Br = [LineBreak]"

text \<open>
  The characters the JSON text of a string writes as a two-character escape; a
  number ends where no digit, point or exponent mark follows.
\<close>

definition twoCharEscaped :: "jschar \<Rightarrow> bool" where
  "twoCharEscaped c \<longleftrightarrow>
     c = 0x08 \<or> c = 0x09 \<or> c = 0x0A \<or> c = 0x0C \<or> c = 0x0D \<or> c = DQUOTE \<or> c = BACKSLASH"

definition endsNumber :: "jsstring \<Rightarrow> bool" where
  "endsNumber rest \<longleftrightarrow>
     (case rest of [] \<Rightarrow> True
      | c # cs \<Rightarrow> \<not> isDigit c \<and> c \<noteq> 0x2E \<and> c \<noteq> 0x65 \<and> c \<noteq> 0x45)"

text \<open>
  The task \<open>addTask\<close> builds from the page and the clock, the effects that are
  calls of \<open>fetch\<close>, and the effects that are submissions of a form.
\<close>

definition newTaskOf :: "clock \<Rightarrow> app \<Rightarrow> task" where
  "newTaskOf date st =
     \<lparr>id_of = now date, title = trim (taskTitleInput st), status = taskStatusSelect st,
      createdAt = toLocaleString date\<rparr>"

fun isFetch :: "effect \<Rightarrow> bool" where
  "isFetch (Fetch r) = True"
| "isFetch e = False"

fun isSubmit :: "effect \<Rightarrow> bool" where
  "isSubmit (Submit f) = True"
| "isSubmit e = False"

text \<open>
  A parser with a counter consumes at \<open>n\<close> when every result it gives with the
  counter at \<open>n\<close> leaves less input than it was given, and is the result it gives
  with any counter that is at least the number of characters read.
\<close>

definition consumes :: "(nat \<Rightarrow> jsstring \<Rightarrow> ('a \<times> jsstring) option) \<Rightarrow> nat \<Rightarrow> bool" where
  "consumes p n \<longleftrightarrow>
     (\<forall>s x r. p n s = Some (x, r) \<longrightarrow>
        length r < length s \<and> (\<forall>m \<ge> length s - length r. p m s = Some (x, r)))"

subsection \<open>Example data\<close>

definition milk :: task where
  "milk = \<lparr>id_of = 1700000000000, title = js ''Buy milk'', status = js ''pending'',
           createdAt = js ''11/14/2023, 10:13:20 PM''\<rparr>"

definition bread :: task where
  "bread = \<lparr>id_of = 1700000000001, title = js ''Bread'', status = js ''done'',
            createdAt = js ''11/14/2023, 10:13:21 PM''\<rparr>"

definition emptyPage :: app where
  "emptyPage = \<lparr>tasks = [], localStorage = Map.empty, taskTitleInput = [],
             taskStatusSelect = js ''pending'', taskTableBody = [],
             saveMessage = \<lparr>textContent = [], classList = {}\<rparr>, timers = [], effects = [],
             quota = 5000000, forms = [], formTimers = []\<rparr>"

definition feast :: task where
  "feast = \<lparr>id_of = 1700000000002, title = js ''Buy everything for the feast'',
            status = js ''pending'', createdAt = js ''11/14/2023, 10:13:22 PM''\<rparr>"

definition sampleClock :: clock where
  "sampleClock = \<lparr>now = 1700000000000, toLocaleString = js ''11/14/2023, 10:13:20 PM''\<rparr>"

definition feastClock :: clock where
  "feastClock = \<lparr>now = 1700000000002, toLocaleString = js ''11/14/2023, 10:13:22 PM''\<rparr>"

text \<open>
  A page whose storage has room for the text of \<open>milk\<close> alone: \<open>smallPage\<close>
  before anything is added, \<open>milkPage\<close> after \<open>Buy milk\<close> was added, \<open>fullPage\<close>
  after a second title was typed and added.
\<close>

definition smallPage :: app where
  "smallPage =
     emptyPage\<lparr>taskTitleInput := js ''Buy milk'',
               quota := length STORAGE_KEY + length (stringify_tasks [milk])\<rparr>"

definition milkPage :: app where
  "milkPage = snd (addTask sampleClock smallPage)"

definition fullPage :: app where
  "fullPage =
     snd (addTask feastClock (milkPage\<lparr>taskTitleInput := js ''Buy everything for the feast''\<rparr>))"

section \<open>The JSON text of a task list parses back\<close>

subsection \<open>Escapes of four hexadecimal digits\<close>

lemma unat_of_nat16: "n < 65536 \<Longrightarrow> unat (of_nat n :: jschar) = n"
  by (simp add: unat_of_nat)

lemma unat_hexDigit: "d < 16 \<Longrightarrow> unat (hexDigit d) = (if d < 10 then 48 + d else 87 + d)"
proof (cases "d < 10")
  case True
  have "unat (of_nat (48 + d) :: jschar) = 48 + d"
    by (rule unat_of_nat16) (use True in arith)
  with True show ?thesis by (simp only: hexDigit_def if_True)
next
  case False
  assume "d < 16"
  then have "unat (of_nat (87 + d) :: jschar) = 87 + d"
    by (intro unat_of_nat16) arith
  with False show ?thesis by (simp only: hexDigit_def if_False)
qed

lemma hexValue_hexDigit: "d < 16 \<Longrightarrow> hexValue (hexDigit d) = Some d"
  by (simp add: hexValue_def word_le_nat_alt unat_hexDigit)

lemma hex_recompose:
  fixes a :: nat
  shows "((a div 4096 * 16 + a div 256 mod 16) * 16 + a div 16 mod 16) * 16 + a mod 16 = a"
proof -
  have a: "a div 4096 = a div 256 div 16" by (simp add: div_mult2_eq [symmetric])
  have b: "a div 256 = a div 16 div 16" by (simp add: div_mult2_eq [symmetric])
  have 1: "a div 4096 * 16 + a div 256 mod 16 = a div 256"
    unfolding a by (rule div_mult_mod_eq)
  have 2: "a div 256 * 16 + a div 16 mod 16 = a div 16"
    unfolding b by (rule div_mult_mod_eq)
  show ?thesis unfolding 1 2 by (rule div_mult_mod_eq)
qed

lemma parse_UnicodeEscape:
  "hex4 (hexDigit (unat c div 4096)) (hexDigit (unat c div 256 mod 16))
        (hexDigit (unat c div 16 mod 16)) (hexDigit (unat c mod 16)) = Some (c::jschar)"
proof -
  have "unat c < 65536" using unsigned_less [of c] by simp
  then have h1: "hexValue (hexDigit (unat c div 4096)) = Some (unat c div 4096)"
    by (intro hexValue_hexDigit) simp
  have h2: "hexValue (hexDigit (unat c div 256 mod 16)) = Some (unat c div 256 mod 16)"
    by (intro hexValue_hexDigit) simp
  have h3: "hexValue (hexDigit (unat c div 16 mod 16)) = Some (unat c div 16 mod 16)"
    by (intro hexValue_hexDigit) simp
  have h4: "hexValue (hexDigit (unat c mod 16)) = Some (unat c mod 16)"
    by (intro hexValue_hexDigit) simp
  have "hex4 (hexDigit (unat c div 4096)) (hexDigit (unat c div 256 mod 16))
        (hexDigit (unat c div 16 mod 16)) (hexDigit (unat c mod 16))
      = Some (of_nat (((unat c div 4096 * 16 + unat c div 256 mod 16) * 16
                + unat c div 16 mod 16) * 16 + unat c mod 16))"
    by (simp only: hex4_def h1 h2 h3 h4 option.case prod.case)
  also have "\<dots> = Some (of_nat (unat c))"
    by (simp only: hex_recompose)
  finally show ?thesis by simp
qed

lemma parseChars_plain:
  "c \<noteq> DQUOTE \<Longrightarrow> c \<noteq> BACKSLASH \<Longrightarrow> \<not> c < 0x20 \<Longrightarrow>
   parseChars (c # t) = consChar c (parseChars t)"
  by simp

lemma parseChars_escape:
  "singleEscape e = Some u \<Longrightarrow> e \<noteq> 0x75 \<Longrightarrow>
   parseChars (BACKSLASH # e # t) = consChar u (parseChars t)"
  by (simp add: BACKSLASH_def DQUOTE_def)

lemma parseChars_UnicodeEscape:
  "parseChars (UnicodeEscape c @ t) = consChar c (parseChars t)"
  by (simp add: UnicodeEscape_def parse_UnicodeEscape BACKSLASH_def DQUOTE_def)

lemma surrogate_plain:
  "isLeadingSurrogate c \<or> isTrailingSurrogate c \<Longrightarrow>
   c \<noteq> DQUOTE \<and> c \<noteq> BACKSLASH \<and> \<not> c < 0x20"
  by (auto simp: isLeadingSurrogate_def isTrailingSurrogate_def DQUOTE_def BACKSLASH_def
      word_le_nat_alt word_less_nat_alt)

lemma quoteChars_two:
  "twoCharEscaped c \<Longrightarrow>
   \<exists>e. quoteChars (c # cs) = BACKSLASH # e # quoteChars cs \<and> singleEscape e = Some c \<and> e \<noteq> 0x75"
  by (auto simp: twoCharEscaped_def singleEscape_def DQUOTE_def BACKSLASH_def)

lemma quoteChars_control:
  "\<not> twoCharEscaped c \<Longrightarrow> c < 0x20 \<Longrightarrow>
   quoteChars (c # cs) = UnicodeEscape c @ quoteChars cs"
  by (simp add: twoCharEscaped_def)

lemma surrogate_not_control:
  "isLeadingSurrogate c \<or> isTrailingSurrogate c \<Longrightarrow> \<not> twoCharEscaped c \<and> \<not> c < 0x20"
  by (auto simp: isLeadingSurrogate_def isTrailingSurrogate_def twoCharEscaped_def
      DQUOTE_def BACKSLASH_def word_le_nat_alt word_less_nat_alt)

lemma quoteChars_lone:
  assumes "isLeadingSurrogate c \<or> isTrailingSurrogate c"
    and "isLeadingSurrogate c \<Longrightarrow> cs \<noteq> [] \<Longrightarrow> \<not> isTrailingSurrogate (hd cs)"
  shows "quoteChars (c # cs) = UnicodeEscape c @ quoteChars cs"
  using assms surrogate_not_control [of c]
  by (cases cs) (auto simp: twoCharEscaped_def)

lemma quoteChars_pair:
  "isLeadingSurrogate c \<Longrightarrow> isTrailingSurrogate d \<Longrightarrow>
   quoteChars (c # d # ds) = c # d # quoteChars ds"
  using surrogate_not_control [of c] by (simp add: twoCharEscaped_def)

lemma quoteChars_plain:
  "\<not> twoCharEscaped c \<Longrightarrow> \<not> c < 0x20 \<Longrightarrow> \<not> isLeadingSurrogate c \<Longrightarrow>
   \<not> isTrailingSurrogate c \<Longrightarrow> quoteChars (c # cs) = c # quoteChars cs"
  by (simp add: twoCharEscaped_def)

lemma parseChars_quoteChars:
  "parseChars (quoteChars s @ DQUOTE # rest) = Some (s, rest)"
proof (induction s rule: length_induct)
  case (1 s)
  show ?case
  proof (cases s)
    case Nil
    then show ?thesis by simp
  next
    case (Cons c cs)
    have IH: "parseChars (quoteChars cs @ DQUOTE # rest) = Some (cs, rest)"
      using 1 Cons by simp
    consider (two) "twoCharEscaped c"
      | (control) "\<not> twoCharEscaped c" "c < 0x20"
      | (pair) d ds where "isLeadingSurrogate c" "cs = d # ds" "isTrailingSurrogate d"
      | (lone) "isLeadingSurrogate c \<or> isTrailingSurrogate c"
          "isLeadingSurrogate c \<Longrightarrow> cs \<noteq> [] \<Longrightarrow> \<not> isTrailingSurrogate (hd cs)"
      | (plain) "\<not> twoCharEscaped c" "\<not> c < 0x20" "\<not> isLeadingSurrogate c"
          "\<not> isTrailingSurrogate c"
      by (cases cs) auto
    then show ?thesis
    proof cases
      case two
      then obtain e where e: "quoteChars (c # cs) = BACKSLASH # e # quoteChars cs"
        "singleEscape e = Some c" "e \<noteq> 0x75"
        using quoteChars_two by blast
      show ?thesis
        unfolding Cons e(1)
        using parseChars_escape [OF e(2,3), of "quoteChars cs @ DQUOTE # rest"] IH
        by (simp del: parseChars.simps add: consChar_def)
    next
      case control
      show ?thesis
        unfolding Cons quoteChars_control [OF control]
        using IH by (simp del: parseChars.simps add: parseChars_UnicodeEscape consChar_def)
    next
      case pair
      have "parseChars (quoteChars ds @ DQUOTE # rest) = Some (ds, rest)"
        using 1 Cons pair by simp
      then show ?thesis
        unfolding Cons pair(2) quoteChars_pair [OF pair(1,3)]
        using surrogate_plain [of c] surrogate_plain [of d] pair
        by (simp del: parseChars.simps add: parseChars_plain consChar_def)
    next
      case lone
      have q: "quoteChars (c # cs) = UnicodeEscape c @ quoteChars cs"
        by (rule quoteChars_lone) (use lone in blast)+
      show ?thesis
        unfolding Cons q
        using IH by (simp del: parseChars.simps add: parseChars_UnicodeEscape consChar_def)
    next
      case plain
      then have "c \<noteq> DQUOTE" "c \<noteq> BACKSLASH"
        by (auto simp: twoCharEscaped_def)
      then show ?thesis
        unfolding Cons quoteChars_plain [OF plain]
        using IH plain by (simp del: parseChars.simps add: parseChars_plain consChar_def)
    qed
  qed
qed

lemma unat_digit: "d < 10 \<Longrightarrow> unat (digitChar d) = 48 + d"
  unfolding digitChar_def by (rule unat_of_nat16) arith

lemma isDigit_digit: "d < 10 \<Longrightarrow> isDigit (digitChar d)"
  by (simp add: isDigit_def word_le_nat_alt unat_digit)

lemma digits_not_Nil: "digits n \<noteq> []"
  by (subst digits.simps) simp

lemma digits_isDigit: "c \<in> set (digits n) \<Longrightarrow> isDigit c"
proof (induction n arbitrary: c rule: digits.induct)
  case (1 n)
  show ?case
  proof (cases "n < 10")
    case True
    with 1(2) have "c = digitChar n" by (subst (asm) digits.simps) simp
    with True show ?thesis by (simp add: isDigit_digit)
  next
    case False
    with 1(2) have "c \<in> set (digits (n div 10)) \<or> c = digitChar (n mod 10)"
      by (subst (asm) digits.simps) auto
    then show ?thesis
    proof
      assume "c \<in> set (digits (n div 10))"
      with 1(1) False show ?thesis by blast
    next
      assume c: "c = digitChar (n mod 10)"
      have "n mod 10 < 10" by simp
      then show ?thesis unfolding c by (rule isDigit_digit)
    qed
  qed
qed

lemma decimalValue_snoc:
  "decimalValue (ds @ [c]) = 10 * decimalValue ds + (unat c - 48)"
  by (simp add: decimalValue_def)

lemma decimalValue_digits: "decimalValue (digits n) = n"
proof (induction n rule: digits.induct)
  case (1 n)
  show ?case
  proof (cases "n < 10")
    case True
    then have "digits n = [digitChar n]" by (subst digits.simps) simp
    then show ?thesis using True by (simp add: decimalValue_def unat_digit)
  next
    case False
    then have d: "digits n = digits (n div 10) @ [digitChar (n mod 10)]"
      by (subst digits.simps) simp
    have m: "n mod 10 < 10" by simp
    show ?thesis
      unfolding d decimalValue_snoc using 1 False by (simp add: unat_digit [OF m])
  qed
qed

lemma hd_digits: "0 < n \<Longrightarrow> hd (digits n) \<noteq> 0x30"
proof (induction n rule: digits.induct)
  case (1 n)
  show ?case
  proof (cases "n < 10")
    case True
    then have "digits n = [digitChar n]" by (subst digits.simps) simp
    moreover have "unat (digitChar n) \<noteq> unat (0x30 :: jschar)"
      using True 1(2) by (simp add: unat_digit)
    ultimately show ?thesis by auto
  next
    case False
    then have d: "digits n = digits (n div 10) @ [digitChar (n mod 10)]"
      by (subst digits.simps) simp
    from False have "0 < n div 10" by simp
    with 1(1) False have "hd (digits (n div 10)) \<noteq> 0x30" by blast
    then show ?thesis unfolding d using digits_not_Nil [of "n div 10"] by simp
  qed
qed

lemma takeWhile_digits:
  "endsNumber rest \<Longrightarrow> takeWhile isDigit (digits n @ rest) = digits n"
  by (cases rest) (auto simp: endsNumber_def digits_isDigit)

lemma dropWhile_digits:
  "endsNumber rest \<Longrightarrow> dropWhile isDigit (digits n @ rest) = rest"
  by (cases rest) (auto simp: endsNumber_def digits_isDigit)

lemma parseIntegerPart_digits:
  assumes "endsNumber rest"
  shows "parseIntegerPart (digits n @ rest) = Some (n, rest)"
proof (cases "n = 0")
  case True
  have "digits 0 = [0x30]" by (subst digits.simps) (simp add: digitChar_def)
  with True show ?thesis by (simp add: parseIntegerPart_def)
next
  case False
  obtain c cs where c: "digits n = c # cs"
    using digits_not_Nil [of n] by (cases "digits n") auto
  have "c \<noteq> 0x30" using hd_digits [of n] False c by simp
  moreover have "isDigit c" using digits_isDigit [of c n] c by simp
  moreover have "takeWhile isDigit (c # cs @ rest) = digits n"
    using takeWhile_digits [OF assms, of n] c by simp
  moreover have "dropWhile isDigit (c # cs @ rest) = rest"
    using dropWhile_digits [OF assms, of n] c by simp
  moreover have "decimalValue (c # cs) = n"
    using decimalValue_digits [of n] c by simp
  ultimately show ?thesis
    unfolding c parseIntegerPart_def by simp
qed

lemma parseUnsigned_digits:
  assumes "endsNumber rest"
  shows "parseUnsigned (digits n @ rest) = Some (of_nat n, rest)"
proof -
  have f: "parseFraction rest = Some (0, rest)"
    using assms by (cases rest) (auto simp: parseFraction_def endsNumber_def)
  have e: "parseExponent rest = Some (0, rest)"
    using assms by (cases rest) (auto simp: parseExponent_def endsNumber_def)
  show ?thesis
    by (simp add: parseUnsigned_def parseIntegerPart_digits [OF assms] f e)
qed

lemma digits_not_minus: "hd (digits n) \<noteq> 0x2D"
proof -
  obtain c cs where c: "digits n = c # cs"
    using digits_not_Nil [of n] by (cases "digits n") auto
  then have "isDigit c" using digits_isDigit [of c n] by simp
  then have "c \<noteq> 0x2D" by (auto simp: isDigit_def)
  then show ?thesis using c by simp
qed

lemma parseNumber_toString:
  assumes "endsNumber rest"
  shows "parseNumber (Number_toString i @ rest) = Some (of_int i, rest)"
proof (cases "i < 0")
  case True
  then have "(of_nat (nat (- i)) :: rat) = - of_int i" by simp
  then show ?thesis
    using True unfolding Number_toString_def parseNumber_def
    by (simp add: parseUnsigned_digits [OF assms])
next
  case False
  obtain c cs where c: "digits (nat i) = c # cs"
    using digits_not_Nil [of "nat i"] by (cases "digits (nat i)") auto
  have "c \<noteq> 0x2D" using digits_not_minus [of "nat i"] c by simp
  moreover have "parseUnsigned (c # cs @ rest) = Some (of_int i, rest)"
    using parseUnsigned_digits [OF assms, of "nat i"] False c by simp
  ultimately show ?thesis
    using False unfolding Number_toString_def parseNumber_def by (simp add: c)
qed

lemma skipWs_Cons: "\<not> isJSONWhiteSpace c \<Longrightarrow> skipWs (c # cs) = c # cs"
  by (simp add: skipWs_def)

lemma parseValue_string:
  "parseValue (Suc n) (QuoteJSONString s @ rest) = Some (JString s, rest)"
  by (simp add: QuoteJSONString_def parseChars_quoteChars) (simp add: DQUOTE_def)

lemma Number_toString_Cons:
  "\<exists>c cs. Number_toString i = c # cs \<and> (c = 0x2D \<or> isDigit c)"
proof (cases "i < 0")
  case True
  then show ?thesis by (simp add: Number_toString_def)
next
  case False
  obtain c cs where c: "digits (nat i) = c # cs"
    using digits_not_Nil [of "nat i"] by (cases "digits (nat i)") auto
  then have "isDigit c" using digits_isDigit [of c "nat i"] by simp
  with c False show ?thesis by (simp add: Number_toString_def)
qed

lemma numberStart:
  "c = 0x2D \<or> isDigit c \<Longrightarrow>
   c \<noteq> 0x7B \<and> c \<noteq> 0x5B \<and> c \<noteq> DQUOTE \<and> c \<noteq> 0x74 \<and> c \<noteq> 0x66 \<and> c \<noteq> 0x6E \<and>
   \<not> isJSONWhiteSpace c"
  by (auto simp: isDigit_def DQUOTE_def isJSONWhiteSpace_def word_le_nat_alt)

lemma parseValue_number:
  assumes "endsNumber rest"
  shows "parseValue (Suc n) (Number_toString i @ rest) = Some (JNumber (of_int i), rest)"
proof -
  obtain c cs where c: "Number_toString i = c # cs" "c = 0x2D \<or> isDigit c"
    using Number_toString_Cons by blast
  have "parseNumber (c # cs @ rest) = Some (of_int i, rest)"
    using parseNumber_toString [OF assms, of i] c(1) by simp
  then show ?thesis
    unfolding c(1) using numberStart [OF c(2)] by simp
qed

lemma JSON_member_Cons:
  "JSON_member k v @ r = DQUOTE # quoteChars (js k) @ DQUOTE # 0x3A # v @ r"
  by (simp add: JSON_member_def QuoteJSONString_def)

lemma skipWs_member: "skipWs (JSON_member k v @ r) = JSON_member k v @ r"
  unfolding JSON_member_Cons by (rule skipWs_Cons) (simp add: isJSONWhiteSpace_def DQUOTE_def)

lemma parseMembers_more:
  assumes v: "parseValue n (v @ 0x2C # rs) = Some (x, 0x2C # rs)"
    and ws: "skipWs (v @ 0x2C # rs) = v @ 0x2C # rs"
  shows "parseMembers (Suc n) (JSON_member k v @ 0x2C # rs) =
         (case parseMembers n (skipWs rs) of
            None \<Rightarrow> None
          | Some (ms, r) \<Rightarrow> Some ((js k, x) # ms, r))"
proof -
  have colon: "skipWs (0x3A # v @ 0x2C # rs) = 0x3A # v @ 0x2C # rs"
    by (rule skipWs_Cons) (simp add: isJSONWhiteSpace_def)
  have comma: "skipWs (0x2C # rs) = 0x2C # rs"
    by (rule skipWs_Cons) (simp add: isJSONWhiteSpace_def)
  show ?thesis
    unfolding JSON_member_Cons
    by (simp add: parseChars_quoteChars colon comma v ws)
qed

lemma parseMembers_last:
  assumes v: "parseValue n (v @ 0x7D # rs) = Some (x, 0x7D # rs)"
    and ws: "skipWs (v @ 0x7D # rs) = v @ 0x7D # rs"
  shows "parseMembers (Suc n) (JSON_member k v @ 0x7D # rs) = Some ([(js k, x)], rs)"
proof -
  have colon: "skipWs (0x3A # v @ 0x7D # rs) = 0x3A # v @ 0x7D # rs"
    by (rule skipWs_Cons) (simp add: isJSONWhiteSpace_def)
  have brace: "skipWs (0x7D # rs) = 0x7D # rs"
    by (rule skipWs_Cons) (simp add: isJSONWhiteSpace_def)
  show ?thesis
    unfolding JSON_member_Cons
    by (simp add: parseChars_quoteChars colon brace v ws)
qed

lemma skipWs_string: "skipWs (QuoteJSONString s @ r) = QuoteJSONString s @ r"
  unfolding QuoteJSONString_def append_Cons append_Nil
  by (rule skipWs_Cons) (simp add: isJSONWhiteSpace_def DQUOTE_def)

lemma skipWs_number: "skipWs (Number_toString i @ r) = Number_toString i @ r"
proof -
  obtain c cs where c: "Number_toString i = c # cs" "c = 0x2D \<or> isDigit c"
    using Number_toString_Cons by blast
  show ?thesis unfolding c(1) append_Cons
    by (rule skipWs_Cons) (use numberStart [OF c(2)] in simp)
qed

lemma endsNumber_comma: "endsNumber (0x2C # rs)"
  by (simp add: endsNumber_def isDigit_def)

lemma objectOf_task:
  "objectOf [(js ''id'', a), (js ''title'', b), (js ''status'', c), (js ''createdAt'', d)] =
   JObject [(js ''id'', a), (js ''title'', b), (js ''status'', c), (js ''createdAt'', d)]"
  by (simp add: objectOf_def defineProperty_def js_def)

lemma stringify_task_Cons:
  "stringify_task t @ rest =
   0x7B # JSON_member ''id'' (Number_toString (id_of t)) @
   0x2C # JSON_member ''title'' (QuoteJSONString (title t)) @
   0x2C # JSON_member ''status'' (QuoteJSONString (status t)) @
   0x2C # JSON_member ''createdAt'' (QuoteJSONString (createdAt t)) @ 0x7D # rest"
  by (simp add: stringify_task_def JSON_object_def)

lemma parseMembers_task:
  "parseMembers (Suc (Suc (Suc (Suc (Suc n)))))
     (JSON_member ''id'' (Number_toString (id_of t)) @
      0x2C # JSON_member ''title'' (QuoteJSONString (title t)) @
      0x2C # JSON_member ''status'' (QuoteJSONString (status t)) @
      0x2C # JSON_member ''createdAt'' (QuoteJSONString (createdAt t)) @ 0x7D # rest) =
   Some ([(js ''id'', JNumber (of_int (id_of t))), (js ''title'', JString (title t)),
          (js ''status'', JString (status t)), (js ''createdAt'', JString (createdAt t))], rest)"
proof -
  have m4: "parseMembers (Suc (Suc n))
      (JSON_member ''createdAt'' (QuoteJSONString (createdAt t)) @ 0x7D # rest) =
      Some ([(js ''createdAt'', JString (createdAt t))], rest)"
    by (rule parseMembers_last) (rule parseValue_string skipWs_string)+
  have m3: "parseMembers (Suc (Suc (Suc n)))
      (JSON_member ''status'' (QuoteJSONString (status t)) @
       0x2C # JSON_member ''createdAt'' (QuoteJSONString (createdAt t)) @ 0x7D # rest) =
      Some ([(js ''status'', JString (status t)), (js ''createdAt'', JString (createdAt t))], rest)"
    by (subst parseMembers_more, rule parseValue_string, rule skipWs_string)
       (simp only: skipWs_member m4 option.case prod.case)
  have m2: "parseMembers (Suc (Suc (Suc (Suc n))))
      (JSON_member ''title'' (QuoteJSONString (title t)) @
       0x2C # JSON_member ''status'' (QuoteJSONString (status t)) @
       0x2C # JSON_member ''createdAt'' (QuoteJSONString (createdAt t)) @ 0x7D # rest) =
      Some ([(js ''title'', JString (title t)), (js ''status'', JString (status t)),
             (js ''createdAt'', JString (createdAt t))], rest)"
    by (subst parseMembers_more, rule parseValue_string, rule skipWs_string)
       (simp only: skipWs_member m3 option.case prod.case)
  show ?thesis
    by (subst parseMembers_more, rule parseValue_number, rule endsNumber_comma,
        rule skipWs_number)
       (simp only: skipWs_member m2 option.case prod.case)
qed

lemma parseValue_object:
  "parseValue (Suc n) (0x7B # JSON_member k v @ r) =
   (case parseMembers n (JSON_member k v @ r) of
      None \<Rightarrow> None
    | Some (ms, rest) \<Rightarrow> Some (objectOf ms, rest))"
proof -
  obtain X where X: "JSON_member k v @ r = DQUOTE # X"
    using JSON_member_Cons by blast
  have "skipWs (DQUOTE # X) = DQUOTE # X"
    using skipWs_member [of k v r] X by simp
  then show ?thesis
    unfolding X by (simp add: DQUOTE_def del: parseMembers.simps)
qed

lemma parseValue_task:
  "parseValue (Suc (Suc (Suc (Suc (Suc (Suc n)))))) (stringify_task t @ rest) =
   Some (task_json t, rest)"
  unfolding stringify_task_Cons parseValue_object parseMembers_task
  by (simp add: objectOf_task task_json_def)

lemma commaSep_Cons: "xs \<noteq> [] \<Longrightarrow> commaSep (x # xs) = x @ 0x2C # commaSep xs"
  by (cases xs) simp_all

lemma stringify_task_open: "\<exists>X. stringify_task t @ r = 0x7B # X"
  by (simp add: stringify_task_def JSON_object_def)

lemma commaSep_tasks_open:
  "ts \<noteq> [] \<Longrightarrow> \<exists>X. commaSep (map stringify_task ts) @ r = 0x7B # X"
proof (cases ts)
  case Nil
  moreover assume "ts \<noteq> []"
  ultimately show ?thesis by simp
next
  case (Cons t us)
  show ?thesis
  proof (cases us)
    case Nil
    with Cons show ?thesis using stringify_task_open [of t r] by simp
  next
    case (Cons u vs)
    with \<open>ts = t # us\<close> show ?thesis
      using stringify_task_open [of t "0x2C # commaSep (map stringify_task us) @ r"]
      by simp
  qed
qed

lemma skipWs_tasks:
  assumes "ts \<noteq> []"
  shows "skipWs (commaSep (map stringify_task ts) @ r) = commaSep (map stringify_task ts) @ r"
proof -
  obtain X where X: "commaSep (map stringify_task ts) @ r = 0x7B # X"
    using commaSep_tasks_open [OF assms] by blast
  show ?thesis unfolding X by (rule skipWs_Cons) (simp add: isJSONWhiteSpace_def)
qed

lemma parseElements_tasks:
  "ts \<noteq> [] \<Longrightarrow>
   parseElements (Suc (Suc (Suc (Suc (Suc (Suc (length ts + n)))))))
     (commaSep (map stringify_task ts) @ 0x5D # rest) = Some (map task_json ts, rest)"
proof (induction ts rule: list_nonempty_induct)
  case (single t)
  have "skipWs (0x5D # rest) = 0x5D # rest"
    by (rule skipWs_Cons) (simp add: isJSONWhiteSpace_def)
  then show ?case
    by (simp add: parseValue_task del: parseValue.simps)
next
  case (cons t ts)
  have sep: "skipWs (0x2C # commaSep (map stringify_task ts) @ 0x5D # rest) =
             0x2C # commaSep (map stringify_task ts) @ 0x5D # rest"
    by (rule skipWs_Cons) (simp add: isJSONWhiteSpace_def)
  have c: "commaSep (map stringify_task (t # ts)) =
           stringify_task t @ 0x2C # commaSep (map stringify_task ts)"
    using cons(1) by (simp add: commaSep_Cons)
  show ?case
    unfolding c
    using cons(2)
    by (simp add: parseValue_task sep skipWs_tasks [OF cons(1)]
        del: parseValue.simps parseElements.simps(2))
       (simp add: parseValue_task sep skipWs_tasks [OF cons(1)] del: parseValue.simps)
qed

lemma length_commaSep: "sum_list (map length xs) \<le> length (commaSep xs)"
  by (induction xs rule: commaSep.induct) simp_all

lemma length_stringify_task: "7 \<le> length (stringify_task t)"
  by (simp add: stringify_task_def JSON_object_def JSON_member_def QuoteJSONString_def)

lemma length_tasks: "7 * length ts \<le> length (commaSep (map stringify_task ts))"
proof -
  have "7 * length ts \<le> sum_list (map length (map stringify_task ts))"
    by (induction ts) (simp_all add: length_stringify_task add_mono)
  then show ?thesis
    using length_commaSep [of "map stringify_task ts"] by linarith
qed

lemma JSON_parse_stringify_tasks:
  "JSON_parse (stringify_tasks ts) = Some (JArray (map task_json ts))"
proof (cases "ts = []")
  case True
  have "skipWs [0x5D] = [0x5D :: jschar]"
    by (rule skipWs_Cons) (simp add: isJSONWhiteSpace_def)
  then show ?thesis
    using True
    by (simp add: JSON_parse_def stringify_tasks_def JSON_array_def skipWs_def
        isJSONWhiteSpace_def)
next
  case False
  define saved where "saved = stringify_tasks ts"
  have saved: "saved = 0x5B # commaSep (map stringify_task ts) @ [0x5D]"
    by (simp add: saved_def stringify_tasks_def JSON_array_def)
  have "length ts + 7 \<le> length saved"
    using length_tasks [of ts] False unfolding saved by (cases ts) simp_all
  then obtain n where "length saved = length ts + 7 + n"
    using le_Suc_ex by blast
  then have n: "length saved = Suc (Suc (Suc (Suc (Suc (Suc (Suc (length ts + n)))))))"
    by simp
  have ws: "skipWs saved = saved"
    unfolding saved by (rule skipWs_Cons) (simp add: isJSONWhiteSpace_def)
  obtain X where X: "commaSep (map stringify_task ts) @ [0x5D] = 0x7B # X"
    using commaSep_tasks_open [OF False] by blast
  have inner: "skipWs (commaSep (map stringify_task ts) @ [0x5D]) = 0x7B # X"
    using skipWs_tasks [OF False, of "[0x5D]"] X by simp
  have "parseElements (Suc (Suc (Suc (Suc (Suc (Suc (length ts + n))))))) (0x7B # X) =
        Some (map task_json ts, [])"
    using parseElements_tasks [OF False, of n "[]"] X by simp
  then have "parseValue (length saved) saved = Some (JArray (map task_json ts), [])"
    unfolding n unfolding saved
    by (simp add: inner del: parseElements.simps)
  then show ?thesis
    unfolding saved_def [symmetric] JSON_parse_def ws by (simp add: skipWs_def)
qed

section \<open>The counter of the parser does not show\<close>

text \<open>
  Whatever a parser returns, it returns with every counter that is at least the
  number of characters it has read. The length of the text is such a counter, so
  \<open>JSON_parse\<close> gives a value exactly when the descent gives it at some depth:
  \<open>None\<close> always stands for a SyntaxError, never for a counter that ran out.
\<close>

lemma skipWs_length: "length (skipWs s) \<le> length s"
  by (simp add: skipWs_def length_dropWhile_le)

lemma consChar_Some:
  "consChar c x = Some (str, r) \<Longrightarrow> \<exists>str'. x = Some (str', r) \<and> str = c # str'"
  by (cases x) (auto simp: consChar_def)

lemma parseChars_length: "parseChars s = Some (str, r) \<Longrightarrow> length r < length s"
proof (induction s arbitrary: str r rule: length_induct)
  case (1 s)
  show ?case
  proof (cases s)
    case Nil
    with 1(2) show ?thesis by simp
  next
    case (Cons c cs)
    have IH: "parseChars ys = Some (a, b) \<Longrightarrow> length ys < length s \<Longrightarrow> length b < length ys"
      for ys a b
      using 1(1) by blast
    show ?thesis
      using 1(2) unfolding Cons
      by (auto simp: Cons split: if_splits list.splits option.splits
          dest!: consChar_Some dest: IH)
  qed
qed

lemma parseIntegerPart_length:
  "parseIntegerPart s = Some (i, r) \<Longrightarrow> length r < length s"
proof (cases s)
  case Nil
  moreover assume "parseIntegerPart s = Some (i, r)"
  ultimately show ?thesis by (simp add: parseIntegerPart_def)
next
  case (Cons c cs)
  have "length (dropWhile isDigit cs) \<le> length cs" by (rule length_dropWhile_le)
  moreover assume "parseIntegerPart s = Some (i, r)"
  ultimately show ?thesis
    unfolding Cons by (auto simp: parseIntegerPart_def split: if_splits)
qed

lemma parseFraction_length:
  "parseFraction s = Some (f, r) \<Longrightarrow> length r \<le> length s"
proof (cases s)
  case Nil
  moreover assume "parseFraction s = Some (f, r)"
  ultimately show ?thesis by (simp add: parseFraction_def)
next
  case (Cons c cs)
  have "length (dropWhile isDigit cs) \<le> length cs" by (rule length_dropWhile_le)
  moreover assume "parseFraction s = Some (f, r)"
  ultimately show ?thesis
    unfolding Cons by (auto simp: parseFraction_def Let_def split: if_splits)
qed

lemma parseExponentDigits_length:
  "parseExponentDigits neg s = Some (e, r) \<Longrightarrow> length r \<le> length s"
  using length_dropWhile_le [of isDigit s]
  by (auto simp: parseExponentDigits_def Let_def split: if_splits)

lemma parseExponent_length:
  "parseExponent s = Some (e, r) \<Longrightarrow> length r \<le> length s"
  by (auto simp: parseExponent_def split: list.splits if_splits
      dest!: parseExponentDigits_length)

lemma parseUnsigned_length:
  "parseUnsigned s = Some (x, r) \<Longrightarrow> length r < length s"
  by (auto simp: parseUnsigned_def split: option.splits
      dest!: parseIntegerPart_length parseFraction_length parseExponent_length)

lemma parseNumber_length:
  "parseNumber s = Some (x, r) \<Longrightarrow> length r < length s"
  by (auto simp: parseNumber_def split: list.splits if_splits option.splits
      dest!: parseUnsigned_length)

lemma literal_length:
  "literal w v s = Some (x, r) \<Longrightarrow> w \<noteq> [] \<Longrightarrow> length r < length s"
proof -
  assume a: "literal w v s = Some (x, r)" and w: "w \<noteq> []"
  then have t: "take (length w) s = js w" and r: "r = drop (length w) s"
    by (auto simp: literal_def split: if_splits)
  from t have "length (take (length w) s) = length w" by (simp add: js_def)
  then have "length w \<le> length s" by simp
  with w r show ?thesis by (cases w) simp_all
qed

lemma consumesD1: "consumes p n \<Longrightarrow> p n s = Some (x, r) \<Longrightarrow> length r < length s"
  unfolding consumes_def by blast

lemma consumesD2:
  "consumes p n \<Longrightarrow> p n s = Some (x, r) \<Longrightarrow> length s - length r \<le> m \<Longrightarrow> p m s = Some (x, r)"
  unfolding consumes_def by blast

lemma consumesI:
  assumes len: "\<And>s x r. p (Suc n) s = Some (x, r) \<Longrightarrow> length r < length s"
    and fuel: "\<And>s x r m. p (Suc n) s = Some (x, r) \<Longrightarrow> length s - length r \<le> Suc m \<Longrightarrow>
      p (Suc m) s = Some (x, r)"
  shows "consumes p (Suc n)"
  unfolding consumes_def
proof (intro allI impI conjI)
  fix s x r m
  assume p: "p (Suc n) s = Some (x, r)"
  then show "length r < length s" by (rule len)
  assume m: "length s - length r \<le> m"
  with \<open>length r < length s\<close> have "m \<noteq> 0" by simp
  then obtain m' where "m = Suc m'" by (cases m) auto
  with fuel [OF p] m show "p m s = Some (x, r)" by simp
qed

lemma parseValue_scalar:
  "c \<noteq> 0x7B \<Longrightarrow> c \<noteq> 0x5B \<Longrightarrow> parseValue (Suc n) (c # cs) = parseValue (Suc m) (c # cs)"
  by simp

lemma parseValue_scalar_length:
  assumes "c \<noteq> 0x7B" "c \<noteq> 0x5B" "parseValue (Suc n) (c # cs) = Some (x, r)"
  shows "length r < length (c # cs)"
proof -
  consider (str) "c = DQUOTE" | (t) "c \<noteq> DQUOTE" "c = 0x74" | (f) "c \<noteq> DQUOTE" "c = 0x66"
    | (n) "c \<noteq> DQUOTE" "c = 0x6E"
    | (num) "c \<noteq> DQUOTE" "c \<noteq> 0x74" "c \<noteq> 0x66" "c \<noteq> 0x6E"
    by blast
  then show ?thesis
  proof cases
    case str
    with assms obtain a where "parseChars cs = Some (a, r)"
      by (auto split: option.splits)
    then show ?thesis using parseChars_length by fastforce
  next
    case t
    with assms have "literal ''true'' (JBool True) (c # cs) = Some (x, r)" by simp
    then show ?thesis by (rule literal_length) simp
  next
    case f
    with assms have "literal ''false'' (JBool False) (c # cs) = Some (x, r)" by simp
    then show ?thesis by (rule literal_length) simp
  next
    case n
    with assms have "literal ''null'' JNull (c # cs) = Some (x, r)" by simp
    then show ?thesis by (rule literal_length) simp
  next
    case num
    with assms obtain a where "parseNumber (c # cs) = Some (a, r)"
      by (auto split: option.splits)
    then show ?thesis by (rule parseNumber_length)
  qed
qed

lemma parseValue_object_cases:
  assumes "parseValue (Suc n) (0x7B # cs) = Some (x, r)"
  obtains (empty) ds where "skipWs cs = 0x7D # ds" "x = JObject []" "r = ds"
    | (members) d ds ms where "skipWs cs = d # ds" "d \<noteq> 0x7D"
        "parseMembers n (d # ds) = Some (ms, r)" "x = objectOf ms"
  using assms by (auto split: list.splits if_splits option.splits)

lemma parseValue_array_cases:
  assumes "parseValue (Suc n) (0x5B # cs) = Some (x, r)"
  obtains (empty) ds where "skipWs cs = 0x5D # ds" "x = JArray []" "r = ds"
    | (elements) d ds vs where "skipWs cs = d # ds" "d \<noteq> 0x5D"
        "parseElements n (d # ds) = Some (vs, r)" "x = JArray vs"
  using assms by (auto split: list.splits if_splits option.splits)

lemma consumes_parseValue:
  assumes E: "consumes parseElements n" and M: "consumes parseMembers n"
  shows "consumes parseValue (Suc n)"
proof (rule consumesI)
  fix s x r
  assume p: "parseValue (Suc n) s = Some (x, r)"
  then obtain c cs where s: "s = c # cs" by (cases s) auto
  consider (object) "c = 0x7B" | (array) "c = 0x5B" | (scalar) "c \<noteq> 0x7B" "c \<noteq> 0x5B"
    by blast
  then show "length r < length s"
  proof cases
    case object
    from p [unfolded s object] show ?thesis
    proof (cases rule: parseValue_object_cases)
      case (empty ds)
      then show ?thesis using skipWs_length [of cs] by (simp add: s)
    next
      case (members d ds ms)
      from consumesD1 [OF M members(3)] show ?thesis
        using skipWs_length [of cs] members(1) by (simp add: s)
    qed
  next
    case array
    from p [unfolded s array] show ?thesis
    proof (cases rule: parseValue_array_cases)
      case (empty ds)
      then show ?thesis using skipWs_length [of cs] by (simp add: s)
    next
      case (elements d ds vs)
      from consumesD1 [OF E elements(3)] show ?thesis
        using skipWs_length [of cs] elements(1) by (simp add: s)
    qed
  next
    case scalar
    then show ?thesis using p unfolding s by (rule parseValue_scalar_length)
  qed
next
  fix s x r m
  assume p: "parseValue (Suc n) s = Some (x, r)"
    and m: "length s - length r \<le> Suc m"
  then obtain c cs where s: "s = c # cs" by (cases s) auto
  consider (object) "c = 0x7B" | (array) "c = 0x5B" | (scalar) "c \<noteq> 0x7B" "c \<noteq> 0x5B"
    by blast
  then show "parseValue (Suc m) s = Some (x, r)"
  proof cases
    case object
    from p [unfolded s object] show ?thesis
    proof (cases rule: parseValue_object_cases)
      case (empty ds)
      then show ?thesis by (simp add: s object)
    next
      case (members d ds ms)
      have "length (d # ds) - length r \<le> m"
        using m skipWs_length [of cs] unfolding s members(1) by simp
      then have "parseMembers m (d # ds) = Some (ms, r)"
        by (rule consumesD2 [OF M members(3)])
      then show ?thesis by (simp add: s object members)
    qed
  next
    case array
    from p [unfolded s array] show ?thesis
    proof (cases rule: parseValue_array_cases)
      case (empty ds)
      then show ?thesis by (simp add: s array)
    next
      case (elements d ds vs)
      have "length (d # ds) - length r \<le> m"
        using m skipWs_length [of cs] unfolding s elements(1) by simp
      then have "parseElements m (d # ds) = Some (vs, r)"
        by (rule consumesD2 [OF E elements(3)])
      then show ?thesis by (simp add: s array elements)
    qed
  next
    case scalar
    have "parseValue (Suc m) (c # cs) = parseValue (Suc n) (c # cs)"
      using scalar by (rule parseValue_scalar)
    then show ?thesis using p unfolding s by (rule trans)
  qed
qed

lemma parseElements_cases:
  assumes "parseElements (Suc n) s = Some (vs, r)"
  obtains (more) v r1 cs vs' where "parseValue n s = Some (v, r1)" "skipWs r1 = 0x2C # cs"
        "parseElements n (skipWs cs) = Some (vs', r)" "vs = v # vs'"
    | (last) v r1 where "parseValue n s = Some (v, r1)" "skipWs r1 = 0x5D # r" "vs = [v]"
  using assms by (auto split: list.splits if_splits option.splits)

lemma consumes_parseElements:
  assumes V: "consumes parseValue n" and E: "consumes parseElements n"
  shows "consumes parseElements (Suc n)"
proof (rule consumesI)
  fix s vs r
  assume "parseElements (Suc n) s = Some (vs, r)"
  then show "length r < length s"
  proof (cases rule: parseElements_cases)
    case (more v r1 cs vs')
    show ?thesis
      using consumesD1 [OF V more(1)] consumesD1 [OF E more(3)] skipWs_length [of r1]
        skipWs_length [of cs] more(2) by simp
  next
    case (last v r1)
    show ?thesis
      using consumesD1 [OF V last(1)] skipWs_length [of r1] last(2) by simp
  qed
next
  fix s vs r m
  assume p: "parseElements (Suc n) s = Some (vs, r)"
    and m: "length s - length r \<le> Suc m"
  from p show "parseElements (Suc m) s = Some (vs, r)"
  proof (cases rule: parseElements_cases)
    case (more v r1 cs vs')
    have lens: "length r1 < length s" "length r < length (skipWs cs)"
      "length (skipWs cs) \<le> length cs" "Suc (length cs) \<le> length r1"
      using consumesD1 [OF V more(1)] consumesD1 [OF E more(3)] skipWs_length [of r1]
        skipWs_length [of cs] more(2) by simp_all
    have "length s - length r1 \<le> m" using m lens by linarith
    then have v: "parseValue m s = Some (v, r1)" by (rule consumesD2 [OF V more(1)])
    have "length (skipWs cs) - length r \<le> m" using m lens by linarith
    then have "parseElements m (skipWs cs) = Some (vs', r)" by (rule consumesD2 [OF E more(3)])
    with v show ?thesis by (simp add: more)
  next
    case (last v r1)
    have lens: "length r1 < length s" "Suc (length r) \<le> length r1"
      using consumesD1 [OF V last(1)] skipWs_length [of r1] last(2) by simp_all
    have "length s - length r1 \<le> m" using m lens by linarith
    then have "parseValue m s = Some (v, r1)" by (rule consumesD2 [OF V last(1)])
    then show ?thesis by (simp add: last)
  qed
qed

lemma parseMembers_cases:
  assumes "parseMembers (Suc n) s = Some (ms, r)"
  obtains (more) cs key r0 r1 v r2 r3 ms' where "s = DQUOTE # cs"
        "parseChars cs = Some (key, r0)" "skipWs r0 = 0x3A # r1"
        "parseValue n (skipWs r1) = Some (v, r2)" "skipWs r2 = 0x2C # r3"
        "parseMembers n (skipWs r3) = Some (ms', r)" "ms = (key, v) # ms'"
    | (last) cs key r0 r1 v r2 where "s = DQUOTE # cs"
        "parseChars cs = Some (key, r0)" "skipWs r0 = 0x3A # r1"
        "parseValue n (skipWs r1) = Some (v, r2)" "skipWs r2 = 0x7D # r" "ms = [(key, v)]"
  using assms by (auto split: list.splits if_splits option.splits)

lemma consumes_parseMembers:
  assumes V: "consumes parseValue n" and M: "consumes parseMembers n"
  shows "consumes parseMembers (Suc n)"
proof (rule consumesI)
  fix s ms r
  assume "parseMembers (Suc n) s = Some (ms, r)"
  then show "length r < length s"
  proof (cases rule: parseMembers_cases)
    case (more cs key r0 r1 v r2 r3 ms')
    show ?thesis
      using parseChars_length [OF more(2)] consumesD1 [OF V more(4)] consumesD1 [OF M more(6)]
        skipWs_length [of r0] skipWs_length [of r1] skipWs_length [of r2] skipWs_length [of r3]
        more(1,3,5) by simp
  next
    case (last cs key r0 r1 v r2)
    show ?thesis
      using parseChars_length [OF last(2)] consumesD1 [OF V last(4)]
        skipWs_length [of r0] skipWs_length [of r1] skipWs_length [of r2]
        last(1,3,5) by simp
  qed
next
  fix s ms r m
  assume p: "parseMembers (Suc n) s = Some (ms, r)"
    and m: "length s - length r \<le> Suc m"
  from p show "parseMembers (Suc m) s = Some (ms, r)"
  proof (cases rule: parseMembers_cases)
    case (more cs key r0 r1 v r2 r3 ms')
    have lens: "length r0 < length cs" "Suc (length r1) \<le> length r0"
      "length (skipWs r1) \<le> length r1" "length r2 < length (skipWs r1)"
      "Suc (length r3) \<le> length r2" "length (skipWs r3) \<le> length r3"
      "length r < length (skipWs r3)" "length s = Suc (length cs)"
      using parseChars_length [OF more(2)] consumesD1 [OF V more(4)] consumesD1 [OF M more(6)]
        skipWs_length [of r0] skipWs_length [of r1] skipWs_length [of r2] skipWs_length [of r3]
        more(1,3,5) by simp_all
    have "length (skipWs r1) - length r2 \<le> m" using m lens by linarith
    then have v: "parseValue m (skipWs r1) = Some (v, r2)" by (rule consumesD2 [OF V more(4)])
    have "length (skipWs r3) - length r \<le> m" using m lens by linarith
    then have "parseMembers m (skipWs r3) = Some (ms', r)" by (rule consumesD2 [OF M more(6)])
    with v show ?thesis by (simp add: more)
  next
    case (last cs key r0 r1 v r2)
    have lens: "length r0 < length cs" "Suc (length r1) \<le> length r0"
      "length (skipWs r1) \<le> length r1" "length r2 < length (skipWs r1)"
      "Suc (length r) \<le> length r2" "length s = Suc (length cs)"
      using parseChars_length [OF last(2)] consumesD1 [OF V last(4)]
        skipWs_length [of r0] skipWs_length [of r1] skipWs_length [of r2]
        last(1,3,5) by simp_all
    have "length (skipWs r1) - length r2 \<le> m" using m lens by linarith
    then have "parseValue m (skipWs r1) = Some (v, r2)" by (rule consumesD2 [OF V last(4)])
    then show ?thesis by (simp add: last)
  qed
qed

lemma consumes_all:
  "consumes parseValue n \<and> consumes parseElements n \<and> consumes parseMembers n"
proof (induction n)
  case 0
  show ?case by (simp add: consumes_def)
next
  case (Suc n)
  then show ?case
    by (simp add: consumes_parseValue consumes_parseElements consumes_parseMembers)
qed

lemma JSON_parse_any_counter:
  "JSON_parse s = Some v \<longleftrightarrow>
   (\<exists>n rest. parseValue n (skipWs s) = Some (v, rest) \<and> skipWs rest = [])"
proof
  assume "JSON_parse s = Some v"
  then obtain rest where "parseValue (length s) (skipWs s) = Some (v, rest)" "skipWs rest = []"
    by (auto simp: JSON_parse_def split: option.splits if_splits)
  then show "\<exists>n rest. parseValue n (skipWs s) = Some (v, rest) \<and> skipWs rest = []"
    by blast
next
  assume "\<exists>n rest. parseValue n (skipWs s) = Some (v, rest) \<and> skipWs rest = []"
  then obtain n rest where p: "parseValue n (skipWs s) = Some (v, rest)" and e: "skipWs rest = []"
    by blast
  have c: "consumes parseValue n" using consumes_all by blast
  have "length (skipWs s) - length rest \<le> length s"
    using skipWs_length [of s] by simp
  then have "parseValue (length s) (skipWs s) = Some (v, rest)"
    by (rule consumesD2 [OF c p])
  with e show "JSON_parse s = Some v" by (simp add: JSON_parse_def)
qed

section \<open>Saving and loading\<close>

lemma length_milk: "length (stringify_task milk) = 96"
  by (simp add: stringify_task_def JSON_object_def JSON_member_def QuoteJSONString_def
      milk_def js_def Number_toString_def digits.simps digitChar_def DQUOTE_def BACKSLASH_def
      isLeadingSurrogate_def isTrailingSurrogate_def)

lemma length_feast: "length (stringify_task feast) = 116"
  by (simp add: stringify_task_def JSON_object_def JSON_member_def QuoteJSONString_def
      feast_def js_def Number_toString_def digits.simps digitChar_def DQUOTE_def BACKSLASH_def
      isLeadingSurrogate_def isTrailingSurrogate_def)

lemma stringify_tasks_not_Nil: "stringify_tasks ts \<noteq> []"
  by (simp add: stringify_tasks_def JSON_array_def)

lemma loadTasks_stored:
  "storage STORAGE_KEY = Some (stringify_tasks ts) \<Longrightarrow> loadTasks storage = map task_json ts"
  by (simp add: loadTasks_def stringify_tasks_not_Nil JSON_parse_stringify_tasks)

lemma saveTasks_fits:
  "fits st (tasks st) \<Longrightarrow>
   saveTasks st =
     (Returns (),
      st\<lparr>localStorage := (localStorage st)(STORAGE_KEY \<mapsto> stringify_tasks (tasks st)),
         effects := effects st @ [SetItem STORAGE_KEY (stringify_tasks (tasks st))]\<rparr>)"
  by (simp add: saveTasks_def setItem_def fits_def)

lemma saveTasks_throws:
  "\<not> fits st (tasks st) \<Longrightarrow> saveTasks st = (Throws QuotaExceededError, st)"
  by (simp add: saveTasks_def setItem_def fits_def)

lemma getProperty_task_json:
  "getProperty (task_json t) ''id'' = Some (JNumber (of_int (id_of t)))"
  "getProperty (task_json t) ''title'' = Some (JString (title t))"
  "getProperty (task_json t) ''status'' = Some (JString (status t))"
  "getProperty (task_json t) ''createdAt'' = Some (JString (createdAt t))"
  by (simp_all add: getProperty_def task_json_def js_def)

lemma wellFormed_examples: "wellFormed [milk, feast]" "wellFormed [milk, bread]"
  by (simp_all add: wellFormed_def milk_def feast_def bread_def)

subsection \<open>What a function does when the text fits and when it does not\<close>

lemma fits_update [simp]:
  "fits (st\<lparr>tasks := ts'\<rparr>) ts = fits st ts"
  by (simp add: fits_def)

lemma deleteTask_fits:
  assumes "fits st (filter (\<lambda>task. id_of task \<noteq> taskId) (tasks st))"
  shows "deleteTask taskId st =
    (Returns (),
     st\<lparr>tasks := filter (\<lambda>task. id_of task \<noteq> taskId) (tasks st),
        localStorage := (localStorage st)
          (STORAGE_KEY \<mapsto> stringify_tasks (filter (\<lambda>task. id_of task \<noteq> taskId) (tasks st))),
        taskTableBody :=
          (if filter (\<lambda>task. id_of task \<noteq> taskId) (tasks st) = [] then [emptyRow]
           else map taskRow (filter (\<lambda>task. id_of task \<noteq> taskId) (tasks st))),
        effects := effects st @
          [SetItem STORAGE_KEY
             (stringify_tasks (filter (\<lambda>task. id_of task \<noteq> taskId) (tasks st))),
           Render (if filter (\<lambda>task. id_of task \<noteq> taskId) (tasks st) = [] then [emptyRow]
                   else map taskRow (filter (\<lambda>task. id_of task \<noteq> taskId) (tasks st)))]\<rparr>)"
  using assms
  by (simp add: deleteTask_def Let_def saveTasks_fits renderTasks_def)

lemma deleteTask_throws:
  assumes "\<not> fits st (filter (\<lambda>task. id_of task \<noteq> taskId) (tasks st))"
  shows "deleteTask taskId st =
    (Throws QuotaExceededError,
     st\<lparr>tasks := filter (\<lambda>task. id_of task \<noteq> taskId) (tasks st)\<rparr>)"
  using assms
  by (simp add: deleteTask_def Let_def saveTasks_throws)

lemma tasks_deleteTask:
  "tasks (snd (deleteTask taskId st)) = filter (\<lambda>task. id_of task \<noteq> taskId) (tasks st)"
  by (cases "fits st (filter (\<lambda>task. id_of task \<noteq> taskId) (tasks st))")
    (simp_all add: deleteTask_fits deleteTask_throws)

lemma quota_deleteTask: "quota (snd (deleteTask taskId st)) = quota st"
  by (cases "fits st (filter (\<lambda>task. id_of task \<noteq> taskId) (tasks st))")
    (simp_all add: deleteTask_fits deleteTask_throws)

lemma fits_deleteTask: "fits (snd (deleteTask taskId st)) ts = fits st ts"
  by (simp add: fits_def quota_deleteTask)

lemma addTask_accepted:
  assumes "trim (taskTitleInput st) \<noteq> []" and "fits st (tasks st @ [newTaskOf date st])"
  shows "addTask date st =
    (Returns None,
     st\<lparr>tasks := tasks st @ [newTaskOf date st],
        localStorage := (localStorage st)
          (STORAGE_KEY \<mapsto> stringify_tasks (tasks st @ [newTaskOf date st])),
        taskTableBody := map taskRow (tasks st @ [newTaskOf date st]),
        taskTitleInput := [],
        effects := effects st @
          [SetItem STORAGE_KEY (stringify_tasks (tasks st @ [newTaskOf date st])),
           Render (map taskRow (tasks st @ [newTaskOf date st])),
           Fetch \<lparr>url = API_URL, http_method = js ''POST'',
                  headers = [(js ''Content-Type'', js ''text/plain;charset=utf-8'')],
                  body = JSON_object
                    [JSON_member ''title'' (QuoteJSONString (trim (taskTitleInput st))),
                     JSON_member ''status'' (QuoteJSONString (taskStatusSelect st))]\<rparr>,
           Focus]\<rparr>)"
proof -
  have "fits (st\<lparr>tasks := tasks st @ [newTaskOf date st]\<rparr>)
      (tasks (st\<lparr>tasks := tasks st @ [newTaskOf date st]\<rparr>))"
    using assms(2) by simp
  from saveTasks_fits [OF this] assms(1) show ?thesis
    by (simp add: addTask_def Let_def renderTasks_def sendTaskToSheet_def
        newTaskOf_def [symmetric])
      (simp add: newTaskOf_def)
qed

lemma addTask_refused:
  assumes "trim (taskTitleInput st) \<noteq> []" and "\<not> fits st (tasks st @ [newTaskOf date st])"
  shows "addTask date st =
    (Throws QuotaExceededError, st\<lparr>tasks := tasks st @ [newTaskOf date st]\<rparr>)"
proof -
  have "\<not> fits (st\<lparr>tasks := tasks st @ [newTaskOf date st]\<rparr>)
      (tasks (st\<lparr>tasks := tasks st @ [newTaskOf date st]\<rparr>))"
    using assms(2) by simp
  from saveTasks_throws [OF this] assms(1) show ?thesis
    by (simp add: addTask_def Let_def newTaskOf_def [symmetric])
qed

subsection \<open>The example pages\<close>

lemma trim_titles:
  "trim (js ''Buy milk'') = js ''Buy milk''"
  "trim (js ''  Buy milk '') = js ''Buy milk''"
  "trim (js ''Buy everything for the feast'') = js ''Buy everything for the feast''"
  by (simp_all add: trim_def js_def isWhiteSpace_def)

lemma js_not_Nil: "js ''Buy milk'' \<noteq> []" "js ''Buy everything for the feast'' \<noteq> []"
  by (simp_all add: js_def)

lemma smallPage_fields:
  "tasks smallPage = []" "taskTitleInput smallPage = js ''Buy milk''"
  "taskStatusSelect smallPage = js ''pending''" "localStorage smallPage = Map.empty"
  "quota smallPage = length STORAGE_KEY + length (stringify_tasks [milk])"
  "effects smallPage = []"
  by (simp_all add: smallPage_def emptyPage_def)

lemma milkPage_eq:
  "milkPage =
     smallPage\<lparr>tasks := [milk],
       localStorage := storedAs (stringify_tasks [milk]),
       taskTableBody := [taskRow milk],
       taskTitleInput := [],
       effects :=
         [SetItem STORAGE_KEY (stringify_tasks [milk]),
          Render [taskRow milk],
          Fetch \<lparr>url = API_URL, http_method = js ''POST'',
                 headers = [(js ''Content-Type'', js ''text/plain;charset=utf-8'')],
                 body = JSON_object
                   [JSON_member ''title'' (QuoteJSONString (js ''Buy milk'')),
                    JSON_member ''status'' (QuoteJSONString (js ''pending''))]\<rparr>,
          Focus]\<rparr>"
proof -
  have new: "newTaskOf sampleClock smallPage = milk"
    by (simp add: newTaskOf_def smallPage_fields trim_titles milk_def sampleClock_def)
  have t: "trim (taskTitleInput smallPage) \<noteq> []"
    by (simp add: smallPage_fields trim_titles js_not_Nil)
  have f: "fits smallPage (tasks smallPage @ [newTaskOf sampleClock smallPage])"
    by (simp add: new smallPage_fields fits_def)
  show ?thesis
    unfolding milkPage_def addTask_accepted [OF t f]
    by (simp add: new smallPage_fields trim_titles storedAs_def)
qed

lemma length_milk_feast:
  "length (stringify_tasks [milk]) < length (stringify_tasks [milk, feast])"
  "length (stringify_tasks [milk]) < length (stringify_tasks [feast])"
  by (simp_all add: stringify_tasks_def JSON_array_def length_milk length_feast)

lemma fullPage_eq:
  "fullPage = milkPage\<lparr>taskTitleInput := js ''Buy everything for the feast'',
                       tasks := [milk, feast]\<rparr>"
proof -
  define page where "page = milkPage\<lparr>taskTitleInput := js ''Buy everything for the feast''\<rparr>"
  have fields: "tasks page = [milk]" "taskTitleInput page = js ''Buy everything for the feast''"
    "taskStatusSelect page = js ''pending''"
    "quota page = length STORAGE_KEY + length (stringify_tasks [milk])"
    by (simp_all add: page_def milkPage_eq smallPage_fields)
  have new: "newTaskOf feastClock page = feast"
    by (simp add: newTaskOf_def fields trim_titles feast_def feastClock_def)
  have t: "trim (taskTitleInput page) \<noteq> []"
    by (simp add: fields trim_titles js_not_Nil)
  have f: "\<not> fits page (tasks page @ [newTaskOf feastClock page])"
    using length_milk_feast(1) by (simp add: new fields fits_def)
  have "fullPage = page\<lparr>tasks := tasks page @ [newTaskOf feastClock page]\<rparr>"
    unfolding fullPage_def page_def [symmetric] addTask_refused [OF t f] by simp
  also have "\<dots> = page\<lparr>tasks := [milk, feast]\<rparr>"
    unfolding new fields by simp
  finally show ?thesis by (simp add: page_def)
qed

lemma fullPage_fields:
  "tasks fullPage = [milk, feast]"
  "localStorage fullPage = storedAs (stringify_tasks [milk])"
  "quota fullPage = length STORAGE_KEY + length (stringify_tasks [milk])"
  "taskTableBody fullPage = [taskRow milk]"
  by (simp_all add: fullPage_eq milkPage_eq smallPage_fields)

lemma loadTasks_fullPage: "loadTasks (localStorage fullPage) = [task_json milk]"
  using loadTasks_stored [of "localStorage fullPage" "[milk]"]
  by (simp add: fullPage_fields storedAs_def)

lemma fullPage_no_room:
  "\<not> fits fullPage [milk, feast]" "\<not> fits fullPage [feast]" "fits fullPage [milk]"
  using length_milk_feast by (simp_all add: fits_def fullPage_fields)

subsection \<open>The round trip\<close>

lemma length_bread: "length (stringify_task bread) = 90"
  by (simp add: stringify_task_def JSON_object_def JSON_member_def QuoteJSONString_def
      bread_def js_def Number_toString_def digits.simps digitChar_def DQUOTE_def BACKSLASH_def
      isLeadingSurrogate_def isTrailingSurrogate_def)

lemma emptyPage_room: "fits (emptyPage\<lparr>tasks := [milk, bread]\<rparr>) [milk, bread]"
  by (simp add: fits_def emptyPage_def STORAGE_KEY_def js_def stringify_tasks_def JSON_array_def
      length_milk length_bread)

text \<open>
  C1. For a well-formed task list whose text the storage has room for,
  \<open>saveTasks\<close> returns, and \<open>loadTasks\<close> then gives a list of the same length
  whose element at every index has the id, title, status and createdAt of the task
  at that index: it is the list of the tasks, read as parsed objects. When the
  storage has no room for the text, \<open>saveTasks\<close> throws the QuotaExceededError of
  \<open>setItem\<close> and the page is as it was: what is stored is what was stored before.
\<close>

theorem save_load_roundtrip:
  assumes "wellFormed (tasks st)"
  shows "(fits st (tasks st) \<longrightarrow>
           fst (saveTasks st) = Returns () \<and>
           loadTasks (localStorage (snd (saveTasks st))) = map task_json (tasks st) \<and>
           length (loadTasks (localStorage (snd (saveTasks st)))) = length (tasks st) \<and>
           (\<forall>i < length (tasks st).
              getProperty (loadTasks (localStorage (snd (saveTasks st))) ! i) ''id'' =
                Some (JNumber (of_int (id_of (tasks st ! i)))) \<and>
              getProperty (loadTasks (localStorage (snd (saveTasks st))) ! i) ''title'' =
                Some (JString (title (tasks st ! i))) \<and>
              getProperty (loadTasks (localStorage (snd (saveTasks st))) ! i) ''status'' =
                Some (JString (status (tasks st ! i))) \<and>
              getProperty (loadTasks (localStorage (snd (saveTasks st))) ! i) ''createdAt'' =
                Some (JString (createdAt (tasks st ! i))))) \<and>
         (\<not> fits st (tasks st) \<longrightarrow>
           fst (saveTasks st) = Throws QuotaExceededError \<and> snd (saveTasks st) = st)"
proof (intro conjI impI)
  assume f: "fits st (tasks st)"
  have stored: "localStorage (snd (saveTasks st)) STORAGE_KEY = Some (stringify_tasks (tasks st))"
    by (simp add: saveTasks_fits [OF f])
  have "JSON_parse (stringify_tasks (tasks st)) = Some (JArray (map task_json (tasks st)))"
    by (rule JSON_parse_stringify_tasks)
  then have loaded: "loadTasks (localStorage (snd (saveTasks st))) = map task_json (tasks st)"
    using stored by (simp add: loadTasks_def stringify_tasks_not_Nil)
  show "fst (saveTasks st) = Returns ()" by (simp add: saveTasks_fits [OF f])
  show "loadTasks (localStorage (snd (saveTasks st))) = map task_json (tasks st)" by (rule loaded)
  show "length (loadTasks (localStorage (snd (saveTasks st)))) = length (tasks st)"
    by (simp add: loaded)
  show "\<forall>i < length (tasks st).
              getProperty (loadTasks (localStorage (snd (saveTasks st))) ! i) ''id'' =
                Some (JNumber (of_int (id_of (tasks st ! i)))) \<and>
              getProperty (loadTasks (localStorage (snd (saveTasks st))) ! i) ''title'' =
                Some (JString (title (tasks st ! i))) \<and>
              getProperty (loadTasks (localStorage (snd (saveTasks st))) ! i) ''status'' =
                Some (JString (status (tasks st ! i))) \<and>
              getProperty (loadTasks (localStorage (snd (saveTasks st))) ! i) ''createdAt'' =
                Some (JString (createdAt (tasks st ! i)))"
    unfolding loaded by (simp add: getProperty_task_json)
next
  assume "\<not> fits st (tasks st)"
  then show "fst (saveTasks st) = Throws QuotaExceededError" "snd (saveTasks st) = st"
    by (simp_all add: saveTasks_throws)
qed

theorem save_load_roundtrip_witness:
  "wellFormed [milk, bread] \<and>
   fst (saveTasks (emptyPage\<lparr>tasks := [milk, bread]\<rparr>)) = Returns () \<and>
   loadTasks (localStorage (snd (saveTasks (emptyPage\<lparr>tasks := [milk, bread]\<rparr>)))) =
     [task_json milk, task_json bread] \<and>
   fst (saveTasks fullPage) = Throws QuotaExceededError \<and> snd (saveTasks fullPage) = fullPage"
proof -
  have t: "tasks (emptyPage\<lparr>tasks := [milk, bread]\<rparr>) = [milk, bread]" by simp
  have wf: "wellFormed (tasks (emptyPage\<lparr>tasks := [milk, bread]\<rparr>))"
    unfolding t by (rule wellFormed_examples)
  have room: "fits (emptyPage\<lparr>tasks := [milk, bread]\<rparr>)
      (tasks (emptyPage\<lparr>tasks := [milk, bread]\<rparr>))"
    unfolding t by (rule emptyPage_room)
  have "fst (saveTasks (emptyPage\<lparr>tasks := [milk, bread]\<rparr>)) = Returns () \<and>
      loadTasks (localStorage (snd (saveTasks (emptyPage\<lparr>tasks := [milk, bread]\<rparr>)))) =
        map task_json (tasks (emptyPage\<lparr>tasks := [milk, bread]\<rparr>))"
    using save_load_roundtrip [OF wf] room by blast
  then have stored: "fst (saveTasks (emptyPage\<lparr>tasks := [milk, bread]\<rparr>)) = Returns () \<and>
      loadTasks (localStorage (snd (saveTasks (emptyPage\<lparr>tasks := [milk, bread]\<rparr>)))) =
        [task_json milk, task_json bread]"
    unfolding t by simp
  have wf2: "wellFormed (tasks fullPage)"
    unfolding fullPage_fields(1) by (rule wellFormed_examples)
  have "\<not> fits fullPage (tasks fullPage)"
    unfolding fullPage_fields(1) by (rule fullPage_no_room)
  then have "fst (saveTasks fullPage) = Throws QuotaExceededError \<and> snd (saveTasks fullPage) = fullPage"
    using save_load_roundtrip [OF wf2] by blast
  with stored wellFormed_examples(2) show ?thesis by blast
qed

text \<open>
  On \<open>fullPage\<close> the list is \<open>milk\<close> and \<open>feast\<close>, both well formed, and the
  storage has room for \<open>milk\<close> alone: \<open>saveTasks\<close> throws, and \<open>loadTasks\<close>
  gives \<open>milk\<close> alone, not the list.
\<close>

theorem saveTasks_over_quota:
  "wellFormed (tasks fullPage) \<and>
   fst (saveTasks fullPage) = Throws QuotaExceededError \<and>
   loadTasks (localStorage (snd (saveTasks fullPage))) = [task_json milk] \<and>
   map task_json (tasks fullPage) = [task_json milk, task_json feast] \<and>
   loadTasks (localStorage (snd (saveTasks fullPage))) \<noteq> map task_json (tasks fullPage)"
  using fullPage_no_room(1)
  by (simp add: saveTasks_throws fullPage_fields(1) wellFormed_examples loadTasks_fullPage)

section \<open>Deleting\<close>

lemma deleteTask_twice:
  "snd (deleteTask taskId (snd (deleteTask taskId st))) =
   (if fits st (filter (\<lambda>task. id_of task \<noteq> taskId) (tasks st))
    then (snd (deleteTask taskId st))
      \<lparr>effects := effects (snd (deleteTask taskId st)) @
         [SetItem STORAGE_KEY
            (stringify_tasks (filter (\<lambda>task. id_of task \<noteq> taskId) (tasks st))),
          Render (if filter (\<lambda>task. id_of task \<noteq> taskId) (tasks st) = [] then [emptyRow]
                  else map taskRow (filter (\<lambda>task. id_of task \<noteq> taskId) (tasks st)))]\<rparr>
    else snd (deleteTask taskId st))"
proof (cases "fits st (filter (\<lambda>task. id_of task \<noteq> taskId) (tasks st))")
  case True
  have again: "fits (snd (deleteTask taskId st))
      (filter (\<lambda>task. id_of task \<noteq> taskId) (tasks (snd (deleteTask taskId st))))"
    using True by (simp add: fits_deleteTask tasks_deleteTask)
  show ?thesis
    unfolding deleteTask_fits [OF again]
    using True by (simp add: deleteTask_fits)
next
  case False
  have again: "\<not> fits (snd (deleteTask taskId st))
      (filter (\<lambda>task. id_of task \<noteq> taskId) (tasks (snd (deleteTask taskId st))))"
    using False by (simp add: fits_deleteTask tasks_deleteTask)
  show ?thesis
    unfolding deleteTask_throws [OF again]
    using False by (simp add: deleteTask_throws)
qed

text \<open>
  C10. \<open>deleteTask\<close> leaves in \<open>tasks\<close> exactly the tasks whose id differs from
  the given one, in their order and as they were: the result is a subsequence of
  the list, a task of the list is in it if and only if its id differs, so every
  task with the given id goes, however many there are. Deleting the same id a
  second time changes neither the list, nor the storage, nor the table. All of it
  holds whether \<open>setItem\<close> returns or throws: the list is assigned before the call.
\<close>

theorem deleteTask_frame:
  "tasks (snd (deleteTask taskId st)) = filter (\<lambda>task. id_of task \<noteq> taskId) (tasks st) \<and>
   subseq (tasks (snd (deleteTask taskId st))) (tasks st) \<and>
   (\<forall>t \<in> set (tasks st). t \<in> set (tasks (snd (deleteTask taskId st))) \<longleftrightarrow> id_of t \<noteq> taskId) \<and>
   (\<forall>t \<in> set (tasks (snd (deleteTask taskId st))). t \<in> set (tasks st) \<and> id_of t \<noteq> taskId) \<and>
   tasks (snd (deleteTask taskId (snd (deleteTask taskId st)))) =
     tasks (snd (deleteTask taskId st)) \<and>
   localStorage (snd (deleteTask taskId (snd (deleteTask taskId st)))) =
     localStorage (snd (deleteTask taskId st)) \<and>
   taskTableBody (snd (deleteTask taskId (snd (deleteTask taskId st)))) =
     taskTableBody (snd (deleteTask taskId st))"
proof -
  have twice: "tasks (snd (deleteTask taskId (snd (deleteTask taskId st)))) =
       tasks (snd (deleteTask taskId st)) \<and>
     localStorage (snd (deleteTask taskId (snd (deleteTask taskId st)))) =
       localStorage (snd (deleteTask taskId st)) \<and>
     taskTableBody (snd (deleteTask taskId (snd (deleteTask taskId st)))) =
       taskTableBody (snd (deleteTask taskId st))"
    unfolding deleteTask_twice by simp
  show ?thesis
    using twice by (simp add: tasks_deleteTask)
qed

theorem deleteTask_frame_witness:
  "tasks (snd (deleteTask 1700000000000 (emptyPage\<lparr>tasks := [milk, bread, milk]\<rparr>))) = [bread] \<and>
   tasks (snd (deleteTask 1700000000000
       (snd (deleteTask 1700000000000 (emptyPage\<lparr>tasks := [milk, bread, milk]\<rparr>))))) = [bread]"
  using deleteTask_frame [of 1700000000000 "emptyPage\<lparr>tasks := [milk, bread, milk]\<rparr>"]
  by (simp add: milk_def bread_def)

text \<open>
  C4. After \<open>deleteTask\<close> no task of the list has the given id, and when no task
  had it the list is unchanged. When the storage has room for the text of the
  remaining tasks, \<open>deleteTask\<close> returns, the stored text is the JSON text of the
  remaining tasks, and \<open>loadTasks\<close> reads it back to exactly those tasks, none of
  which has the given id; when no task had the id, the storage and the table, when
  they held the list before, are unchanged too. When the storage has no room for
  that text, \<open>deleteTask\<close> throws the QuotaExceededError of \<open>setItem\<close>: the
  storage, the table and the calls made are as they were.
\<close>

theorem deleteTask_then_load:
  assumes "wellFormed (tasks st)"
  shows "(\<forall>t \<in> set (tasks (snd (deleteTask taskId st))). id_of t \<noteq> taskId) \<and>
         (taskId \<notin> id_of ` set (tasks st) \<longrightarrow> tasks (snd (deleteTask taskId st)) = tasks st) \<and>
         (fits st (filter (\<lambda>task. id_of task \<noteq> taskId) (tasks st)) \<longrightarrow>
            fst (deleteTask taskId st) = Returns () \<and>
            localStorage (snd (deleteTask taskId st)) STORAGE_KEY =
              Some (stringify_tasks (filter (\<lambda>task. id_of task \<noteq> taskId) (tasks st))) \<and>
            loadTasks (localStorage (snd (deleteTask taskId st))) =
              map task_json (filter (\<lambda>task. id_of task \<noteq> taskId) (tasks st)) \<and>
            (\<forall>v \<in> set (loadTasks (localStorage (snd (deleteTask taskId st)))).
               getProperty v ''id'' \<noteq> Some (JNumber (of_int taskId))) \<and>
            (taskId \<notin> id_of ` set (tasks st) \<longrightarrow>
               loadTasks (localStorage (snd (deleteTask taskId st))) = map task_json (tasks st) \<and>
               (localStorage st STORAGE_KEY = Some (stringify_tasks (tasks st)) \<longrightarrow>
                  localStorage (snd (deleteTask taskId st)) = localStorage st) \<and>
               (taskTableBody st = (if tasks st = [] then [emptyRow] else map taskRow (tasks st)) \<longrightarrow>
                  taskTableBody (snd (deleteTask taskId st)) = taskTableBody st))) \<and>
         (\<not> fits st (filter (\<lambda>task. id_of task \<noteq> taskId) (tasks st)) \<longrightarrow>
            fst (deleteTask taskId st) = Throws QuotaExceededError \<and>
            localStorage (snd (deleteTask taskId st)) = localStorage st \<and>
            taskTableBody (snd (deleteTask taskId st)) = taskTableBody st \<and>
            effects (snd (deleteTask taskId st)) = effects st)"
proof -
  have absent: "filter (\<lambda>task. id_of task \<noteq> taskId) (tasks st) = tasks st"
    if "taskId \<notin> id_of ` set (tasks st)"
    using that by (intro filter_True) auto
  have c1: "\<forall>t \<in> set (tasks (snd (deleteTask taskId st))). id_of t \<noteq> taskId"
    by (simp add: tasks_deleteTask)
  have c2: "taskId \<notin> id_of ` set (tasks st) \<longrightarrow> tasks (snd (deleteTask taskId st)) = tasks st"
    by (simp add: tasks_deleteTask absent)
  have c4: "\<not> fits st (filter (\<lambda>task. id_of task \<noteq> taskId) (tasks st)) \<longrightarrow>
            fst (deleteTask taskId st) = Throws QuotaExceededError \<and>
            localStorage (snd (deleteTask taskId st)) = localStorage st \<and>
            taskTableBody (snd (deleteTask taskId st)) = taskTableBody st \<and>
            effects (snd (deleteTask taskId st)) = effects st"
    by (simp add: deleteTask_throws)
  have c3: "fst (deleteTask taskId st) = Returns () \<and>
            localStorage (snd (deleteTask taskId st)) STORAGE_KEY =
              Some (stringify_tasks (filter (\<lambda>task. id_of task \<noteq> taskId) (tasks st))) \<and>
            loadTasks (localStorage (snd (deleteTask taskId st))) =
              map task_json (filter (\<lambda>task. id_of task \<noteq> taskId) (tasks st)) \<and>
            (\<forall>v \<in> set (loadTasks (localStorage (snd (deleteTask taskId st)))).
               getProperty v ''id'' \<noteq> Some (JNumber (of_int taskId))) \<and>
            (taskId \<notin> id_of ` set (tasks st) \<longrightarrow>
               loadTasks (localStorage (snd (deleteTask taskId st))) = map task_json (tasks st) \<and>
               (localStorage st STORAGE_KEY = Some (stringify_tasks (tasks st)) \<longrightarrow>
                  localStorage (snd (deleteTask taskId st)) = localStorage st) \<and>
               (taskTableBody st = (if tasks st = [] then [emptyRow] else map taskRow (tasks st)) \<longrightarrow>
                  taskTableBody (snd (deleteTask taskId st)) = taskTableBody st))"
    if f: "fits st (filter (\<lambda>task. id_of task \<noteq> taskId) (tasks st))"
  proof -
    have stored: "localStorage (snd (deleteTask taskId st)) STORAGE_KEY =
        Some (stringify_tasks (filter (\<lambda>task. id_of task \<noteq> taskId) (tasks st)))"
      by (simp add: deleteTask_fits [OF f])
    have load: "loadTasks (localStorage (snd (deleteTask taskId st))) =
        map task_json (filter (\<lambda>task. id_of task \<noteq> taskId) (tasks st))"
      using stored by (rule loadTasks_stored)
    have storage: "localStorage (snd (deleteTask taskId st)) = localStorage st"
      if "taskId \<notin> id_of ` set (tasks st)"
        "localStorage st STORAGE_KEY = Some (stringify_tasks (tasks st))"
    proof
      fix key
      show "localStorage (snd (deleteTask taskId st)) key = localStorage st key"
        using that by (simp add: deleteTask_fits [OF f] absent)
    qed
    have table: "taskTableBody (snd (deleteTask taskId st)) = taskTableBody st"
      if "taskId \<notin> id_of ` set (tasks st)"
        "taskTableBody st = (if tasks st = [] then [emptyRow] else map taskRow (tasks st))"
      using that by (simp add: deleteTask_fits [OF f] absent)
    show ?thesis
      unfolding load
      using stored storage table
      by (auto simp: getProperty_task_json absent deleteTask_fits [OF f])
  qed
  from c1 c2 c3 c4 show ?thesis by blast
qed

theorem deleteTask_then_load_witness:
  "wellFormed [milk, bread] \<and>
   fst (deleteTask 1700000000000 (emptyPage\<lparr>tasks := [milk, bread]\<rparr>)) = Returns () \<and>
   loadTasks (localStorage (snd (deleteTask 1700000000000 (emptyPage\<lparr>tasks := [milk, bread]\<rparr>)))) =
     [task_json bread] \<and>
   tasks (snd (deleteTask 5 (emptyPage\<lparr>tasks := [milk, bread]\<rparr>))) = [milk, bread] \<and>
   fst (deleteTask 1700000000000 fullPage) = Throws QuotaExceededError \<and>
   localStorage (snd (deleteTask 1700000000000 fullPage)) = localStorage fullPage"
proof -
  have t: "tasks (emptyPage\<lparr>tasks := [milk, bread]\<rparr>) = [milk, bread]" by simp
  have wf: "wellFormed (tasks (emptyPage\<lparr>tasks := [milk, bread]\<rparr>))"
    unfolding t by (rule wellFormed_examples)
  have f1: "filter (\<lambda>task. id_of task \<noteq> 1700000000000) [milk, bread] = [bread]"
    by (simp add: milk_def bread_def)
  have f2: "filter (\<lambda>task. id_of task \<noteq> 5) [milk, bread] = [milk, bread]"
    "5 \<notin> id_of ` set [milk, bread]"
    by (simp_all add: milk_def bread_def)
  have room: "fits (emptyPage\<lparr>tasks := [milk, bread]\<rparr>) [bread]"
    by (simp add: fits_def emptyPage_def STORAGE_KEY_def js_def stringify_tasks_def JSON_array_def
        length_bread)
  have a: "fst (deleteTask 1700000000000 (emptyPage\<lparr>tasks := [milk, bread]\<rparr>)) = Returns () \<and>
     loadTasks (localStorage (snd (deleteTask 1700000000000 (emptyPage\<lparr>tasks := [milk, bread]\<rparr>)))) =
       map task_json [bread]"
    using deleteTask_then_load [OF wf, of 1700000000000] room unfolding t f1 by blast
  have b: "tasks (snd (deleteTask 5 (emptyPage\<lparr>tasks := [milk, bread]\<rparr>))) = [milk, bread]"
    using deleteTask_then_load [OF wf, of 5] f2(2) unfolding t by blast
  have wf2: "wellFormed (tasks fullPage)"
    unfolding fullPage_fields(1) by (rule wellFormed_examples)
  have f3: "filter (\<lambda>task. id_of task \<noteq> 1700000000000) [milk, feast] = [feast]"
    by (simp add: milk_def feast_def)
  have c: "fst (deleteTask 1700000000000 fullPage) = Throws QuotaExceededError \<and>
     localStorage (snd (deleteTask 1700000000000 fullPage)) = localStorage fullPage"
    using deleteTask_then_load [OF wf2, of 1700000000000] fullPage_no_room(2)
    unfolding fullPage_fields(1) f3 by blast
  from a b c wellFormed_examples(2) show ?thesis by simp
qed

text \<open>
  On \<open>fullPage\<close> the storage holds the text of \<open>milk\<close> and has no room for the
  text of \<open>feast\<close>: deleting \<open>milk\<close> by its id throws, and \<open>loadTasks\<close> still
  gives \<open>milk\<close>, whose id is the one deleted.
\<close>

theorem deleteTask_over_quota:
  "wellFormed (tasks fullPage) \<and>
   fst (deleteTask 1700000000000 fullPage) = Throws QuotaExceededError \<and>
   loadTasks (localStorage (snd (deleteTask 1700000000000 fullPage))) = [task_json milk] \<and>
   getProperty (task_json milk) ''id'' = Some (JNumber 1700000000000)"
proof -
  have f3: "filter (\<lambda>task. id_of task \<noteq> 1700000000000) (tasks fullPage) = [feast]"
    by (simp add: fullPage_fields milk_def feast_def)
  have "\<not> fits fullPage (filter (\<lambda>task. id_of task \<noteq> 1700000000000) (tasks fullPage))"
    unfolding f3 by (rule fullPage_no_room)
  then have "deleteTask 1700000000000 fullPage =
      (Throws QuotaExceededError, fullPage\<lparr>tasks := [feast]\<rparr>)"
    unfolding f3 [symmetric] by (rule deleteTask_throws)
  moreover have "getProperty (task_json milk) ''id'' = Some (JNumber 1700000000000)"
    by (simp add: getProperty_task_json milk_def)
  ultimately show ?thesis
    using loadTasks_fullPage
    by (simp add: fullPage_fields(1) wellFormed_examples)
qed

section \<open>Loading what is not a task list\<close>

lemma JSON_parse_Suc:
  "length s = Suc n \<Longrightarrow>
   JSON_parse s =
     (case parseValue (Suc n) (skipWs s) of
        None \<Rightarrow> None
      | Some (v, rest) \<Rightarrow> if skipWs rest = [] then Some v else None)"
  by (simp add: JSON_parse_def)

lemma JSON_parse_empty_object: "JSON_parse (js ''{}'') = Some (JObject [])"
  by (simp add: JSON_parse_Suc [where n = "Suc 0"] js_def skipWs_def isJSONWhiteSpace_def)

lemma JSON_parse_unclosed: "JSON_parse (js ''[1'') = None"
  by (simp add: JSON_parse_Suc [where n = "Suc 0"] js_def skipWs_def isJSONWhiteSpace_def)

lemma JSON_parse_array_of_one: "JSON_parse (js ''[1]'') = Some (JArray [JNumber 1])"
  by (simp add: JSON_parse_Suc [where n = "Suc (Suc 0)"] js_def skipWs_def isJSONWhiteSpace_def
      parseNumber_def parseUnsigned_def parseIntegerPart_def parseFraction_def
      parseExponent_def isDigit_def decimalValue_def DQUOTE_def)

text \<open>
  C2. \<open>loadTasks\<close> returns the empty list when nothing is stored, when the empty
  string is stored, when the stored text is not JSON, and when it is JSON for a
  value that is not an array. A stored array is returned as it is. \<open>loadTasks\<close>
  throws on no path: the model has no error to return, the \<open>catch\<close> clause being
  the branch \<open>None\<close>.
\<close>

theorem loadTasks_fails_soft:
  "(storage STORAGE_KEY = None \<longrightarrow> loadTasks storage = []) \<and>
   (storage STORAGE_KEY = Some [] \<longrightarrow> loadTasks storage = []) \<and>
   (storage STORAGE_KEY = Some saved \<and> JSON_parse saved = None \<longrightarrow> loadTasks storage = []) \<and>
   (storage STORAGE_KEY = Some saved \<and> JSON_parse saved = Some v \<and> \<not> isArray v \<longrightarrow>
      loadTasks storage = []) \<and>
   (storage STORAGE_KEY = Some saved \<and> saved \<noteq> [] \<and> JSON_parse saved = Some (JArray elements) \<longrightarrow>
      loadTasks storage = elements)"
  by (auto simp: loadTasks_def isArray_def split: json.splits)

theorem loadTasks_fails_soft_witness:
  "loadTasks Map.empty = [] \<and>
   JSON_parse (js ''[1'') = None \<and> loadTasks (storedAs (js ''[1'')) = [] \<and>
   JSON_parse (js ''{}'') = Some (JObject []) \<and> \<not> isArray (JObject []) \<and>
   loadTasks (storedAs (js ''{}'')) = []"
  using loadTasks_fails_soft [of Map.empty]
    loadTasks_fails_soft [of "storedAs (js ''[1'')" "js ''[1''"]
    loadTasks_fails_soft [of "storedAs (js ''{}'')" "js ''{}''" "JObject []"]
  by (simp add: storedAs_def JSON_parse_empty_object JSON_parse_unclosed isArray_def)

text \<open>
  The array \<open>[1]\<close> is JSON for a value that is not a sequence of Task records,
  and \<open>loadTasks\<close> returns it, not the empty list.
\<close>

theorem loadTasks_keeps_any_array:
  "JSON_parse (js ''[1]'') = Some (JArray [JNumber 1]) \<and> \<not> isTaskRecord (JNumber 1) \<and>
   loadTasks (storedAs (js ''[1]'')) = [JNumber 1]"
  by (simp add: JSON_parse_array_of_one isTaskRecord_def getProperty_def loadTasks_def
      storedAs_def) (simp add: js_def)

section \<open>Adding\<close>

subsection \<open>What trim leaves\<close>

lemma trim_Nil_iff: "trim s = [] \<longleftrightarrow> (\<forall>c \<in> set s. isWhiteSpace c)"
proof
  assume "trim s = []"
  then have "dropWhile isWhiteSpace (rev (dropWhile isWhiteSpace s)) = []"
    by (simp add: trim_def)
  then have all: "\<forall>c \<in> set (dropWhile isWhiteSpace s). isWhiteSpace c"
    by (simp add: dropWhile_eq_Nil_conv)
  have "dropWhile isWhiteSpace s = []"
  proof (rule ccontr)
    assume ne: "dropWhile isWhiteSpace s \<noteq> []"
    then have "\<not> isWhiteSpace (hd (dropWhile isWhiteSpace s))" by (rule hd_dropWhile)
    moreover have "hd (dropWhile isWhiteSpace s) \<in> set (dropWhile isWhiteSpace s)"
      using ne by simp
    ultimately show False using all by blast
  qed
  then show "\<forall>c \<in> set s. isWhiteSpace c" by (simp add: dropWhile_eq_Nil_conv)
next
  assume "\<forall>c \<in> set s. isWhiteSpace c"
  then have "dropWhile isWhiteSpace s = []" by (simp add: dropWhile_eq_Nil_conv)
  then show "trim s = []" unfolding trim_def by (simp only: rev.simps dropWhile.simps)
qed

lemma trim_split:
  "\<exists>pre post. s = pre @ trim s @ post \<and> (\<forall>c \<in> set pre. isWhiteSpace c) \<and>
     (\<forall>c \<in> set post. isWhiteSpace c)"
proof -
  define d where "d = dropWhile isWhiteSpace s"
  have s: "s = takeWhile isWhiteSpace s @ d" by (simp add: d_def)
  have "rev (takeWhile isWhiteSpace (rev d) @ dropWhile isWhiteSpace (rev d)) =
        rev (dropWhile isWhiteSpace (rev d)) @ rev (takeWhile isWhiteSpace (rev d))"
    by (rule rev_append)
  then have "rev (rev d) =
        rev (dropWhile isWhiteSpace (rev d)) @ rev (takeWhile isWhiteSpace (rev d))"
    by (simp only: takeWhile_dropWhile_id)
  then have d: "d = trim s @ rev (takeWhile isWhiteSpace (rev d))"
    by (simp only: rev_rev_ident trim_def d_def)
  have "s = takeWhile isWhiteSpace s @ trim s @ rev (takeWhile isWhiteSpace (rev d))"
    using s d by simp
  moreover have "\<forall>c \<in> set (takeWhile isWhiteSpace s). isWhiteSpace c"
    by (auto dest: set_takeWhileD)
  moreover have "\<forall>c \<in> set (rev (takeWhile isWhiteSpace (rev d))). isWhiteSpace c"
    by (auto dest: set_takeWhileD)
  ultimately show ?thesis by blast
qed

lemma trim_ends:
  assumes "trim s \<noteq> []"
  shows "\<not> isWhiteSpace (hd (trim s)) \<and> \<not> isWhiteSpace (last (trim s))"
proof -
  define d where "d = dropWhile isWhiteSpace s"
  define e where "e = dropWhile isWhiteSpace (rev d)"
  have t: "trim s = rev e" by (simp add: trim_def d_def e_def)
  with assms have e: "e \<noteq> []" by simp
  then have "\<not> isWhiteSpace (hd e)" unfolding e_def by (rule hd_dropWhile)
  then have last: "\<not> isWhiteSpace (last (trim s))"
    using e by (simp add: t last_rev)
  have "rev (takeWhile isWhiteSpace (rev d) @ e) = rev e @ rev (takeWhile isWhiteSpace (rev d))"
    by (rule rev_append)
  then have d: "d = rev e @ rev (takeWhile isWhiteSpace (rev d))"
    unfolding e_def by (simp only: takeWhile_dropWhile_id rev_rev_ident)
  then have "d \<noteq> []" using e by auto
  then have "\<not> isWhiteSpace (hd d)" unfolding d_def by (rule hd_dropWhile)
  moreover have "hd d = hd (rev e)" using d e by (metis hd_append2 rev_is_Nil_conv)
  ultimately show ?thesis using last by (simp add: t)
qed

subsection \<open>The form variant and the callbacks\<close>

lemma addTask_form_blank:
  assumes "trim (taskTitleInput st) = []"
  shows "addTask_form date time submitThrows st =
     (Returns None, st\<lparr>effects := effects st @ [Alert (js ''Please enter a task title.'')]\<rparr>)"
  using assms by (simp add: addTask_form_def)

lemma addTask_form_submitted:
  assumes "trim (taskTitleInput st) \<noteq> []" and "fits st (tasks st @ [newTaskOf date st])"
  shows "addTask_form date time None st =
    (Returns None,
     st\<lparr>tasks := tasks st @ [newTaskOf date st],
        localStorage := (localStorage st)
          (STORAGE_KEY \<mapsto> stringify_tasks (tasks st @ [newTaskOf date st])),
        taskTableBody := map taskRow (tasks st @ [newTaskOf date st]),
        forms := forms st @ [\<lparr>inBody = True, hasSubmitted = True\<rparr>],
        formTimers := formTimers st @ [length (forms st)],
        taskTitleInput := [],
        effects := effects st @
          [SetItem STORAGE_KEY (stringify_tasks (tasks st @ [newTaskOf date st])),
           Render (map taskRow (tasks st @ [newTaskOf date st])),
           Submit \<lparr>action = FORM_ACTION_URL,
                   target = js ''google-form-target-'' @ Number_toString time,
                   inputs = [(js ''entry.1486922306'', trim (taskTitleInput st)),
                             (js ''entry.1852717744'', taskStatusSelect st),
                             (js ''entry.1431330731'', toLocaleString date)]\<rparr>,
           Focus]\<rparr>)"
proof -
  have "fits (st\<lparr>tasks := tasks st @ [newTaskOf date st]\<rparr>)
      (tasks (st\<lparr>tasks := tasks st @ [newTaskOf date st]\<rparr>))"
    using assms(2) by simp
  from saveTasks_fits [OF this] assms(1) show ?thesis
    by (simp add: addTask_form_def Let_def renderTasks_def sendTaskToGoogleForm_def
        newTaskOf_def [symmetric])
      (simp add: newTaskOf_def)
qed

lemma addTask_form_submit_throws:
  assumes "trim (taskTitleInput st) \<noteq> []" and "fits st (tasks st @ [newTaskOf date st])"
  shows "addTask_form date time (Some error) st =
    (Returns None,
     st\<lparr>tasks := tasks st @ [newTaskOf date st],
        localStorage := (localStorage st)
          (STORAGE_KEY \<mapsto> stringify_tasks (tasks st @ [newTaskOf date st])),
        taskTableBody := map taskRow (tasks st @ [newTaskOf date st]),
        forms := forms st @ [\<lparr>inBody = False, hasSubmitted = True\<rparr>],
        saveMessage := \<lparr>textContent = js ''Could not save'',
                        classList = insert ''visible'' (insert ''error'' (classList (saveMessage st)))\<rparr>,
        timers := timers st @ [1800],
        taskTitleInput := [],
        effects := effects st @
          [SetItem STORAGE_KEY (stringify_tasks (tasks st @ [newTaskOf date st])),
           Render (map taskRow (tasks st @ [newTaskOf date st])),
           ConsoleError [js ''Could not save to Google Sheet:'', error],
           Focus]\<rparr>)"
proof -
  have "fits (st\<lparr>tasks := tasks st @ [newTaskOf date st]\<rparr>)
      (tasks (st\<lparr>tasks := tasks st @ [newTaskOf date st]\<rparr>))"
    using assms(2) by simp
  from saveTasks_fits [OF this] assms(1) show ?thesis
    by (simp add: addTask_form_def Let_def renderTasks_def sendTaskToGoogleForm_def
        cleanup_def showSaveMessage_def console_error_def newTaskOf_def [symmetric])
qed

lemma addTask_form_refused:
  assumes "trim (taskTitleInput st) \<noteq> []" and "\<not> fits st (tasks st @ [newTaskOf date st])"
  shows "addTask_form date time submitThrows st =
    (Throws QuotaExceededError, st\<lparr>tasks := tasks st @ [newTaskOf date st]\<rparr>)"
proof -
  have "\<not> fits (st\<lparr>tasks := tasks st @ [newTaskOf date st]\<rparr>)
      (tasks (st\<lparr>tasks := tasks st @ [newTaskOf date st]\<rparr>))"
    using assms(2) by simp
  from saveTasks_throws [OF this] assms(1) show ?thesis
    by (simp add: addTask_form_def Let_def newTaskOf_def [symmetric])
qed

lemma addTask_form_local:
  "fst (addTask_form date time submitThrows st) = fst (addTask date st) \<and>
   tasks (snd (addTask_form date time submitThrows st)) = tasks (snd (addTask date st)) \<and>
   localStorage (snd (addTask_form date time submitThrows st)) =
     localStorage (snd (addTask date st)) \<and>
   taskTableBody (snd (addTask_form date time submitThrows st)) =
     taskTableBody (snd (addTask date st)) \<and>
   taskTitleInput (snd (addTask_form date time submitThrows st)) =
     taskTitleInput (snd (addTask date st))"
proof (cases "trim (taskTitleInput st) = []")
  case True
  then show ?thesis by (simp add: addTask_form_blank) (simp add: addTask_def)
next
  case title: False
  show ?thesis
  proof (cases "fits st (tasks st @ [newTaskOf date st])")
    case True
    show ?thesis
      by (cases submitThrows)
        (simp_all add: addTask_form_submitted [OF title True]
          addTask_form_submit_throws [OF title True] addTask_accepted [OF title True])
  next
    case False
    show ?thesis
      by (simp add: addTask_form_refused [OF title False] addTask_refused [OF title False])
  qed
qed

lemma sendTaskToSheet_settled_frame:
  "tasks (sendTaskToSheet_settled outcome s) = tasks s \<and>
   localStorage (sendTaskToSheet_settled outcome s) = localStorage s \<and>
   taskTableBody (sendTaskToSheet_settled outcome s) = taskTableBody s \<and>
   filter isFetch (effects (sendTaskToSheet_settled outcome s)) = filter isFetch (effects s)"
  by (simp add: sendTaskToSheet_settled_def sendTaskToSheet_catch_def showSaveMessage_def
      console_error_def Let_def split: settled.split)

lemma form_callbacks_frame:
  "tasks (iframeLoad k s) = tasks s \<and> localStorage (iframeLoad k s) = localStorage s \<and>
   taskTableBody (iframeLoad k s) = taskTableBody s \<and> effects (iframeLoad k s) = effects s"
  "tasks (iframeError k s) = tasks s \<and> localStorage (iframeError k s) = localStorage s \<and>
   taskTableBody (iframeError k s) = taskTableBody s \<and> effects (iframeError k s) = effects s"
  "tasks (formTimeout k s) = tasks s \<and> localStorage (formTimeout k s) = localStorage s \<and>
   taskTableBody (formTimeout k s) = taskTableBody s \<and> effects (formTimeout k s) = effects s"
  by (simp_all add: iframeLoad_def iframeError_def formTimeout_def cleanup_def
      showSaveMessage_def Let_def)

subsection \<open>A blank title\<close>

text \<open>
  C3. When the title input is empty or holds white space only, \<open>addTask\<close>
  returns at once after one call of \<open>alert\<close>: the page is as it was but for that
  call. The task list, the storage, the table and the input are unchanged, and no
  \<open>fetch\<close> is made. The same holds of the form variant, which submits no form.
\<close>

theorem addTask_blank_title:
  assumes "\<forall>c \<in> set (taskTitleInput st). isWhiteSpace c"
  shows "addTask date st =
           (Returns None,
            st\<lparr>effects := effects st @ [Alert (js ''Please enter a task title.'')]\<rparr>) \<and>
         tasks (snd (addTask date st)) = tasks st \<and>
         localStorage (snd (addTask date st)) = localStorage st \<and>
         taskTableBody (snd (addTask date st)) = taskTableBody st \<and>
         taskTitleInput (snd (addTask date st)) = taskTitleInput st \<and>
         effects (snd (addTask date st)) =
           effects st @ [Alert (js ''Please enter a task title.'')] \<and>
         filter isFetch (effects (snd (addTask date st))) = filter isFetch (effects st) \<and>
         addTask_form date time submitThrows st =
           (Returns None,
            st\<lparr>effects := effects st @ [Alert (js ''Please enter a task title.'')]\<rparr>) \<and>
         filter isSubmit (effects (snd (addTask_form date time submitThrows st))) =
           filter isSubmit (effects st) \<and>
         forms (snd (addTask_form date time submitThrows st)) = forms st"
proof -
  have "trim (taskTitleInput st) = []" using assms by (simp add: trim_Nil_iff)
  then show ?thesis by (simp add: addTask_def addTask_form_blank)
qed

theorem addTask_blank_title_witness:
  "addTask sampleClock (emptyPage\<lparr>taskTitleInput := [0x20, 0x09, 0x3000]\<rparr>) =
     (Returns None, emptyPage\<lparr>taskTitleInput := [0x20, 0x09, 0x3000],
                   effects := [Alert (js ''Please enter a task title.'')]\<rparr>)"
  using addTask_blank_title [of "emptyPage\<lparr>taskTitleInput := [0x20, 0x09, 0x3000]\<rparr>" sampleClock]
  by (simp add: isWhiteSpace_def emptyPage_def)

subsection \<open>An accepted title\<close>

lemma blankPage_new:
  "trim (taskTitleInput (emptyPage\<lparr>taskTitleInput := js ''  Buy milk ''\<rparr>)) \<noteq> []"
  "newTaskOf sampleClock (emptyPage\<lparr>taskTitleInput := js ''  Buy milk ''\<rparr>) = milk"
  "tasks (emptyPage\<lparr>taskTitleInput := js ''  Buy milk ''\<rparr>) = []"
  "effects (emptyPage\<lparr>taskTitleInput := js ''  Buy milk ''\<rparr>) = []"
  "fits (emptyPage\<lparr>taskTitleInput := js ''  Buy milk ''\<rparr>) [milk]"
  by (simp_all add: trim_titles js_not_Nil newTaskOf_def milk_def [symmetric] sampleClock_def
      emptyPage_def fits_def STORAGE_KEY_def stringify_tasks_def JSON_array_def length_milk)
    (simp_all add: milk_def js_def)

lemma feastPage_new:
  "trim (taskTitleInput (milkPage\<lparr>taskTitleInput := js ''Buy everything for the feast''\<rparr>)) \<noteq> []"
  "newTaskOf feastClock (milkPage\<lparr>taskTitleInput := js ''Buy everything for the feast''\<rparr>) = feast"
  "tasks (milkPage\<lparr>taskTitleInput := js ''Buy everything for the feast''\<rparr>) = [milk]"
  "\<not> fits (milkPage\<lparr>taskTitleInput := js ''Buy everything for the feast''\<rparr>) [milk, feast]"
  "localStorage (milkPage\<lparr>taskTitleInput := js ''Buy everything for the feast''\<rparr>) =
     storedAs (stringify_tasks [milk])"
  using length_milk_feast(1)
  by (simp_all add: trim_titles js_not_Nil newTaskOf_def milkPage_eq smallPage_fields
      feast_def feastClock_def fits_def)

text \<open>
  C7. When the title input is not empty after trimming, \<open>addTask\<close> appends one
  task to the end of the list: its id is the reading of \<open>Date.now()\<close>, its title is
  the input without the white space at its two ends (what was cut off is white
  space, what is left begins and ends with another character and is not empty), its
  status is the value of the selector, its createdAt is the reading of
  \<open>toLocaleString()\<close>. When the text of the new list fits the storage, it is
  stored, \<open>loadTasks\<close> reads the new list back, and the function returns no value.
  When it does not fit, the function ends with the QuotaExceededError of \<open>setItem\<close>:
  the task is in the list, and the storage, the table, the input and the calls made
  are as they were. The form variant does the same to the list and the storage.
\<close>

theorem addTask_new_task:
  assumes "trim (taskTitleInput st) \<noteq> []"
    and "wellFormed (tasks st @ [newTaskOf date st])"
  shows "tasks (snd (addTask date st)) = tasks st @ [newTaskOf date st] \<and>
    id_of (newTaskOf date st) = now date \<and>
    title (newTaskOf date st) = trim (taskTitleInput st) \<and>
    status (newTaskOf date st) = taskStatusSelect st \<and>
    createdAt (newTaskOf date st) = toLocaleString date \<and>
    title (newTaskOf date st) \<noteq> [] \<and>
    \<not> isWhiteSpace (hd (title (newTaskOf date st))) \<and>
    \<not> isWhiteSpace (last (title (newTaskOf date st))) \<and>
    (\<exists>pre post. taskTitleInput st = pre @ title (newTaskOf date st) @ post \<and>
       (\<forall>c \<in> set pre. isWhiteSpace c) \<and> (\<forall>c \<in> set post. isWhiteSpace c)) \<and>
    (fits st (tasks st @ [newTaskOf date st]) \<longrightarrow>
       fst (addTask date st) = Returns None \<and>
       localStorage (snd (addTask date st)) STORAGE_KEY =
         Some (stringify_tasks (tasks st @ [newTaskOf date st])) \<and>
       loadTasks (localStorage (snd (addTask date st))) =
         map task_json (tasks st @ [newTaskOf date st])) \<and>
    (\<not> fits st (tasks st @ [newTaskOf date st]) \<longrightarrow>
       fst (addTask date st) = Throws QuotaExceededError \<and>
       localStorage (snd (addTask date st)) = localStorage st \<and>
       taskTableBody (snd (addTask date st)) = taskTableBody st \<and>
       taskTitleInput (snd (addTask date st)) = taskTitleInput st \<and>
       effects (snd (addTask date st)) = effects st) \<and>
    (\<forall>time submitThrows.
       fst (addTask_form date time submitThrows st) = fst (addTask date st) \<and>
       tasks (snd (addTask_form date time submitThrows st)) = tasks (snd (addTask date st)) \<and>
       localStorage (snd (addTask_form date time submitThrows st)) =
         localStorage (snd (addTask date st)))"
proof -
  have appended: "tasks (snd (addTask date st)) = tasks st @ [newTaskOf date st]"
    by (cases "fits st (tasks st @ [newTaskOf date st])")
      (simp_all add: addTask_accepted [OF assms(1)] addTask_refused [OF assms(1)])
  have fields: "id_of (newTaskOf date st) = now date \<and>
      title (newTaskOf date st) = trim (taskTitleInput st) \<and>
      status (newTaskOf date st) = taskStatusSelect st \<and>
      createdAt (newTaskOf date st) = toLocaleString date"
    by (simp add: newTaskOf_def)
  have trimmed: "title (newTaskOf date st) \<noteq> [] \<and>
      \<not> isWhiteSpace (hd (title (newTaskOf date st))) \<and>
      \<not> isWhiteSpace (last (title (newTaskOf date st))) \<and>
      (\<exists>pre post. taskTitleInput st = pre @ title (newTaskOf date st) @ post \<and>
         (\<forall>c \<in> set pre. isWhiteSpace c) \<and> (\<forall>c \<in> set post. isWhiteSpace c))"
    using trim_split [of "taskTitleInput st"] trim_ends [OF assms(1)] assms(1) fields
    by simp
  have stored: "fst (addTask date st) = Returns None \<and>
       localStorage (snd (addTask date st)) STORAGE_KEY =
         Some (stringify_tasks (tasks st @ [newTaskOf date st])) \<and>
       loadTasks (localStorage (snd (addTask date st))) =
         map task_json (tasks st @ [newTaskOf date st])"
    if f: "fits st (tasks st @ [newTaskOf date st])"
  proof -
    have s: "localStorage (snd (addTask date st)) STORAGE_KEY =
         Some (stringify_tasks (tasks st @ [newTaskOf date st]))"
      by (simp add: addTask_accepted [OF assms(1) f])
    have "loadTasks (localStorage (snd (addTask date st))) =
        map task_json (tasks st @ [newTaskOf date st])"
      using s by (rule loadTasks_stored)
    with s show ?thesis
      by (simp add: addTask_accepted [OF assms(1) f])
  qed
  have refused: "fst (addTask date st) = Throws QuotaExceededError \<and>
       localStorage (snd (addTask date st)) = localStorage st \<and>
       taskTableBody (snd (addTask date st)) = taskTableBody st \<and>
       taskTitleInput (snd (addTask date st)) = taskTitleInput st \<and>
       effects (snd (addTask date st)) = effects st"
    if f: "\<not> fits st (tasks st @ [newTaskOf date st])"
    by (simp add: addTask_refused [OF assms(1) f])
  have form: "\<forall>time submitThrows.
       fst (addTask_form date time submitThrows st) = fst (addTask date st) \<and>
       tasks (snd (addTask_form date time submitThrows st)) = tasks (snd (addTask date st)) \<and>
       localStorage (snd (addTask_form date time submitThrows st)) =
         localStorage (snd (addTask date st))"
    by (simp add: addTask_form_local)
  from appended fields trimmed stored refused form show ?thesis by blast
qed

theorem addTask_new_task_witness:
  "fst (addTask sampleClock (emptyPage\<lparr>taskTitleInput := js ''  Buy milk ''\<rparr>)) = Returns None \<and>
   tasks (snd (addTask sampleClock (emptyPage\<lparr>taskTitleInput := js ''  Buy milk ''\<rparr>))) = [milk] \<and>
   localStorage (snd (addTask sampleClock (emptyPage\<lparr>taskTitleInput := js ''  Buy milk ''\<rparr>)))
     STORAGE_KEY = Some (stringify_tasks [milk]) \<and>
   fst (addTask feastClock (milkPage\<lparr>taskTitleInput := js ''Buy everything for the feast''\<rparr>)) =
     Throws QuotaExceededError \<and>
   tasks (snd (addTask feastClock
     (milkPage\<lparr>taskTitleInput := js ''Buy everything for the feast''\<rparr>))) = [milk, feast] \<and>
   localStorage (snd (addTask feastClock
     (milkPage\<lparr>taskTitleInput := js ''Buy everything for the feast''\<rparr>))) =
     storedAs (stringify_tasks [milk])"
proof -
  have wf1: "wellFormed (tasks (emptyPage\<lparr>taskTitleInput := js ''  Buy milk ''\<rparr>) @
      [newTaskOf sampleClock (emptyPage\<lparr>taskTitleInput := js ''  Buy milk ''\<rparr>)])"
    unfolding blankPage_new by (simp add: wellFormed_def milk_def)
  have a: "fst (addTask sampleClock (emptyPage\<lparr>taskTitleInput := js ''  Buy milk ''\<rparr>)) =
      Returns None \<and>
    tasks (snd (addTask sampleClock (emptyPage\<lparr>taskTitleInput := js ''  Buy milk ''\<rparr>))) =
      [] @ [milk] \<and>
    localStorage (snd (addTask sampleClock (emptyPage\<lparr>taskTitleInput := js ''  Buy milk ''\<rparr>)))
      STORAGE_KEY = Some (stringify_tasks ([] @ [milk]))"
    using addTask_new_task [OF blankPage_new(1) wf1] blankPage_new(5)
    unfolding blankPage_new(2,3) append_Nil by blast
  have wf2: "wellFormed (tasks (milkPage\<lparr>taskTitleInput := js ''Buy everything for the feast''\<rparr>) @
      [newTaskOf feastClock (milkPage\<lparr>taskTitleInput := js ''Buy everything for the feast''\<rparr>)])"
    unfolding feastPage_new using wellFormed_examples(1) by simp
  have b: "fst (addTask feastClock (milkPage\<lparr>taskTitleInput := js ''Buy everything for the feast''\<rparr>)) =
       Throws QuotaExceededError \<and>
     tasks (snd (addTask feastClock
       (milkPage\<lparr>taskTitleInput := js ''Buy everything for the feast''\<rparr>))) = [milk] @ [feast] \<and>
     localStorage (snd (addTask feastClock
       (milkPage\<lparr>taskTitleInput := js ''Buy everything for the feast''\<rparr>))) =
       storedAs (stringify_tasks [milk])"
    using addTask_new_task [OF feastPage_new(1) wf2] feastPage_new(4)
    unfolding feastPage_new(2,3,5) append_Cons append_Nil by blast
  from a b show ?thesis by simp
qed

text \<open>
  With the title \<open>Buy milk\<close> between spaces the new task is \<open>milk\<close>, and what
  \<open>addTask\<close> returns is not that task. On the page whose storage has room for
  \<open>milk\<close> alone, \<open>addTask\<close> with a second title throws: the second task is in the
  list, and the storage still holds the text of the first alone.
\<close>

theorem addTask_returns_nothing:
  "fst (addTask sampleClock (emptyPage\<lparr>taskTitleInput := js ''  Buy milk ''\<rparr>)) \<noteq>
     Returns (Some milk) \<and>
   tasks (snd (addTask sampleClock (emptyPage\<lparr>taskTitleInput := js ''  Buy milk ''\<rparr>))) = [milk] \<and>
   fst (addTask feastClock (milkPage\<lparr>taskTitleInput := js ''Buy everything for the feast''\<rparr>)) =
     Throws QuotaExceededError \<and>
   tasks fullPage = [milk, feast] \<and>
   localStorage fullPage STORAGE_KEY = Some (stringify_tasks [milk]) \<and>
   stringify_tasks [milk] \<noteq> stringify_tasks [milk, feast]"
proof -
  have a: "addTask sampleClock (emptyPage\<lparr>taskTitleInput := js ''  Buy milk ''\<rparr>) =
      (Returns None, snd (addTask sampleClock (emptyPage\<lparr>taskTitleInput := js ''  Buy milk ''\<rparr>)))"
    "tasks (snd (addTask sampleClock (emptyPage\<lparr>taskTitleInput := js ''  Buy milk ''\<rparr>))) = [milk]"
    using blankPage_new(5)
    by (simp_all add: addTask_accepted [OF blankPage_new(1)] blankPage_new(2,3))
  have f: "\<not> fits (milkPage\<lparr>taskTitleInput := js ''Buy everything for the feast''\<rparr>)
      (tasks (milkPage\<lparr>taskTitleInput := js ''Buy everything for the feast''\<rparr>) @
       [newTaskOf feastClock (milkPage\<lparr>taskTitleInput := js ''Buy everything for the feast''\<rparr>)])"
    unfolding feastPage_new(2,3) using feastPage_new(4) by simp
  have b: "fst (addTask feastClock (milkPage\<lparr>taskTitleInput := js ''Buy everything for the feast''\<rparr>)) =
     Throws QuotaExceededError"
    by (simp add: addTask_refused [OF feastPage_new(1) f])
  have c: "stringify_tasks [milk] \<noteq> stringify_tasks [milk, feast]"
    using length_milk_feast(1) by auto
  have "fst (addTask sampleClock (emptyPage\<lparr>taskTitleInput := js ''  Buy milk ''\<rparr>)) \<noteq>
     Returns (Some milk)"
    by (subst a(1)) simp
  with a(2) b c show ?thesis
    by (simp add: fullPage_fields storedAs_def)
qed

text \<open>
  C8. The calls an accepted \<open>addTask\<close> makes when the text of the new list fits
  the storage are, in this order: \<open>setItem\<close> with the text of the whole list, the
  rebuild of the table with one row per task, the \<open>fetch\<close> for the new task,
  \<open>focus\<close>. In the form variant the third call is the submission of the form, or,
  when \<open>submit\<close> throws, the \<open>console.error\<close> of its \<open>catch\<close> clause. Either
  function ends without the outcome of the transmission, with the list stored and
  shown. When the text does not fit, either function ends at \<open>setItem\<close> and makes
  no call at all: nothing is sent. Whatever the page, the continuation of the
  request, however the request is settled, and the three callbacks of a form leave
  the task list, the storage and the table as they are, and send nothing.
\<close>

theorem addTask_local_before_remote:
  assumes "trim (taskTitleInput st) \<noteq> []"
    and "wellFormed (tasks st @ [newTaskOf date st])"
    and "safeInteger time"
  shows
   "(fits st (tasks st @ [newTaskOf date st]) \<longrightarrow>
      fst (addTask date st) = Returns None \<and>
      effects (snd (addTask date st)) =
        effects st @
          [SetItem STORAGE_KEY (stringify_tasks (tasks st @ [newTaskOf date st])),
           Render (map taskRow (tasks st @ [newTaskOf date st])),
           Fetch \<lparr>url = API_URL, http_method = js ''POST'',
                  headers = [(js ''Content-Type'', js ''text/plain;charset=utf-8'')],
                  body = JSON_object
                    [JSON_member ''title'' (QuoteJSONString (title (newTaskOf date st))),
                     JSON_member ''status'' (QuoteJSONString (status (newTaskOf date st)))]\<rparr>,
           Focus] \<and>
      localStorage (snd (addTask date st)) STORAGE_KEY =
        Some (stringify_tasks (tasks st @ [newTaskOf date st])) \<and>
      taskTableBody (snd (addTask date st)) = map taskRow (tasks st @ [newTaskOf date st]) \<and>
      effects (snd (addTask_form date time None st)) =
        effects st @
          [SetItem STORAGE_KEY (stringify_tasks (tasks st @ [newTaskOf date st])),
           Render (map taskRow (tasks st @ [newTaskOf date st])),
           Submit \<lparr>action = FORM_ACTION_URL,
                   target = js ''google-form-target-'' @ Number_toString time,
                   inputs = [(js ''entry.1486922306'', title (newTaskOf date st)),
                             (js ''entry.1852717744'', status (newTaskOf date st)),
                             (js ''entry.1431330731'', createdAt (newTaskOf date st))]\<rparr>,
           Focus] \<and>
      (\<forall>error. effects (snd (addTask_form date time (Some error) st)) =
        effects st @
          [SetItem STORAGE_KEY (stringify_tasks (tasks st @ [newTaskOf date st])),
           Render (map taskRow (tasks st @ [newTaskOf date st])),
           ConsoleError [js ''Could not save to Google Sheet:'', error],
           Focus]) \<and>
      (\<forall>submitThrows.
         fst (addTask_form date time submitThrows st) = Returns None \<and>
         localStorage (snd (addTask_form date time submitThrows st)) STORAGE_KEY =
           Some (stringify_tasks (tasks st @ [newTaskOf date st])) \<and>
         taskTableBody (snd (addTask_form date time submitThrows st)) =
           map taskRow (tasks st @ [newTaskOf date st]))) \<and>
    (\<not> fits st (tasks st @ [newTaskOf date st]) \<longrightarrow>
      fst (addTask date st) = Throws QuotaExceededError \<and>
      effects (snd (addTask date st)) = effects st \<and>
      (\<forall>submitThrows.
         fst (addTask_form date time submitThrows st) = Throws QuotaExceededError \<and>
         effects (snd (addTask_form date time submitThrows st)) = effects st)) \<and>
    (\<forall>outcome s.
       tasks (sendTaskToSheet_settled outcome s) = tasks s \<and>
       localStorage (sendTaskToSheet_settled outcome s) = localStorage s \<and>
       taskTableBody (sendTaskToSheet_settled outcome s) = taskTableBody s \<and>
       filter isFetch (effects (sendTaskToSheet_settled outcome s)) =
         filter isFetch (effects s)) \<and>
    (\<forall>k s.
       tasks (iframeLoad k s) = tasks s \<and> localStorage (iframeLoad k s) = localStorage s \<and>
       taskTableBody (iframeLoad k s) = taskTableBody s \<and>
       effects (iframeLoad k s) = effects s \<and>
       tasks (iframeError k s) = tasks s \<and> localStorage (iframeError k s) = localStorage s \<and>
       taskTableBody (iframeError k s) = taskTableBody s \<and>
       effects (iframeError k s) = effects s \<and>
       tasks (formTimeout k s) = tasks s \<and> localStorage (formTimeout k s) = localStorage s \<and>
       taskTableBody (formTimeout k s) = taskTableBody s \<and>
       effects (formTimeout k s) = effects s)"
proof -
  have new: "title (newTaskOf date st) = trim (taskTitleInput st)"
    "status (newTaskOf date st) = taskStatusSelect st"
    "createdAt (newTaskOf date st) = toLocaleString date"
    by (simp_all add: newTaskOf_def)
  have accepted: "fst (addTask date st) = Returns None \<and>
      effects (snd (addTask date st)) =
        effects st @
          [SetItem STORAGE_KEY (stringify_tasks (tasks st @ [newTaskOf date st])),
           Render (map taskRow (tasks st @ [newTaskOf date st])),
           Fetch \<lparr>url = API_URL, http_method = js ''POST'',
                  headers = [(js ''Content-Type'', js ''text/plain;charset=utf-8'')],
                  body = JSON_object
                    [JSON_member ''title'' (QuoteJSONString (title (newTaskOf date st))),
                     JSON_member ''status'' (QuoteJSONString (status (newTaskOf date st)))]\<rparr>,
           Focus] \<and>
      localStorage (snd (addTask date st)) STORAGE_KEY =
        Some (stringify_tasks (tasks st @ [newTaskOf date st])) \<and>
      taskTableBody (snd (addTask date st)) = map taskRow (tasks st @ [newTaskOf date st]) \<and>
      effects (snd (addTask_form date time None st)) =
        effects st @
          [SetItem STORAGE_KEY (stringify_tasks (tasks st @ [newTaskOf date st])),
           Render (map taskRow (tasks st @ [newTaskOf date st])),
           Submit \<lparr>action = FORM_ACTION_URL,
                   target = js ''google-form-target-'' @ Number_toString time,
                   inputs = [(js ''entry.1486922306'', title (newTaskOf date st)),
                             (js ''entry.1852717744'', status (newTaskOf date st)),
                             (js ''entry.1431330731'', createdAt (newTaskOf date st))]\<rparr>,
           Focus] \<and>
      (\<forall>error. effects (snd (addTask_form date time (Some error) st)) =
        effects st @
          [SetItem STORAGE_KEY (stringify_tasks (tasks st @ [newTaskOf date st])),
           Render (map taskRow (tasks st @ [newTaskOf date st])),
           ConsoleError [js ''Could not save to Google Sheet:'', error],
           Focus]) \<and>
      (\<forall>submitThrows.
         fst (addTask_form date time submitThrows st) = Returns None \<and>
         localStorage (snd (addTask_form date time submitThrows st)) STORAGE_KEY =
           Some (stringify_tasks (tasks st @ [newTaskOf date st])) \<and>
         taskTableBody (snd (addTask_form date time submitThrows st)) =
           map taskRow (tasks st @ [newTaskOf date st]))"
    if f: "fits st (tasks st @ [newTaskOf date st])"
  proof -
    have fetch: "fst (addTask date st) = Returns None \<and>
      effects (snd (addTask date st)) =
        effects st @
          [SetItem STORAGE_KEY (stringify_tasks (tasks st @ [newTaskOf date st])),
           Render (map taskRow (tasks st @ [newTaskOf date st])),
           Fetch \<lparr>url = API_URL, http_method = js ''POST'',
                  headers = [(js ''Content-Type'', js ''text/plain;charset=utf-8'')],
                  body = JSON_object
                    [JSON_member ''title'' (QuoteJSONString (title (newTaskOf date st))),
                     JSON_member ''status'' (QuoteJSONString (status (newTaskOf date st)))]\<rparr>,
           Focus] \<and>
      localStorage (snd (addTask date st)) STORAGE_KEY =
        Some (stringify_tasks (tasks st @ [newTaskOf date st])) \<and>
      taskTableBody (snd (addTask date st)) = map taskRow (tasks st @ [newTaskOf date st])"
      unfolding new by (simp add: addTask_accepted [OF assms(1) f])
    have submitted: "effects (snd (addTask_form date time None st)) =
        effects st @
          [SetItem STORAGE_KEY (stringify_tasks (tasks st @ [newTaskOf date st])),
           Render (map taskRow (tasks st @ [newTaskOf date st])),
           Submit \<lparr>action = FORM_ACTION_URL,
                   target = js ''google-form-target-'' @ Number_toString time,
                   inputs = [(js ''entry.1486922306'', title (newTaskOf date st)),
                             (js ''entry.1852717744'', status (newTaskOf date st)),
                             (js ''entry.1431330731'', createdAt (newTaskOf date st))]\<rparr>,
           Focus]"
      unfolding new by (simp add: addTask_form_submitted [OF assms(1) f])
    have thrown: "\<forall>error. effects (snd (addTask_form date time (Some error) st)) =
        effects st @
          [SetItem STORAGE_KEY (stringify_tasks (tasks st @ [newTaskOf date st])),
           Render (map taskRow (tasks st @ [newTaskOf date st])),
           ConsoleError [js ''Could not save to Google Sheet:'', error],
           Focus]"
      by (simp add: addTask_form_submit_throws [OF assms(1) f])
    have local: "\<forall>submitThrows.
         fst (addTask_form date time submitThrows st) = Returns None \<and>
         localStorage (snd (addTask_form date time submitThrows st)) STORAGE_KEY =
           Some (stringify_tasks (tasks st @ [newTaskOf date st])) \<and>
         taskTableBody (snd (addTask_form date time submitThrows st)) =
           map taskRow (tasks st @ [newTaskOf date st])"
      using fetch by (simp add: addTask_form_local)
    from fetch submitted thrown local show ?thesis by blast
  qed
  have refused: "fst (addTask date st) = Throws QuotaExceededError \<and>
      effects (snd (addTask date st)) = effects st \<and>
      (\<forall>submitThrows.
         fst (addTask_form date time submitThrows st) = Throws QuotaExceededError \<and>
         effects (snd (addTask_form date time submitThrows st)) = effects st)"
    if f: "\<not> fits st (tasks st @ [newTaskOf date st])"
    by (simp add: addTask_refused [OF assms(1) f] addTask_form_refused [OF assms(1) f])
  have settled: "\<forall>outcome s.
       tasks (sendTaskToSheet_settled outcome s) = tasks s \<and>
       localStorage (sendTaskToSheet_settled outcome s) = localStorage s \<and>
       taskTableBody (sendTaskToSheet_settled outcome s) = taskTableBody s \<and>
       filter isFetch (effects (sendTaskToSheet_settled outcome s)) =
         filter isFetch (effects s)"
    by (simp add: sendTaskToSheet_settled_frame)
  have callbacks: "\<forall>k s.
       tasks (iframeLoad k s) = tasks s \<and> localStorage (iframeLoad k s) = localStorage s \<and>
       taskTableBody (iframeLoad k s) = taskTableBody s \<and>
       effects (iframeLoad k s) = effects s \<and>
       tasks (iframeError k s) = tasks s \<and> localStorage (iframeError k s) = localStorage s \<and>
       taskTableBody (iframeError k s) = taskTableBody s \<and>
       effects (iframeError k s) = effects s \<and>
       tasks (formTimeout k s) = tasks s \<and> localStorage (formTimeout k s) = localStorage s \<and>
       taskTableBody (formTimeout k s) = taskTableBody s \<and>
       effects (formTimeout k s) = effects s"
    by (simp add: form_callbacks_frame)
  from accepted refused settled callbacks show ?thesis by blast
qed

theorem addTask_local_before_remote_witness:
  "effects (snd (addTask sampleClock (emptyPage\<lparr>taskTitleInput := js ''  Buy milk ''\<rparr>))) =
      [SetItem STORAGE_KEY (stringify_tasks [milk]),
       Render [taskRow milk],
       Fetch \<lparr>url = API_URL, http_method = js ''POST'',
              headers = [(js ''Content-Type'', js ''text/plain;charset=utf-8'')],
              body = JSON_object
                [JSON_member ''title'' (QuoteJSONString (js ''Buy milk'')),
                 JSON_member ''status'' (QuoteJSONString (js ''pending''))]\<rparr>,
       Focus] \<and>
   effects (snd (addTask_form sampleClock 1700000000005 None
       (emptyPage\<lparr>taskTitleInput := js ''  Buy milk ''\<rparr>))) =
      [SetItem STORAGE_KEY (stringify_tasks [milk]),
       Render [taskRow milk],
       Submit \<lparr>action = FORM_ACTION_URL,
               target = js ''google-form-target-1700000000005'',
               inputs = [(js ''entry.1486922306'', js ''Buy milk''),
                         (js ''entry.1852717744'', js ''pending''),
                         (js ''entry.1431330731'', js ''11/14/2023, 10:13:20 PM'')]\<rparr>,
       Focus] \<and>
   fst (addTask feastClock (milkPage\<lparr>taskTitleInput := js ''Buy everything for the feast''\<rparr>)) =
     Throws QuotaExceededError \<and>
   effects (snd (addTask feastClock
       (milkPage\<lparr>taskTitleInput := js ''Buy everything for the feast''\<rparr>))) = effects milkPage \<and>
   effects (snd (addTask_form feastClock 1700000000005 None
       (milkPage\<lparr>taskTitleInput := js ''Buy everything for the feast''\<rparr>))) = effects milkPage"
proof -
  have safe: "safeInteger 1700000000005" by (simp add: safeInteger_def)
  have name: "js ''google-form-target-'' @ Number_toString 1700000000005 =
      js ''google-form-target-1700000000005''"
    by (simp add: Number_toString_def digits.simps digitChar_def js_def)
  have milk: "title milk = js ''Buy milk''" "status milk = js ''pending''"
    "createdAt milk = js ''11/14/2023, 10:13:20 PM''"
    by (simp_all add: milk_def)
  have wf1: "wellFormed (tasks (emptyPage\<lparr>taskTitleInput := js ''  Buy milk ''\<rparr>) @
      [newTaskOf sampleClock (emptyPage\<lparr>taskTitleInput := js ''  Buy milk ''\<rparr>)])"
    unfolding blankPage_new by (simp add: wellFormed_def milk_def)
  have a: "effects (snd (addTask sampleClock (emptyPage\<lparr>taskTitleInput := js ''  Buy milk ''\<rparr>))) =
      [] @ [SetItem STORAGE_KEY (stringify_tasks ([] @ [milk])),
       Render (map taskRow ([] @ [milk])),
       Fetch \<lparr>url = API_URL, http_method = js ''POST'',
              headers = [(js ''Content-Type'', js ''text/plain;charset=utf-8'')],
              body = JSON_object
                [JSON_member ''title'' (QuoteJSONString (js ''Buy milk'')),
                 JSON_member ''status'' (QuoteJSONString (js ''pending''))]\<rparr>,
       Focus] \<and>
   effects (snd (addTask_form sampleClock 1700000000005 None
       (emptyPage\<lparr>taskTitleInput := js ''  Buy milk ''\<rparr>))) =
      [] @ [SetItem STORAGE_KEY (stringify_tasks ([] @ [milk])),
       Render (map taskRow ([] @ [milk])),
       Submit \<lparr>action = FORM_ACTION_URL,
               target = js ''google-form-target-1700000000005'',
               inputs = [(js ''entry.1486922306'', js ''Buy milk''),
                         (js ''entry.1852717744'', js ''pending''),
                         (js ''entry.1431330731'', js ''11/14/2023, 10:13:20 PM'')]\<rparr>,
       Focus]"
    using addTask_local_before_remote [OF blankPage_new(1) wf1 safe] blankPage_new(5)
    unfolding blankPage_new(2,3,4) append_Nil milk name by blast
  have wf2: "wellFormed (tasks (milkPage\<lparr>taskTitleInput := js ''Buy everything for the feast''\<rparr>) @
      [newTaskOf feastClock (milkPage\<lparr>taskTitleInput := js ''Buy everything for the feast''\<rparr>)])"
    unfolding feastPage_new using wellFormed_examples(1) by simp
  have e: "effects (milkPage\<lparr>taskTitleInput := js ''Buy everything for the feast''\<rparr>) =
      effects milkPage"
    by simp
  have b: "fst (addTask feastClock (milkPage\<lparr>taskTitleInput := js ''Buy everything for the feast''\<rparr>)) =
      Throws QuotaExceededError \<and>
    effects (snd (addTask feastClock
       (milkPage\<lparr>taskTitleInput := js ''Buy everything for the feast''\<rparr>))) = effects milkPage \<and>
    effects (snd (addTask_form feastClock 1700000000005 None
       (milkPage\<lparr>taskTitleInput := js ''Buy everything for the feast''\<rparr>))) = effects milkPage"
    using addTask_local_before_remote [OF feastPage_new(1) wf2 safe] feastPage_new(4)
    unfolding feastPage_new(2,3) e append_Cons append_Nil by blast
  from a b show ?thesis by simp
qed

section \<open>The request to the sheet\<close>

lemma objectOf_payload:
  "objectOf [(js ''title'', a), (js ''status'', b)] = JObject [(js ''title'', a), (js ''status'', b)]"
  by (simp add: objectOf_def defineProperty_def js_def)

lemma JSON_parse_payload:
  "JSON_parse (JSON_object [JSON_member ''title'' (QuoteJSONString a),
                            JSON_member ''status'' (QuoteJSONString b)]) =
   Some (JObject [(js ''title'', JString a), (js ''status'', JString b)])"
proof -
  define payload where "payload = JSON_object [JSON_member ''title'' (QuoteJSONString a),
                            JSON_member ''status'' (QuoteJSONString b)]"
  have p: "payload = 0x7B # JSON_member ''title'' (QuoteJSONString a) @
                     0x2C # JSON_member ''status'' (QuoteJSONString b) @ 0x7D # []"
    by (simp add: payload_def JSON_object_def)
  have "4 \<le> length payload"
    unfolding p by (simp add: JSON_member_def QuoteJSONString_def)
  then obtain n where "length payload = 4 + n" using le_Suc_ex by blast
  then have n: "length payload = Suc (Suc (Suc (Suc n)))" by simp
  have ws: "skipWs payload = payload"
    unfolding p by (rule skipWs_Cons) (simp add: isJSONWhiteSpace_def)
  have m2: "parseMembers (Suc (Suc n))
      (JSON_member ''status'' (QuoteJSONString b) @ 0x7D # []) =
      Some ([(js ''status'', JString b)], [])"
    by (rule parseMembers_last) (rule parseValue_string skipWs_string)+
  have m1: "parseMembers (Suc (Suc (Suc n)))
      (JSON_member ''title'' (QuoteJSONString a) @
       0x2C # JSON_member ''status'' (QuoteJSONString b) @ 0x7D # []) =
      Some ([(js ''title'', JString a), (js ''status'', JString b)], [])"
    by (subst parseMembers_more, rule parseValue_string, rule skipWs_string)
       (simp only: skipWs_member m2 option.case prod.case)
  have "parseValue (length payload) payload =
      Some (JObject [(js ''title'', JString a), (js ''status'', JString b)], [])"
    unfolding n unfolding p parseValue_object m1 by (simp add: objectOf_payload)
  then show ?thesis
    unfolding payload_def [symmetric] JSON_parse_def ws by (simp add: skipWs_def)
qed

lemma showSaveMessage_fields:
  "textContent (saveMessage (showSaveMessage m e s)) = m \<and>
   ''visible'' \<in> classList (saveMessage (showSaveMessage m e s)) \<and>
   (''error'' \<in> classList (saveMessage (showSaveMessage m e s)) \<longleftrightarrow> e) \<and>
   timers (showSaveMessage m e s) = timers s @ [1800] \<and>
   effects (showSaveMessage m e s) = effects s \<and>
   ''visible'' \<notin> classList (saveMessage (timerFires (showSaveMessage m e s)))"
  by (auto simp: showSaveMessage_def timerFires_def Let_def split: list.split)

text \<open>
  C9. \<open>sendTaskToSheet\<close> makes one \<open>fetch\<close>, a POST to the configured address
  whose body is the JSON text of the object with the two properties \<open>title\<close> and
  \<open>status\<close> of the task: parsed, the body is exactly that object. On a response
  that is \<open>ok\<close> the message reads \<open>Saved to Sheet\<close> without the class
  \<open>error\<close>, and nothing is logged. On a response that is not \<open>ok\<close> the status
  and the text of the response are logged; when the request or the reading of the
  response fails, the error is logged; in both cases the message reads
  \<open>Could not save to Sheet. Please try again.\<close> with the class \<open>error\<close>.
  In every case the message is made visible, a timer of 1800 ms is set and the
  timer that fires next hides the message; no further \<open>fetch\<close> is made, and the
  task list and the storage are untouched.
\<close>

theorem sendTaskToSheet_reports:
  "effects (sendTaskToSheet task st) =
     effects st @
       [Fetch \<lparr>url = API_URL, http_method = js ''POST'',
               headers = [(js ''Content-Type'', js ''text/plain;charset=utf-8'')],
               body = JSON_object [JSON_member ''title'' (QuoteJSONString (title task)),
                                   JSON_member ''status'' (QuoteJSONString (status task))]\<rparr>] \<and>
   JSON_parse (JSON_object [JSON_member ''title'' (QuoteJSONString (title task)),
                            JSON_member ''status'' (QuoteJSONString (status task))]) =
     Some (JObject [(js ''title'', JString (title task)), (js ''status'', JString (status task))]) \<and>
   (ok response \<longrightarrow>
      textContent (saveMessage (sendTaskToSheet_settled (Fulfilled response) st)) =
        js ''Saved to Sheet'' \<and>
      ''error'' \<notin> classList (saveMessage (sendTaskToSheet_settled (Fulfilled response) st)) \<and>
      effects (sendTaskToSheet_settled (Fulfilled response) st) = effects st) \<and>
   (\<not> ok response \<and> text_promise response = Fulfilled responseText \<longrightarrow>
      textContent (saveMessage (sendTaskToSheet_settled (Fulfilled response) st)) =
        js ''Could not save to Sheet. Please try again.'' \<and>
      ''error'' \<in> classList (saveMessage (sendTaskToSheet_settled (Fulfilled response) st)) \<and>
      effects (sendTaskToSheet_settled (Fulfilled response) st) =
        effects st @
          [ConsoleError [js ''Could not save to Google Sheet (HTTP '' @
                           Number_toString (int (status_code response)) @ js ''):'',
                         responseText]]) \<and>
   (\<not> ok response \<and> text_promise response = Rejected error \<longrightarrow>
      textContent (saveMessage (sendTaskToSheet_settled (Fulfilled response) st)) =
        js ''Could not save to Sheet. Please try again.'' \<and>
      ''error'' \<in> classList (saveMessage (sendTaskToSheet_settled (Fulfilled response) st)) \<and>
      effects (sendTaskToSheet_settled (Fulfilled response) st) =
        effects st @ [ConsoleError [js ''Could not save to Google Sheet:'', error]]) \<and>
   textContent (saveMessage (sendTaskToSheet_settled (Rejected error) st)) =
     js ''Could not save to Sheet. Please try again.'' \<and>
   ''error'' \<in> classList (saveMessage (sendTaskToSheet_settled (Rejected error) st)) \<and>
   effects (sendTaskToSheet_settled (Rejected error) st) =
     effects st @ [ConsoleError [js ''Could not save to Google Sheet:'', error]] \<and>
   ''visible'' \<in> classList (saveMessage (sendTaskToSheet_settled outcome st)) \<and>
   timers (sendTaskToSheet_settled outcome st) = timers st @ [1800] \<and>
   ''visible'' \<notin> classList (saveMessage (timerFires (sendTaskToSheet_settled outcome st))) \<and>
   filter isFetch (effects (sendTaskToSheet_settled outcome st)) = filter isFetch (effects st) \<and>
   tasks (sendTaskToSheet_settled outcome st) = tasks st \<and>
   localStorage (sendTaskToSheet_settled outcome st) = localStorage st"
proof -
  have settled:
    "''visible'' \<in> classList (saveMessage (sendTaskToSheet_settled outcome st)) \<and>
     timers (sendTaskToSheet_settled outcome st) = timers st @ [1800] \<and>
     ''visible'' \<notin> classList (saveMessage (timerFires (sendTaskToSheet_settled outcome st)))"
    by (simp add: sendTaskToSheet_settled_def sendTaskToSheet_catch_def showSaveMessage_fields
        console_error_def split: settled.split)
  show ?thesis
    using settled
    by (simp add: JSON_parse_payload sendTaskToSheet_settled_frame)
       (simp add: sendTaskToSheet_def sendTaskToSheet_settled_def sendTaskToSheet_catch_def
        showSaveMessage_fields console_error_def)
qed

theorem sendTaskToSheet_reports_witness:
  "textContent (saveMessage (sendTaskToSheet_settled
      (Fulfilled \<lparr>ok = True, status_code = 200, text_promise = Fulfilled []\<rparr>) emptyPage)) =
     js ''Saved to Sheet'' \<and>
   effects (sendTaskToSheet_settled
      (Fulfilled \<lparr>ok = False, status_code = 500, text_promise = Fulfilled (js ''busy'')\<rparr>) emptyPage) =
     [ConsoleError [js ''Could not save to Google Sheet (HTTP '' @ Number_toString 500 @ js ''):'',
                    js ''busy'']] \<and>
   effects (sendTaskToSheet_settled
      (Fulfilled \<lparr>ok = False, status_code = 500, text_promise = Rejected (js ''reset'')\<rparr>) emptyPage) =
     [ConsoleError [js ''Could not save to Google Sheet:'', js ''reset'']]"
  using sendTaskToSheet_reports [of milk emptyPage
      "\<lparr>ok = True, status_code = 200, text_promise = Fulfilled []\<rparr>"]
    sendTaskToSheet_reports [of milk emptyPage
      "\<lparr>ok = False, status_code = 500, text_promise = Fulfilled (js ''busy'')\<rparr>" "js ''busy''"]
    sendTaskToSheet_reports [of milk emptyPage
      "\<lparr>ok = False, status_code = 500, text_promise = Rejected (js ''reset'')\<rparr>" _ "js ''reset''"]
  by (simp add: emptyPage_def)

section \<open>The table\<close>

lemma hd_taskRow: "hd (taskRow t) = LF"
  by (simp add: taskRow_def)

lemma hd_emptyRow: "hd emptyRow = 0x3C"
  by (simp add: emptyRow_def js_def)

lemma taskRow_not_emptyRow: "taskRow t \<noteq> emptyRow"
proof
  assume "taskRow t = emptyRow"
  then have "hd (taskRow t) = hd emptyRow" by simp
  then show False by (simp add: hd_taskRow hd_emptyRow LF_def)
qed

lemma taskRows_map_taskRow: "taskRows (map taskRow ts) = map taskRow ts"
  by (simp add: taskRows_def taskRow_not_emptyRow)

lemma escapeHtml_milk: "escapeHtml (js ''Buy milk'') = js ''Buy milk''"
  by (simp add: escapeHtml_def innerText_set_def innerHTML_get_def js_def isLineBreak_def
      LF_def CR_def escapeChar_def)

text \<open>
  C6. \<open>renderTasks\<close> builds the table body from the task list alone, whatever
  rows were there before. When the list is empty the table body is one row, the
  placeholder: a single cell over the four columns, of class \<open>empty-row\<close>, with
  the text \<open>No tasks yet. Add one above.\<close> When the list is not empty there is one
  row per task in the order of the list, the row at an index holding the escaped
  title, the status, the createdAt string and a delete button whose \<open>data-id\<close> is
  the id of the task at that index. The number of rows that show a task is the
  number of tasks, and it is zero exactly when the table body is the placeholder
  row. The ids are safe integers, which the script writes as the model does.
\<close>

theorem renderTasks_rows:
  assumes \<open>wellFormed (tasks st)\<close>
  shows \<open>taskTableBody (renderTasks st) =
     (if tasks st = [] then [emptyRow] else map taskRow (tasks st)) \<and>
   emptyRow = js ''<td colspan="4" class="empty-row">No tasks yet. Add one above.</td>'' \<and>
   emptyRow = js ''<td colspan="4" class="empty-row">'' @ js ''No tasks yet. Add one above.'' @
     js ''</td>'' \<and>
   (tasks st = [] \<longrightarrow>
      taskTableBody (renderTasks st) =
        [js ''<td colspan="4" class="empty-row">No tasks yet. Add one above.</td>'']) \<and>
   taskTableBody (renderTasks (st\<lparr>taskTableBody := old\<rparr>)) = taskTableBody (renderTasks st) \<and>
   (tasks st \<noteq> [] \<longrightarrow>
      length (taskTableBody (renderTasks st)) = length (tasks st) \<and>
      (\<forall>i < length (tasks st).
         taskTableBody (renderTasks st) ! i =
           [LF] @ js ''      <td>'' @ escapeHtml (title (tasks st ! i)) @ js ''</td>'' @
           [LF] @ js ''      <td>'' @ status (tasks st ! i) @ js ''</td>'' @
           [LF] @ js ''      <td>'' @ createdAt (tasks st ! i) @ js ''</td>'' @
           [LF] @ js ''      <td><button class="delete-btn" data-id="'' @
             Number_toString (id_of (tasks st ! i)) @ js ''">Delete</button></td>'' @
           [LF] @ js ''    '')) \<and>
   length (taskRows (taskTableBody (renderTasks st))) = length (tasks st) \<and>
   (length (taskRows (taskTableBody (renderTasks st))) = 0 \<longleftrightarrow>
      taskTableBody (renderTasks st) =
        [js ''<td colspan="4" class="empty-row">No tasks yet. Add one above.</td>''])\<close>
proof -
  have body: "taskTableBody (renderTasks s) =
      (if tasks s = [] then [emptyRow] else map taskRow (tasks s))" for s
    by (simp add: renderTasks_def Let_def)
  have placeholder:
    \<open>emptyRow = js ''<td colspan="4" class="empty-row">No tasks yet. Add one above.</td>''\<close>
    by (rule emptyRow_def)
  have cell: \<open>emptyRow = js ''<td colspan="4" class="empty-row">'' @
      js ''No tasks yet. Add one above.'' @ js ''</td>''\<close>
    by (simp add: emptyRow_def js_def)
  have row: \<open>taskRow t =
           [LF] @ js ''      <td>'' @ escapeHtml (title t) @ js ''</td>'' @
           [LF] @ js ''      <td>'' @ status t @ js ''</td>'' @
           [LF] @ js ''      <td>'' @ createdAt t @ js ''</td>'' @
           [LF] @ js ''      <td><button class="delete-btn" data-id="'' @
             Number_toString (id_of t) @ js ''">Delete</button></td>'' @
           [LF] @ js ''    ''\<close> for t
    by (rule taskRow_def)
  have ne: "map taskRow ts \<noteq> [emptyRow]" for ts
    by (cases ts) (auto simp: taskRow_not_emptyRow)
  have c1: "taskTableBody (renderTasks st) =
     (if tasks st = [] then [emptyRow] else map taskRow (tasks st))"
    by (rule body)
  have c2: "taskTableBody (renderTasks (st\<lparr>taskTableBody := old\<rparr>)) =
     taskTableBody (renderTasks st)"
    by (simp add: body)
  have c3: \<open>tasks st \<noteq> [] \<longrightarrow>
      length (taskTableBody (renderTasks st)) = length (tasks st) \<and>
      (\<forall>i < length (tasks st).
         taskTableBody (renderTasks st) ! i =
           [LF] @ js ''      <td>'' @ escapeHtml (title (tasks st ! i)) @ js ''</td>'' @
           [LF] @ js ''      <td>'' @ status (tasks st ! i) @ js ''</td>'' @
           [LF] @ js ''      <td>'' @ createdAt (tasks st ! i) @ js ''</td>'' @
           [LF] @ js ''      <td><button class="delete-btn" data-id="'' @
             Number_toString (id_of (tasks st ! i)) @ js ''">Delete</button></td>'' @
           [LF] @ js ''    '')\<close>
    unfolding row [symmetric] by (simp add: body)
  have c4: "length (taskRows (taskTableBody (renderTasks st))) = length (tasks st)"
    by (cases "tasks st = []") (simp_all add: body taskRows_map_taskRow, simp add: taskRows_def)
  have c5: "length (taskRows (taskTableBody (renderTasks st))) = 0 \<longleftrightarrow>
      taskTableBody (renderTasks st) = [emptyRow]"
    unfolding c4 by (simp add: body ne)
  have c6: "tasks st = [] \<longrightarrow> taskTableBody (renderTasks st) = [emptyRow]"
    by (simp add: body)
  show ?thesis
    unfolding placeholder [symmetric]
    by (intro conjI) (fact c1, rule refl, fact cell, fact c6, fact c2, fact c3, fact c4, fact c5)
qed

theorem renderTasks_rows_witness:
  \<open>wellFormed [milk, bread] \<and>
   taskTableBody (renderTasks (emptyPage\<lparr>tasks := [milk, bread]\<rparr>)) = [taskRow milk, taskRow bread] \<and>
   taskTableBody (renderTasks (emptyPage\<lparr>tasks := [milk, bread]\<rparr>)) ! 0 =
     [LF] @ js ''      <td>Buy milk</td>'' @
     [LF] @ js ''      <td>pending</td>'' @
     [LF] @ js ''      <td>11/14/2023, 10:13:20 PM</td>'' @
     [LF] @ js ''      <td><button class="delete-btn" data-id="1700000000000">Delete</button></td>'' @
     [LF] @ js ''    '' \<and>
   length (taskRows (taskTableBody (renderTasks (emptyPage\<lparr>tasks := [milk, bread]\<rparr>)))) = 2 \<and>
   taskTableBody (renderTasks emptyPage) =
     [js ''<td colspan="4" class="empty-row">No tasks yet. Add one above.</td>''] \<and>
   length (taskRows (taskTableBody (renderTasks emptyPage))) = 0\<close>
proof -
  have t: "tasks (emptyPage\<lparr>tasks := [milk, bread]\<rparr>) = [milk, bread]" "tasks emptyPage = []"
    by (simp_all add: emptyPage_def)
  have wf: "wellFormed (tasks (emptyPage\<lparr>tasks := [milk, bread]\<rparr>))" "wellFormed (tasks emptyPage)"
    unfolding t by (simp_all add: wellFormed_examples) (simp add: wellFormed_def)
  have number: "Number_toString 1700000000000 = js ''1700000000000''"
    by (simp add: Number_toString_def digits.simps digitChar_def js_def)
  have milk: "title milk = js ''Buy milk''" "status milk = js ''pending''"
    "createdAt milk = js ''11/14/2023, 10:13:20 PM''" "id_of milk = 1700000000000"
    by (simp_all add: milk_def)
  have ne: "[milk, bread] \<noteq> []" by simp
  have rows: \<open>taskTableBody (renderTasks (emptyPage\<lparr>tasks := [milk, bread]\<rparr>)) =
      (if [milk, bread] = [] then [emptyRow] else map taskRow [milk, bread]) \<and>
    (\<forall>i < length [milk, bread].
       taskTableBody (renderTasks (emptyPage\<lparr>tasks := [milk, bread]\<rparr>)) ! i =
         [LF] @ js ''      <td>'' @ escapeHtml (title ([milk, bread] ! i)) @ js ''</td>'' @
         [LF] @ js ''      <td>'' @ status ([milk, bread] ! i) @ js ''</td>'' @
         [LF] @ js ''      <td>'' @ createdAt ([milk, bread] ! i) @ js ''</td>'' @
         [LF] @ js ''      <td><button class="delete-btn" data-id="'' @
           Number_toString (id_of ([milk, bread] ! i)) @ js ''">Delete</button></td>'' @
         [LF] @ js ''    '') \<and>
    length (taskRows (taskTableBody (renderTasks (emptyPage\<lparr>tasks := [milk, bread]\<rparr>)))) =
      length [milk, bread]\<close>
    using renderTasks_rows [OF wf(1), of "taskTableBody emptyPage"] ne
    unfolding t by blast
  note r1 = rows [THEN conjunct1]
  note r2 = rows [THEN conjunct2, THEN conjunct1]
  note r3 = rows [THEN conjunct2, THEN conjunct2]
  have first: "0 < length [milk, bread]" "[milk, bread] ! 0 = milk" by simp_all
  have a: \<open>taskTableBody (renderTasks (emptyPage\<lparr>tasks := [milk, bread]\<rparr>)) =
      [taskRow milk, taskRow bread] \<and>
    taskTableBody (renderTasks (emptyPage\<lparr>tasks := [milk, bread]\<rparr>)) ! 0 =
     [LF] @ js ''      <td>'' @ js ''Buy milk'' @ js ''</td>'' @
     [LF] @ js ''      <td>'' @ js ''pending'' @ js ''</td>'' @
     [LF] @ js ''      <td>'' @ js ''11/14/2023, 10:13:20 PM'' @ js ''</td>'' @
     [LF] @ js ''      <td><button class="delete-btn" data-id="'' @
       js ''1700000000000'' @ js ''">Delete</button></td>'' @
     [LF] @ js ''    '' \<and>
    length (taskRows (taskTableBody (renderTasks (emptyPage\<lparr>tasks := [milk, bread]\<rparr>)))) = 2\<close>
  proof (intro conjI)
    show "taskTableBody (renderTasks (emptyPage\<lparr>tasks := [milk, bread]\<rparr>)) =
        [taskRow milk, taskRow bread]"
      using r1 by simp
    show \<open>taskTableBody (renderTasks (emptyPage\<lparr>tasks := [milk, bread]\<rparr>)) ! 0 =
     [LF] @ js ''      <td>'' @ js ''Buy milk'' @ js ''</td>'' @
     [LF] @ js ''      <td>'' @ js ''pending'' @ js ''</td>'' @
     [LF] @ js ''      <td>'' @ js ''11/14/2023, 10:13:20 PM'' @ js ''</td>'' @
     [LF] @ js ''      <td><button class="delete-btn" data-id="'' @
       js ''1700000000000'' @ js ''">Delete</button></td>'' @
     [LF] @ js ''    ''\<close>
    proof -
      have \<open>taskTableBody (renderTasks (emptyPage\<lparr>tasks := [milk, bread]\<rparr>)) ! 0 =
         [LF] @ js ''      <td>'' @ escapeHtml (title ([milk, bread] ! 0)) @ js ''</td>'' @
         [LF] @ js ''      <td>'' @ status ([milk, bread] ! 0) @ js ''</td>'' @
         [LF] @ js ''      <td>'' @ createdAt ([milk, bread] ! 0) @ js ''</td>'' @
         [LF] @ js ''      <td><button class="delete-btn" data-id="'' @
           Number_toString (id_of ([milk, bread] ! 0)) @ js ''">Delete</button></td>'' @
         [LF] @ js ''    ''\<close>
        using r2 first(1) by blast
      then show ?thesis
        by (simp only: first(2) milk escapeHtml_milk number)
    qed
    show "length (taskRows (taskTableBody (renderTasks (emptyPage\<lparr>tasks := [milk, bread]\<rparr>)))) = 2"
      using r3 by simp
  qed
  have e: \<open>taskTableBody (renderTasks emptyPage) =
       [js ''<td colspan="4" class="empty-row">No tasks yet. Add one above.</td>''] \<and>
     length (taskRows (taskTableBody (renderTasks emptyPage))) = length (tasks emptyPage)\<close>
    using renderTasks_rows [OF wf(2), of "taskTableBody emptyPage"] t(2) by blast
  note e1 = e [THEN conjunct1]
  note e2 = e [THEN conjunct2]
  note a1 = a [THEN conjunct1]
  note a2 = a [THEN conjunct2, THEN conjunct1]
  note a3 = a [THEN conjunct2, THEN conjunct2]
  show ?thesis
  proof (intro conjI)
    show "wellFormed [milk, bread]" by (rule wellFormed_examples)
    show "taskTableBody (renderTasks (emptyPage\<lparr>tasks := [milk, bread]\<rparr>)) =
        [taskRow milk, taskRow bread]"
      by (rule a1)
    show \<open>taskTableBody (renderTasks (emptyPage\<lparr>tasks := [milk, bread]\<rparr>)) ! 0 =
     [LF] @ js ''      <td>Buy milk</td>'' @
     [LF] @ js ''      <td>pending</td>'' @
     [LF] @ js ''      <td>11/14/2023, 10:13:20 PM</td>'' @
     [LF] @ js ''      <td><button class="delete-btn" data-id="1700000000000">Delete</button></td>'' @
     [LF] @ js ''    ''\<close>
      unfolding a2 by (simp add: js_def)
    show "length (taskRows (taskTableBody (renderTasks (emptyPage\<lparr>tasks := [milk, bread]\<rparr>)))) = 2"
      by (rule a3)
    show \<open>taskTableBody (renderTasks emptyPage) =
       [js ''<td colspan="4" class="empty-row">No tasks yet. Add one above.</td>'']\<close>
      by (rule e1)
    show "length (taskRows (taskTableBody (renderTasks emptyPage))) = 0"
      unfolding e2 by (simp add: t(2))
  qed
qed

section \<open>Titles in markup\<close>

lemma readHtml_escapeChar: "readHtml (escapeChar c @ r) = Character c # readHtml r"
  by (simp add: escapeChar_def startsWith_def js_def)

lemma readHtml_br: "readHtml (js ''<br>'' @ r) = LineBreak # readHtml r"
  by (simp add: startsWith_def js_def)

lemma readHtml_text: "readHtml (concat (map escapeChar s) @ r) = map Character s @ readHtml r"
  by (induction s) (simp_all add: readHtml_escapeChar del: readHtml.simps)

lemma readHtml_node: "readHtml (serializeNode n @ r) = nodeItems n @ readHtml r"
  by (cases n) (simp_all add: readHtml_text readHtml_br del: readHtml.simps)

lemma readHtml_nodes: "readHtml (innerHTML_get ns) = concat (map nodeItems ns)"
  unfolding innerHTML_get_def
  by (induction ns) (simp_all add: readHtml_node del: readHtml.simps(2))

lemma Markup_not_in_nodes: "Markup \<notin> set (concat (map nodeItems ns))"
proof -
  have "Markup \<notin> set (nodeItems n)" for n by (cases n) auto
  then show ?thesis by auto
qed

lemma run_plain: "\<forall>c \<in> set cs. \<not> isLineBreak c \<Longrightarrow> run acc cs = [Text (acc @ cs)]"
  by (induction cs arbitrary: acc) simp_all

lemma breaks_plain:
  "\<forall>c \<in> set t. \<not> isLineBreak c \<Longrightarrow> breaks t = (if t = [] then [] else [Text t])"
  by (cases t) (simp_all add: run_plain, simp add: isLineBreak_def)

lemma escapeChar_no_angle: "0x3C \<notin> set (escapeChar c) \<and> 0x3E \<notin> set (escapeChar c)"
  by (simp add: escapeChar_def js_def)

lemma escapeHtml_plain:
  "\<forall>c \<in> set t. \<not> isLineBreak c \<Longrightarrow> escapeHtml t = concat (map escapeChar t)"
  by (simp add: escapeHtml_def innerText_set_def innerHTML_get_def breaks_plain)

lemma escapeHtml_script:
  "escapeHtml (js ''<script>alert(1)</script>'') = js ''&lt;script&gt;alert(1)&lt;/script&gt;''"
proof -
  have "\<forall>c \<in> set (js ''<script>alert(1)</script>''). \<not> isLineBreak c"
    by (simp add: js_def isLineBreak_def LF_def CR_def)
  then show ?thesis
    by (simp only: escapeHtml_plain) (simp add: js_def escapeChar_def)
qed

text \<open>
  C5. The row of a task holds the title as \<open>escapeHtml\<close> gives it. Read back as
  markup, the escaped title is what the setter of \<open>innerText\<close> built from the
  title, text and line breaks, and nothing in it is markup of any other kind. For a
  title without line break, what is read back is the title, character by character
  (so \<open><\<close>, \<open>>\<close>, \<open>&\<close> and the quotes are text), and the escaped title holds
  neither \<open><\<close> nor \<open>>\<close>. In particular the title
  \<open><script>alert(1)</script>\<close> is written
  \<open>&lt;script&gt;alert(1)&lt;/script&gt;\<close> and read back as itself.
\<close>

theorem escapeHtml_literal:
  "taskRow task =
     [LF] @ js ''      <td>'' @ escapeHtml (title task) @ js ''</td>'' @
     [LF] @ js ''      <td>'' @ status task @ js ''</td>'' @
     [LF] @ js ''      <td>'' @ createdAt task @ js ''</td>'' @
     [LF] @ js ''      <td><button class='' @ [DQUOTE] @ js ''delete-btn'' @ [DQUOTE] @
       js '' data-id='' @ [DQUOTE] @ Number_toString (id_of task) @ [DQUOTE] @
       js ''>Delete</button></td>'' @
     [LF] @ js ''    '' \<and>
   readHtml (escapeHtml t) = concat (map nodeItems (innerText_set t)) \<and>
   Markup \<notin> set (readHtml (escapeHtml t)) \<and>
   ((\<forall>c \<in> set t. \<not> isLineBreak c) \<longrightarrow>
      readHtml (escapeHtml t) = map Character t \<and>
      0x3C \<notin> set (escapeHtml t) \<and> 0x3E \<notin> set (escapeHtml t)) \<and>
   escapeHtml (js ''<script>alert(1)</script>'') = js ''&lt;script&gt;alert(1)&lt;/script&gt;'' \<and>
   readHtml (escapeHtml (js ''<script>alert(1)</script>'')) =
     map Character (js ''<script>alert(1)</script>'')"
proof -
  have c1: "taskRow task =
     [LF] @ js ''      <td>'' @ escapeHtml (title task) @ js ''</td>'' @
     [LF] @ js ''      <td>'' @ status task @ js ''</td>'' @
     [LF] @ js ''      <td>'' @ createdAt task @ js ''</td>'' @
     [LF] @ js ''      <td><button class='' @ [DQUOTE] @ js ''delete-btn'' @ [DQUOTE] @
       js '' data-id='' @ [DQUOTE] @ Number_toString (id_of task) @ [DQUOTE] @
       js ''>Delete</button></td>'' @
     [LF] @ js ''    ''"
    by (simp add: taskRow_def js_def DQUOTE_def)
  have c2: "readHtml (escapeHtml s) = concat (map nodeItems (innerText_set s))" for s
    unfolding escapeHtml_def by (rule readHtml_nodes)
  have c3: "Markup \<notin> set (readHtml (escapeHtml t))"
    unfolding c2 by (rule Markup_not_in_nodes)
  have plain: "readHtml (escapeHtml s) = map Character s \<and>
      0x3C \<notin> set (escapeHtml s) \<and> 0x3E \<notin> set (escapeHtml s)"
    if "\<forall>c \<in> set s. \<not> isLineBreak c" for s
  proof -
    have "readHtml (escapeHtml s) = map Character s"
      unfolding c2 using that by (simp add: innerText_set_def breaks_plain)
    moreover have "0x3C \<notin> set (escapeHtml s) \<and> 0x3E \<notin> set (escapeHtml s)"
      unfolding escapeHtml_plain [OF that] using escapeChar_no_angle by auto
    ultimately show ?thesis by simp
  qed
  have c4: "(\<forall>c \<in> set t. \<not> isLineBreak c) \<longrightarrow>
      readHtml (escapeHtml t) = map Character t \<and>
      0x3C \<notin> set (escapeHtml t) \<and> 0x3E \<notin> set (escapeHtml t)"
    using plain by blast
  have "\<forall>c \<in> set (js ''<script>alert(1)</script>''). \<not> isLineBreak c"
    by (simp add: js_def isLineBreak_def LF_def CR_def)
  then have c6: "readHtml (escapeHtml (js ''<script>alert(1)</script>'')) =
     map Character (js ''<script>alert(1)</script>'')"
    using plain by blast
  show ?thesis
    by (intro conjI) (fact c1, fact c2, fact c3, fact c4, fact escapeHtml_script, fact c6)
qed

theorem escapeHtml_literal_witness:
  \<open>readHtml (escapeHtml (js ''<b>"Tom" & 'Jerry'</b>'')) =
     map Character (js ''<b>"Tom" & 'Jerry'</b>'') \<and>
   escapeHtml (js ''<b>"Tom" & 'Jerry'</b>'') = js ''&lt;b&gt;"Tom" &amp; 'Jerry'&lt;/b&gt;''\<close>
proof -
  have plain: \<open>\<forall>c \<in> set (js ''<b>"Tom" & 'Jerry'</b>''). \<not> isLineBreak c\<close>
    by (simp add: js_def isLineBreak_def LF_def CR_def)
  have \<open>escapeHtml (js ''<b>"Tom" & 'Jerry'</b>'') = js ''&lt;b&gt;"Tom" &amp; 'Jerry'&lt;/b&gt;''\<close>
    by (simp only: escapeHtml_plain [OF plain]) (simp add: js_def escapeChar_def)
  then show ?thesis
    using escapeHtml_literal [of milk \<open>js ''<b>"Tom" & 'Jerry'</b>''\<close>] plain by blast
qed

end
